(* ===== verification/Ustor_Base.thy ===== *)
theory Ustor_Base
  imports Main "HOL-Library.Word" "HOL-Library.Monad_Syntax"
begin

text \<open>
  The prelude of the development: machine integers, byte strings, the layout of C objects
  in memory (little-endian, the target is mipsel), the C string functions the sources use,
  and a locale for the packed structs that travel between the memory image and a record.
  Nothing here depends on a component of the program.
\<close>

unbundle bit_operations_syntax

section \<open>Types\<close>

type_synonym u8 = "8 word"
type_synonym u16 = "16 word"
type_synonym u32 = "32 word"
type_synonym u64 = "64 word"
type_synonym bytes = "u8 list"

named_theorems mem_simps \<open>reading and writing memory images\<close>
named_theorems codec_simps \<open>lengths and fields of encoded structs\<close>

lemma unat_of_nat_small: "n < 2 ^ LENGTH('a) \<Longrightarrow> unat (of_nat n :: 'a::len word) = n"
  unfolding unat_of_nat by simp

section \<open>Little-endian integers\<close>

fun le_bytes :: "nat \<Rightarrow> nat \<Rightarrow> bytes" where
  "le_bytes 0 x = []"
| "le_bytes (Suc n) x = word_of_nat x # le_bytes n (x div 256)"

fun le_nat :: "bytes \<Rightarrow> nat" where
  "le_nat [] = 0"
| "le_nat (b # bs) = unat b + 256 * le_nat bs"

lemma length_le_bytes [simp]: "length (le_bytes n x) = n"
  by (induction n arbitrary: x) auto

lemma le_nat_le_bytes: "le_nat (le_bytes n x) = x mod 256 ^ n"
proof (induction n arbitrary: x)
  case 0
  then show ?case by simp
next
  case (Suc n)
  have "unat (word_of_nat x :: u8) = x mod 256"
    by (simp add: unat_of_nat)
  with Suc show ?case
    by (simp add: mod_mult2_eq)
qed

lemma le_nat_less: "le_nat bs < 256 ^ length bs"
proof (induction bs)
  case Nil
  then show ?case by simp
next
  case (Cons b bs)
  have "unat b < 256" using unsigned_less [of b] by simp
  with Cons show ?case by simp
qed

lemma le_bytes_le_nat: "le_bytes (length bs) (le_nat bs) = bs"
proof (induction bs)
  case Nil
  then show ?case by simp
next
  case (Cons b bs)
  have "unat b < 256" using unsigned_less [of b] by simp
  then have "(unat b + 256 * le_nat bs) div 256 = le_nat bs" by simp
  moreover have "(word_of_nat (unat b + 256 * le_nat bs) :: u8) = b"
    using \<open>unat b < 256\<close>
    by (simp add: word_unat_eq_iff unat_of_nat del: of_nat_add of_nat_mult)
  ultimately show ?case using Cons by simp
qed

text \<open>A stored integer of type \<open>int16_t\<close>, \<open>int32_t\<close>, \<open>int64_t\<close> (or its unsigned twin).\<close>

definition put16 :: "u16 \<Rightarrow> bytes" where "put16 w = le_bytes 2 (unat w)"
definition put32 :: "u32 \<Rightarrow> bytes" where "put32 w = le_bytes 4 (unat w)"
definition put64 :: "u64 \<Rightarrow> bytes" where "put64 w = le_bytes 8 (unat w)"

definition get8 :: "bytes \<Rightarrow> nat \<Rightarrow> u8" where
  "get8 m off = (if off < length m then m ! off else 0)"
definition get16 :: "bytes \<Rightarrow> nat \<Rightarrow> u16" where
  "get16 m off = word_of_nat (le_nat (take 2 (drop off m)))"
definition get32 :: "bytes \<Rightarrow> nat \<Rightarrow> u32" where
  "get32 m off = word_of_nat (le_nat (take 4 (drop off m)))"
definition get64 :: "bytes \<Rightarrow> nat \<Rightarrow> u64" where
  "get64 m off = word_of_nat (le_nat (take 8 (drop off m)))"

lemma length_put [simp, codec_simps]:
  "length (put16 a) = 2" "length (put32 b) = 4" "length (put64 c) = 8"
  by (simp_all add: put16_def put32_def put64_def)

lemma word_of_le_bytes:
  "256 ^ n = (2::nat) ^ LENGTH('a) \<Longrightarrow>
   (word_of_nat (le_nat (le_bytes n (unat w))) :: 'a::len word) = w"
  by (simp add: le_nat_le_bytes)

lemma get16_put [simp, codec_simps]: "get16 (put16 a @ r) 0 = a"
  by (simp add: get16_def put16_def word_of_le_bytes)

lemma get32_put [simp, codec_simps]: "get32 (put32 a @ r) 0 = a"
  by (simp add: get32_def put32_def word_of_le_bytes)

lemma get64_put [simp, codec_simps]: "get64 (put64 a @ r) 0 = a"
  by (simp add: get64_def put64_def word_of_le_bytes)
lemma get_append_right [simp, codec_simps]:
  "length x \<le> n \<Longrightarrow> get8 (x @ r) n = get8 r (n - length x)"
  "length x \<le> n \<Longrightarrow> get16 (x @ r) n = get16 r (n - length x)"
  "length x \<le> n \<Longrightarrow> get32 (x @ r) n = get32 r (n - length x)"
  "length x \<le> n \<Longrightarrow> get64 (x @ r) n = get64 r (n - length x)"
  by (auto simp: get8_def get16_def get32_def get64_def nth_append)

lemma get_append_left:
  "n < length x \<Longrightarrow> get8 (x @ r) n = get8 x n"
  "n + 2 \<le> length x \<Longrightarrow> get16 (x @ r) n = get16 x n"
  "n + 4 \<le> length x \<Longrightarrow> get32 (x @ r) n = get32 x n"
  "n + 8 \<le> length x \<Longrightarrow> get64 (x @ r) n = get64 x n"
  by (simp_all add: get8_def get16_def get32_def get64_def nth_append)

lemma get_take [codec_simps]:
  "n < k \<Longrightarrow> get8 (take k m) n = get8 m n"
  "n + 2 \<le> k \<Longrightarrow> get16 (take k m) n = get16 m n"
  "n + 4 \<le> k \<Longrightarrow> get32 (take k m) n = get32 m n"
  "n + 8 \<le> k \<Longrightarrow> get64 (take k m) n = get64 m n"
  by (simp_all add: get8_def get16_def get32_def get64_def drop_take min_def)

lemma get_drop:
  "get8 (drop k m) n = get8 m (k + n)" "get16 (drop k m) n = get16 m (k + n)"
  "get32 (drop k m) n = get32 m (k + n)" "get64 (drop k m) n = get64 m (k + n)"
  by (auto simp: get8_def get16_def get32_def get64_def add.commute)

lemma get8_0 [simp, codec_simps]: "get8 (b # r) 0 = b"
  by (simp add: get8_def)

lemma get8_Cons [simp, codec_simps]: "0 < n \<Longrightarrow> get8 (b # r) n = get8 r (n - 1)"
  by (cases n) (auto simp: get8_def)

lemma get_Cons [simp, codec_simps]:
  "0 < n \<Longrightarrow> get16 (b # r) n = get16 r (n - 1)"
  "0 < n \<Longrightarrow> get32 (b # r) n = get32 r (n - 1)"
  "0 < n \<Longrightarrow> get64 (b # r) n = get64 r (n - 1)"
  by (cases n, simp_all add: get16_def get32_def get64_def)+

lemma get_put_end [simp, codec_simps]:
  "get16 (put16 a) 0 = a" "get32 (put32 b) 0 = b" "get64 (put64 c) 0 = c"
  using get16_put [of a "[]"] get32_put [of b "[]"] get64_put [of c "[]"] by simp_all

lemma put16_get16: "length bs = 2 \<Longrightarrow> put16 (get16 bs 0) = bs"
proof -
  assume l: "length bs = 2"
  have "unat (word_of_nat (le_nat bs) :: u16) = le_nat bs"
    using le_nat_less [of bs] l by (simp add: unat_of_nat)
  then show ?thesis
    using le_bytes_le_nat [of bs] l by (simp add: put16_def get16_def)
qed

lemma put32_get32: "length bs = 4 \<Longrightarrow> put32 (get32 bs 0) = bs"
proof -
  assume l: "length bs = 4"
  have "unat (word_of_nat (le_nat bs) :: u32) = le_nat bs"
    using le_nat_less [of bs] l by (simp add: unat_of_nat)
  then show ?thesis
    using le_bytes_le_nat [of bs] l by (simp add: put32_def get32_def)
qed

section \<open>Memory images\<close>

text \<open>
  A C object (a buffer, an array inside a struct) is the list of its bytes.
  \<open>peek m off n\<close> is the \<open>n\<close> bytes at offset \<open>off\<close>; \<open>poke m off bs\<close> is \<open>memcpy(m + off, bs, length bs)\<close>
  for a destination that has the room (a definition that uses it checks the room first or
  is called with a fixed layout).
\<close>

definition peek :: "bytes \<Rightarrow> nat \<Rightarrow> nat \<Rightarrow> bytes" where
  "peek m off n = take n (drop off m)"

definition poke :: "bytes \<Rightarrow> nat \<Rightarrow> bytes \<Rightarrow> bytes" where
  "poke m off bs = take off m @ bs @ drop (off + length bs) m"

text \<open>Memory set to zero.\<close>

definition zeros :: "nat \<Rightarrow> bytes" where "zeros n = replicate n 0"

lemma length_peek [simp, mem_simps]: "length (peek m off n) = min n (length m - off)"
  by (simp add: peek_def min.commute)

lemma length_poke [mem_simps]: "off + length bs \<le> length m \<Longrightarrow> length (poke m off bs) = length m"
  by (simp add: poke_def)

lemma poke_Nil [simp, mem_simps]: "poke m off [] = m"
  by (simp add: poke_def)

lemma peek_poke_same [mem_simps]:
  "off + length bs \<le> length m \<Longrightarrow> n = length bs \<Longrightarrow> peek (poke m off bs) off n = bs"
  by (simp add: peek_def poke_def)

lemma peek_poke_before [mem_simps]:
  "a + n \<le> off \<Longrightarrow> off \<le> length m \<Longrightarrow> peek (poke m off bs) a n = peek m a n"
proof -
  assume a: "a + n \<le> off" and o: "off \<le> length m"
  then have "drop a (poke m off bs) = drop a (take off m) @ bs @ drop (off + length bs) m"
    by (simp add: poke_def)
  moreover have "n \<le> length (drop a (take off m))" using a o by simp
  ultimately show ?thesis
    using a by (simp add: peek_def drop_take min_def)
qed

lemma peek_poke_after [mem_simps]:
  "off + length bs \<le> a \<Longrightarrow> off + length bs \<le> length m \<Longrightarrow>
   peek (poke m off bs) a n = peek m a n"
proof -
  assume a: "off + length bs \<le> a" and l: "off + length bs \<le> length m"
  have "drop a (poke m off bs) = drop (a - (off + length bs)) (drop (off + length bs) m)"
    using a l by (simp add: poke_def)
  then show ?thesis using a by (simp add: peek_def)
qed

lemma peek_all [simp, mem_simps]: "length m \<le> n \<Longrightarrow> peek m 0 n = m"
  by (simp add: peek_def)

lemma peek_append_left [mem_simps]: "off + n \<le> length x \<Longrightarrow> peek (x @ y) off n = peek x off n"
  by (simp add: peek_def)

lemma peek_append_right [mem_simps]:
  "length x \<le> off \<Longrightarrow> peek (x @ y) off n = peek y (off - length x) n"
  by (simp add: peek_def)

lemma peek_split: "peek m off (a + b) = peek m off a @ peek m (off + a) b"
  by (simp add: peek_def take_add add.commute)

lemma peek_poke_over [mem_simps]:
  "off + length bs + n \<le> length m \<Longrightarrow>
   peek (poke m off bs) off (length bs + n) = bs @ peek m (off + length bs) n"
  by (simp add: peek_split peek_poke_same peek_poke_after)

section \<open>Byte order\<close>

text \<open>
  The macros \<open>htons\<close> and \<open>htonl\<close> of usProtocol.h (the program's own, always swapping;
  \<open>ntohs\<close> and \<open>ntohl\<close> are the same macros).
\<close>

definition htons :: "u16 \<Rightarrow> u16" where
  "htons A = drop_bit 8 (A AND 0xff00) OR push_bit 8 (A AND 0x00ff)"

definition htonl :: "u32 \<Rightarrow> u32" where
  "htonl A = drop_bit 24 (A AND 0xff000000) OR drop_bit 8 (A AND 0x00ff0000)
     OR push_bit 8 (A AND 0x0000ff00) OR push_bit 24 (A AND 0x000000ff)"

abbreviation ntohs :: "u16 \<Rightarrow> u16" where "ntohs \<equiv> htons"
abbreviation ntohl :: "u32 \<Rightarrow> u32" where "ntohl \<equiv> htonl"

lemma byte_masks:
  "(0xff00::u16) = push_bit 8 (mask 8)"  "(0x00ff::u16) = mask 8"
  "(0xff000000::u32) = push_bit 24 (mask 8)" "(0x00ff0000::u32) = push_bit 16 (mask 8)"
  "(0x0000ff00::u32) = push_bit 8 (mask 8)" "(0x000000ff::u32) = mask 8"
  by (simp_all add: mask_eq_exp_minus_1)

lemma bit_htons: "bit (htons x) n = (n < 16 \<and> bit x (if n < 8 then n + 8 else n - 8))"
  by (auto simp: htons_def byte_masks bit_simps add.commute)

lemma bit_htonl_range:
  "n < 32 \<Longrightarrow> bit (htonl x) n =
     ((n < 8 \<and> bit x (24 + n)) \<or> (8 \<le> n \<and> n < 16 \<and> bit x (8 + n)) \<or>
      (16 \<le> n \<and> n < 24 \<and> bit x (n - 8)) \<or> (24 \<le> n \<and> bit x (n - 24)))"
  unfolding htonl_def byte_masks by (auto simp: bit_simps)

lemma bit_htonl:
  "n < 8 \<Longrightarrow> bit (htonl x) n = bit x (n + 24)"
  "8 \<le> n \<Longrightarrow> n < 16 \<Longrightarrow> bit (htonl x) n = bit x (n + 8)"
  "16 \<le> n \<Longrightarrow> n < 24 \<Longrightarrow> bit (htonl x) n = bit x (n - 8)"
  "24 \<le> n \<Longrightarrow> n < 32 \<Longrightarrow> bit (htonl x) n = bit x (n - 24)"
  by (simp_all add: bit_htonl_range add.commute)

lemma htons_htons [simp]: "htons (htons x) = x"
  by (rule bit_word_eqI) (auto simp: bit_htons)

lemma htonl_htonl [simp]: "htonl (htonl x) = x"
proof (rule bit_word_eqI)
  fix n assume "n < LENGTH(32)"
  then have n: "n < 32" by simp
  consider "n < 8" | "8 \<le> n" "n < 16" | "16 \<le> n" "n < 24" | "24 \<le> n" by linarith
  then show "bit (htonl (htonl x)) n = bit x n"
  proof cases
    case 1
    then show ?thesis by (simp add: bit_htonl(1) bit_htonl(4))
  next
    case 2
    then show ?thesis by (simp add: bit_htonl(2) bit_htonl(3))
  next
    case 3
    then have "8 \<le> n - 8" "n - 8 < 16" "n - 8 + 8 = n" by auto
    with 3 show ?thesis by (simp add: bit_htonl(3) bit_htonl(2))
  next
    case 4
    then have "n - 24 < 8" "n - 24 + 24 = n" using n by auto
    with 4 n show ?thesis by (simp add: bit_htonl(4) bit_htonl(1))
  qed
qed

lemma word_of_nat_div:
  "(word_of_nat (unat (w::'a::len word) div 2 ^ k) :: u8) = ucast (drop_bit k w)"
proof -
  have "unat w div 2 ^ k = unat (drop_bit k w)"
    unfolding unat_drop_bit_eq by (simp add: drop_bit_eq_div)
  then show ?thesis by (simp only: of_nat_unat)
qed

lemma le_bytes_small:
  "le_bytes 2 x = [word_of_nat x, word_of_nat (x div 256)]"
  "le_bytes 4 x = [word_of_nat x, word_of_nat (x div 256),
     word_of_nat (x div 65536), word_of_nat (x div 16777216)]"
proof -
  have n: "(2::nat) = Suc (Suc 0)" "(4::nat) = Suc (Suc (Suc (Suc 0)))" by simp_all
  show "le_bytes 2 x = [word_of_nat x, word_of_nat (x div 256)]"
    unfolding n by simp
  show "le_bytes 4 x = [word_of_nat x, word_of_nat (x div 256),
     word_of_nat (x div 65536), word_of_nat (x div 16777216)]"
    unfolding n by (simp add: div_mult2_eq [symmetric])
qed

lemma put16_bytes: "put16 w = [ucast w, ucast (drop_bit 8 w)]"
  using word_of_nat_div [of w 8] word_of_nat_div [of w 0]
  by (simp add: put16_def le_bytes_small)

lemma put32_bytes:
  "put32 w = [ucast w, ucast (drop_bit 8 w), ucast (drop_bit 16 w), ucast (drop_bit 24 w)]"
  using word_of_nat_div [of w 8] word_of_nat_div [of w 0] word_of_nat_div [of w 16]
    word_of_nat_div [of w 24]
  by (simp add: put32_def le_bytes_small)

text \<open>What \<open>htonl\<close> stores on the wire is the big-endian image of the number.\<close>

lemma put16_htons: "put16 (htons w) = rev (put16 w)"
  unfolding put16_bytes by (auto intro!: bit_word_eqI simp: bit_simps bit_htons add.commute)

lemma put32_htonl: "put32 (htonl w) = rev (put32 w)"
  unfolding put32_bytes
  by (auto intro!: bit_word_eqI simp: bit_simps bit_htonl(1) bit_htonl_range add.commute)

section \<open>C strings\<close>

text \<open>
  A C string is read up to its NUL. \<open>str\<close> is a literal of the sources without its NUL.
\<close>

definition str :: "string \<Rightarrow> bytes" where "str s = map of_char s"

definition cstr :: "bytes \<Rightarrow> bytes" where "cstr m = takeWhile (\<lambda>b. b \<noteq> 0) m"

text \<open>\<open>strncpy(dst, src, n)\<close> stores exactly \<open>n\<close> bytes: the string, cut at \<open>n\<close>, padded with NULs.\<close>

definition strncpy :: "bytes \<Rightarrow> nat \<Rightarrow> bytes" where
  "strncpy src n = take n (cstr src @ replicate n 0)"

text \<open>\<open>strcpy(dst, src)\<close> stores the string and its NUL.\<close>

definition strcpy :: "bytes \<Rightarrow> bytes" where "strcpy src = cstr src @ [0]"

definition c_tolower :: "u8 \<Rightarrow> u8" where
  "c_tolower b = (if 65 \<le> b \<and> b \<le> 90 then b + 32 else b)"

definition strcaseeq :: "bytes \<Rightarrow> bytes \<Rightarrow> bool" where
  "strcaseeq a b = (map c_tolower (cstr a) = map c_tolower (cstr b))"

text \<open>\<open>strncmp(s, p, strlen(p)) == 0\<close> for a literal \<open>p\<close>.\<close>

definition starts_with :: "bytes \<Rightarrow> bytes \<Rightarrow> bool" where
  "starts_with p s = (take (length p) (cstr s) = p)"

text \<open>The part of a path after its last \<open>/\<close>, or all of it: what follows \<open>strrchr(s, '/')\<close>.\<close>

definition after_last :: "u8 \<Rightarrow> bytes \<Rightarrow> bytes" where
  "after_last c s = rev (takeWhile (\<lambda>b. b \<noteq> c) (rev s))"

lemma length_strncpy [simp, codec_simps]: "length (strncpy src n) = n"
  by (simp add: strncpy_def)

lemma cstr_append_NUL [simp]: "0 \<notin> set s \<Longrightarrow> cstr (s @ 0 # r) = s"
  by (simp add: cstr_def takeWhile_append)

lemma cstr_id: "0 \<notin> set s \<Longrightarrow> cstr s = s"
  by (auto simp: cstr_def intro: takeWhile_eq_all_conv [THEN iffD2])

lemma NUL_notin_cstr [simp]: "0 \<notin> set (cstr m)"
  by (auto simp: cstr_def dest: set_takeWhileD)

lemma cstr_cstr [simp]: "cstr (cstr m) = cstr m"
  by (simp add: cstr_id)

lemma cstr_strcpy [simp]: "cstr (strcpy s) = cstr s"
  using cstr_append_NUL [of "cstr s" "[]"] by (simp add: strcpy_def)

lemma cstr_append_zero: "cstr (cstr s @ 0 # r) = cstr s"
  by simp

lemma cstr_strncpy: "length (cstr src) < n \<Longrightarrow> cstr (strncpy src n) = cstr src"
proof -
  assume l: "length (cstr src) < n"
  then have "strncpy src n = cstr src @ replicate (n - length (cstr src)) 0"
    by (simp add: strncpy_def)
  moreover obtain k where "n - length (cstr src) = Suc k"
    using l by (metis Suc_diff_Suc)
  ultimately show ?thesis by simp
qed

lemma cstr_take: "cstr (take n s) = take n (cstr s)"
  unfolding cstr_def by (induction s arbitrary: n) (auto simp: take_Cons split: nat.split)

lemma cstr_strncpy_take: "cstr (strncpy s n) = cstr (take n s)"
proof (cases "n \<le> length (cstr s)")
  case True
  then have "strncpy s n = take n (cstr s)" by (simp add: strncpy_def)
  then show ?thesis by (auto simp: cstr_take intro: cstr_id dest: in_set_takeD)
qed (simp add: cstr_strncpy cstr_take)

lemma length_cstr: "length (cstr m) \<le> length m"
  by (simp add: cstr_def length_takeWhile_le)

lemma after_last_append: "c \<notin> set b \<Longrightarrow> after_last c (a @ c # b) = b"
proof -
  assume c: "c \<notin> set b"
  then have "takeWhile (\<lambda>b. b \<noteq> c) (rev (a @ c # b)) = rev b"
    by (auto simp: takeWhile_append2 takeWhile_append)
  then show ?thesis by (simp add: after_last_def)
qed

lemma after_last_none: "c \<notin> set s \<Longrightarrow> after_last c s = s"
  unfolding after_last_def by (subst takeWhile_eq_all_conv [THEN iffD2]) auto

lemma length_after_last: "length (after_last c s) \<le> length s"
  by (metis after_last_def length_rev length_takeWhile_le)

lemma set_after_last: "set (after_last c s) \<subseteq> set s"
  by (auto simp: after_last_def dest: set_takeWhileD)

section \<open>Packed structs\<close>

text \<open>
  The interface every packed struct of the protocol has: an encoder of fixed length and a
  decoder that reads exactly those bytes. The lemmas say what is read back from a memory
  image after the struct, or something else, was stored in it, and that an array of structs
  can be read back.
\<close>

fun dec_array :: "(bytes \<Rightarrow> 'a) \<Rightarrow> nat \<Rightarrow> nat \<Rightarrow> bytes \<Rightarrow> 'a list" where
  "dec_array d s 0 bs = []"
| "dec_array d s (Suc n) bs = d (take s bs) # dec_array d s n (drop s bs)"

locale packed_struct =
  fixes enc :: "'a \<Rightarrow> bytes" and dec :: "bytes \<Rightarrow> 'a" and sz :: nat and wf :: "'a \<Rightarrow> bool"
  assumes length_enc: "wf x \<Longrightarrow> length (enc x) = sz"
    and dec_enc_append: "wf x \<Longrightarrow> dec (enc x @ r) = x"
    and dec_take: "dec (take sz bs) = dec bs"
begin

lemma dec_enc: "wf x \<Longrightarrow> dec (enc x) = x"
  using dec_enc_append [of x "[]"] by simp

lemma enc_inject: "wf x \<Longrightarrow> wf y \<Longrightarrow> enc x = enc y \<longleftrightarrow> x = y"
  by (metis dec_enc)

lemma dec_poke: "wf x \<Longrightarrow> off + sz \<le> length m \<Longrightarrow> dec (drop off (poke m off (enc x))) = x"
  by (simp add: poke_def length_enc dec_enc_append)

lemma dec_peek: "dec (peek m off sz) = dec (drop off m)"
  by (simp add: peek_def dec_take)

lemma dec_poke_apart:
  assumes "a + sz \<le> off \<or> off + length bs \<le> a" "off + length bs \<le> length m"
  shows "dec (drop a (poke m off bs)) = dec (drop a m)"
proof -
  have "peek (poke m off bs) a sz = peek m a sz"
    using assms peek_poke_before [of a sz off m bs] peek_poke_after [of off bs a m sz] by auto
  then show ?thesis
    using dec_peek [of m a] dec_peek [of "poke m off bs" a] by simp
qed

lemma dec_array_enc:
  "\<forall>x\<in>set xs. wf x \<Longrightarrow> dec_array dec sz (length xs) (concat (map enc xs) @ r) = xs"
  by (induction xs) (simp_all add: length_enc dec_enc)

lemma length_encs: "\<forall>x\<in>set xs. wf x \<Longrightarrow> length (concat (map enc xs)) = sz * length xs"
  by (induction xs) (simp_all add: length_enc)

end

section \<open>Small numbers\<close>

lemma sint_small:
  assumes "unat (w :: u32) < 2147483648"
  shows "sint w = int (unat w)"
proof -
  have "int (unat w) < 2147483648" using assms by linarith
  then have "uint w < 2 ^ 31" "- (2 ^ 31) \<le> uint w"
    using order.trans [OF _ uint_ge_0, of "- (2 ^ 31)" w] by simp_all
  then show ?thesis using signed_take_bit_int_eq_self [of 31 "uint w"] by (simp add: sint_uint)
qed

lemma unat_of_small_int: "0 \<le> k \<Longrightarrow> k < 2 ^ 32 \<Longrightarrow> unat (word_of_int k :: u32) = nat k"
  by (simp add: unsigned_of_int take_bit_int_eq_self)

end
