(* ===== verification/Ustor_Env.thy ===== *)
theory Ustor_Env
  imports Ustor_Base
begin

text \<open>
  What the program calls and does not contain: libusb, the C library and the kernel. An
  environment \<open>E :: os\<close> is a parameter of every operation that makes such a call; it
  answers a call from everything that happened before (the trace). An operation takes the
  trace so far and returns it extended by its calls, so the order of the calls and the data
  they carry are part of what is proved. An access outside a C object or through a NULL
  pointer is recorded in the trace as a \<open>Fault\<close>; the model goes on from there in some way,
  and a theorem about memory safety says that no fault is recorded.
\<close>

section \<open>Result codes (usError.h)\<close>

abbreviation EUSTOR_OK :: int where "EUSTOR_OK \<equiv> 0"
abbreviation EUSTOR_ARG :: int where "EUSTOR_ARG \<equiv> 20170001"
abbreviation EUSTOR_MEM :: int where "EUSTOR_MEM \<equiv> 20170002"
abbreviation EUSTOR_SYS :: int where "EUSTOR_SYS \<equiv> 20170003"
abbreviation EUSTOR_USB_INIT :: int where "EUSTOR_USB_INIT \<equiv> 20171001"
abbreviation EUSTOR_USB_CONTROL :: int where "EUSTOR_USB_CONTROL \<equiv> 20171002"
abbreviation EUSTOR_USB_TIMEOUT :: int where "EUSTOR_USB_TIMEOUT \<equiv> 20171003"
abbreviation EUSTOR_USB_OFFLINE :: int where "EUSTOR_USB_OFFLINE \<equiv> 20171004"
abbreviation EUSTOR_USB_OVERFLOW :: int where "EUSTOR_USB_OVERFLOW \<equiv> 20171005"
abbreviation EUSTOR_USB_BULKERR :: int where "EUSTOR_USB_BULKERR \<equiv> 20171006"
abbreviation EUSTOR_USB_GETDEVDES :: int where "EUSTOR_USB_GETDEVDES \<equiv> 20171007"
abbreviation EUSTOR_USB_SETDEVDES :: int where "EUSTOR_USB_SETDEVDES \<equiv> 20171008"
abbreviation EUSTOR_DISK_OPEN :: int where "EUSTOR_DISK_OPEN \<equiv> 20172002"
abbreviation EUSTOR_DISK_SEEK :: int where "EUSTOR_DISK_SEEK \<equiv> 20172003"
abbreviation EUSTOR_DISK_READ :: int where "EUSTOR_DISK_READ \<equiv> 20172004"
abbreviation EUSTOR_DISK_WRITE :: int where "EUSTOR_DISK_WRITE \<equiv> 20172005"
abbreviation EUSTOR_DISK_CREATE :: int where "EUSTOR_DISK_CREATE \<equiv> 20172006"
abbreviation EUSTOR_DISK_LUN :: int where "EUSTOR_DISK_LUN \<equiv> 20172007"
abbreviation EUSTOR_DISK_LIST :: int where "EUSTOR_DISK_LIST \<equiv> 20172008"
abbreviation EUSTOR_PRO_LIST :: int where "EUSTOR_PRO_LIST \<equiv> 20173001"
abbreviation EUSTOR_PRO_NODEVICE :: int where "EUSTOR_PRO_NODEVICE \<equiv> 20173002"
abbreviation EUSTOR_PRO_SETAOA :: int where "EUSTOR_PRO_SETAOA \<equiv> 20173003"
abbreviation EUSTOR_PRO_NOAOA :: int where "EUSTOR_PRO_NOAOA \<equiv> 20173004"
abbreviation EUSTOR_PRO_CONNECT :: int where "EUSTOR_PRO_CONNECT \<equiv> 20173005"
abbreviation EUSTOR_PRO_PGEPRO :: int where "EUSTOR_PRO_PGEPRO \<equiv> 20173006"
abbreviation EUSTOR_PRO_PROVER :: int where "EUSTOR_PRO_PROVER \<equiv> 20173007"
abbreviation EUSTOR_PRO_REVACK :: int where "EUSTOR_PRO_REVACK \<equiv> 20173008"
abbreviation EUSTOR_PRO_PACKAGE :: int where "EUSTOR_PRO_PACKAGE \<equiv> 20173009"
abbreviation EUSTOR_PRO_REFUSE :: int where "EUSTOR_PRO_REFUSE \<equiv> 20173010"
abbreviation EUSTOR_FIRM_ARG :: int where "EUSTOR_FIRM_ARG \<equiv> 20174001"
abbreviation EUSTOR_FIRM_ERR :: int where "EUSTOR_FIRM_ERR \<equiv> 20174002"
abbreviation EUSTOR_FIRM_CRC :: int where "EUSTOR_FIRM_CRC \<equiv> 20174003"

section \<open>Calls and answers\<close>

text \<open>A pointer handed out by a library (a device, a handle, a \<open>DIR\<close>) is a number; 0 is NULL.\<close>

type_synonym ptr = nat

datatype usb_call =
    UsbInit
  | GetDeviceList
  | FreeDeviceList
  | GetBus ptr
  | GetAddress ptr
  | GetDeviceDescriptor ptr
  | OpenDevice ptr
  | CloseDevice ptr
  | GetConfiguration ptr
  | SetConfiguration ptr int
  | GetActiveConfig ptr
  | FreeConfig
  | KernelDriverActive ptr u8
  | DetachKernelDriver ptr u8
  | ClaimInterface ptr u8
  | ReleaseInterface ptr u8
  | GetMaxPacketSize ptr u8
  | ControlIn ptr u8 u8 u16 u16 nat
  | ControlOut ptr u8 u8 u16 u16 bytes
  | BulkIn ptr u8 nat int
  | BulkOut ptr u8 bytes int

datatype file_call =
    Open bytes int
  | CloseFd int
  | Lseek int int
  | Read int nat
  | Write int bytes
  | Ioctl int int
  | Access bytes
  | Mkdir bytes
  | Mknod bytes u64
  | Utime bytes int int
  | Stat bytes
  | Remove bytes
  | Rename bytes bytes
  | Unlink bytes
  | Opendir bytes
  | Readdir ptr
  | Closedir ptr
  | Fopen bytes
  | Fgets ptr nat
  | Fclose ptr
  | Readlink bytes nat
  | Rmdir bytes
  | Statfs bytes
  | Mount bytes bytes bytes bytes
  | Umount bytes bool
  | Setmntent bytes
  | Getmntent ptr
  | Endmntent ptr
  | SgIo int bytes
  | BlkGetSize int
  | LseekCur int int
  | Chdir bytes
  | Freopen bytes bytes
  | Dup int
  | Umask nat

datatype sys_call =
    System bytes
  | Time
  | SetTime int
  | SyncDisks
  | Usleep nat
  | Calloc nat
  | Realloc ptr nat
  | Free ptr
  | MutexLock
  | MutexUnlock
  | ThreadCreate
  | Socket nat
  | SockTimeout int int
  | Connect int bytes
  | Bind int bytes
  | Listen int
  | Accept int
  | RecvMsg int nat
  | Poll "int list"
  | ExitProcess int
  | Fork
  | Setsid
  | Getppid
  | Getdtablesize
  | IgnoreSignal bytes
  | WaitPid int
  | Kill int
  | Execvp "bytes list"

datatype call = Usb usb_call | File file_call | Sys sys_call

record dev_desc =
  idVendor :: u16
  idProduct :: u16
  bNumConfigurations :: u8

record intf_desc =
  bInterfaceNumber :: u8
  bInterfaceClass :: u8
  bInterfaceSubClass :: u8
  bInterfaceProtocol :: u8
  bNumEndpoints :: u8
  endpoints :: "u8 list"

record file_stat =
  st_isdir :: bool
  st_size :: u64
  st_atime :: u32
  st_mtime :: u32

text \<open>
  One answer type for all calls: \<open>a_ret\<close> is what the C function returns, \<open>a_errno\<close> is
  \<open>errno\<close> after it, \<open>a_num\<close> is a number stored through a pointer (the bytes transferred, the
  handle opened), \<open>a_data\<close> the bytes stored, \<open>a_strs\<close> the strings of a struct. A call uses the fields it has.
\<close>

record answer =
  a_ret :: int
  a_errno :: int
  a_num :: nat
  a_data :: bytes
  a_list :: "nat list"
  a_desc :: dev_desc
  a_intfs :: "intf_desc list"
  a_stat :: file_stat
  a_strs :: "bytes list"

datatype fault = OutOfBounds | NullPtr | Uninitialised | Dangling

datatype event = Did call answer | Fault fault

type_synonym trace = "event list"
type_synonym os = "trace \<Rightarrow> call \<Rightarrow> answer"

abbreviation EINTR :: int where "EINTR \<equiv> 4"
abbreviation EAGAIN :: int where "EAGAIN \<equiv> 11"
abbreviation EROFS :: int where "EROFS \<equiv> 30"

abbreviation (input) O_RDONLY :: int where "O_RDONLY \<equiv> 0"
abbreviation (input) O_WRONLY :: int where "O_WRONLY \<equiv> 1"
abbreviation (input) O_RDWR :: int where "O_RDWR \<equiv> 2"
abbreviation (input) O_CREAT :: int where "O_CREAT \<equiv> 256"
abbreviation (input) O_TRUNC :: int where "O_TRUNC \<equiv> 512"
abbreviation (input) O_NONBLOCK :: int where "O_NONBLOCK \<equiv> 128"

section \<open>Making a call\<close>

definition do_call :: "os \<Rightarrow> call \<Rightarrow> trace \<Rightarrow> answer \<times> trace" where
  "do_call E c tr = (let a = E tr c in (a, tr @ [Did c a]))"

text \<open>A call of which only the return value matters, and one of which nothing does.\<close>

definition ret_call :: "os \<Rightarrow> call \<Rightarrow> trace \<Rightarrow> int \<times> trace" where
  "ret_call E c tr = (let (a, tr) = do_call E c tr in (a_ret a, tr))"

definition just_call :: "os \<Rightarrow> call \<Rightarrow> trace \<Rightarrow> trace" where
  "just_call E c tr = snd (do_call E c tr)"

definition fault_if :: "bool \<Rightarrow> fault \<Rightarrow> trace \<Rightarrow> trace" where
  "fault_if b f tr = (if b then tr @ [Fault f] else tr)"

text \<open>
  \<open>libusb_bulk_transfer\<close>: on an OUT endpoint it reports how many bytes of the buffer were
  transferred, on an IN endpoint it stores at most \<open>length\<close> bytes and reports how many.
\<close>

definition bulk_out :: "os \<Rightarrow> ptr \<Rightarrow> u8 \<Rightarrow> bytes \<Rightarrow> int \<Rightarrow> trace \<Rightarrow> int \<times> nat \<times> trace" where
  "bulk_out E h ep data timeout tr =
     (let (a, tr) = do_call E (Usb (BulkOut h ep data timeout)) tr
      in (a_ret a, min (a_num a) (length data), tr))"

definition bulk_in :: "os \<Rightarrow> ptr \<Rightarrow> u8 \<Rightarrow> nat \<Rightarrow> int \<Rightarrow> trace \<Rightarrow> int \<times> bytes \<times> trace" where
  "bulk_in E h ep len timeout tr =
     (let (a, tr) = do_call E (Usb (BulkIn h ep len timeout)) tr
      in (a_ret a, take len (a_data a), tr))"

text \<open>
  \<open>read\<close> and \<open>write\<close>: a negative result is an error, otherwise it is the number of bytes
  stored in the buffer, or taken from it, and at most the number asked for.
\<close>

definition read_fd :: "os \<Rightarrow> int \<Rightarrow> nat \<Rightarrow> trace \<Rightarrow> int \<times> bytes \<times> int \<times> trace" where
  "read_fd E fd n tr =
     (let (a, tr) = do_call E (File (Read fd n)) tr in
      if a_ret a < 0 then (a_ret a, [], a_errno a, tr)
      else (int (length (take n (a_data a))), take n (a_data a), a_errno a, tr))"

definition write_fd :: "os \<Rightarrow> int \<Rightarrow> bytes \<Rightarrow> trace \<Rightarrow> int \<times> int \<times> trace" where
  "write_fd E fd data tr =
     (let (a, tr) = do_call E (File (Write fd data)) tr
      in (min (a_ret a) (int (length data)), a_errno a, tr))"

text \<open>\<open>memcpy(dst + off, src, length src)\<close> into an object whose size is known.\<close>

definition memcpy :: "bytes \<Rightarrow> nat \<Rightarrow> bytes \<Rightarrow> trace \<Rightarrow> bytes \<times> trace" where
  "memcpy dst off src tr =
     (if off + length src \<le> length dst then (poke dst off src, tr)
      else (dst, tr @ [Fault OutOfBounds]))"

abbreviation LIBUSB_ERROR_NO_DEVICE :: int where "LIBUSB_ERROR_NO_DEVICE \<equiv> -4"
abbreviation LIBUSB_ERROR_TIMEOUT :: int where "LIBUSB_ERROR_TIMEOUT \<equiv> -7"
abbreviation LIBUSB_ERROR_OVERFLOW :: int where "LIBUSB_ERROR_OVERFLOW \<equiv> -8"

section \<open>Reading a trace\<close>

definition faults :: "trace \<Rightarrow> fault list" where
  "faults tr = concat (map (\<lambda>e. case e of Fault f \<Rightarrow> [f] | _ \<Rightarrow> []) tr)"

definition calls :: "trace \<Rightarrow> call list" where
  "calls tr = concat (map (\<lambda>e. case e of Did c a \<Rightarrow> [c] | _ \<Rightarrow> []) tr)"

text \<open>The bytes a device accepted on an endpoint, in order.\<close>

fun sent_by :: "ptr \<Rightarrow> u8 \<Rightarrow> event \<Rightarrow> bytes" where
  "sent_by h ep (Did (Usb (BulkOut h' ep' data t)) a) =
     (if h' = h \<and> ep' = ep then take (a_num a) data else [])"
| "sent_by h ep _ = []"

definition sent :: "ptr \<Rightarrow> u8 \<Rightarrow> trace \<Rightarrow> bytes" where
  "sent h ep tr = concat (map (sent_by h ep) tr)"

text \<open>The bytes a device delivered on an endpoint, in order.\<close>

fun got_by :: "ptr \<Rightarrow> u8 \<Rightarrow> event \<Rightarrow> bytes" where
  "got_by h ep (Did (Usb (BulkIn h' ep' n t)) a) =
     (if h' = h \<and> ep' = ep \<and> 0 \<le> a_ret a then take n (a_data a) else [])"
| "got_by h ep _ = []"

definition got :: "ptr \<Rightarrow> u8 \<Rightarrow> trace \<Rightarrow> bytes" where
  "got h ep tr = concat (map (got_by h ep) tr)"

lemma got_simps [simp]:
  "got h ep [] = []" "got h ep (a @ b) = got h ep a @ got h ep b"
  "got h ep (e # b) = got_by h ep e @ got h ep b"
  by (simp_all add: got_def)

text \<open>The bytes written to a file descriptor, and those read from it, in order.\<close>

fun written_by :: "int \<Rightarrow> event \<Rightarrow> bytes" where
  "written_by fd (Did (File (Write fd' data)) a) = (if fd' = fd then take (nat (a_ret a)) data else [])"
| "written_by fd _ = []"

definition written :: "int \<Rightarrow> trace \<Rightarrow> bytes" where
  "written fd tr = concat (map (written_by fd) tr)"

fun read_by :: "int \<Rightarrow> event \<Rightarrow> bytes" where
  "read_by fd (Did (File (Read fd' n)) a) = (if fd' = fd \<and> 0 \<le> a_ret a then take n (a_data a) else [])"
| "read_by fd _ = []"

definition read_in :: "int \<Rightarrow> trace \<Rightarrow> bytes" where
  "read_in fd tr = concat (map (read_by fd) tr)"

lemma written_simps [simp]:
  "written fd [] = []" "written fd (a @ b) = written fd a @ written fd b"
  "written fd (e # b) = written_by fd e @ written fd b"
  by (simp_all add: written_def)

lemma read_in_simps [simp]:
  "read_in fd [] = []" "read_in fd (a @ b) = read_in fd a @ read_in fd b"
  "read_in fd (e # b) = read_by fd e @ read_in fd b"
  by (simp_all add: read_in_def)

lemma faults_simps [simp]:
  "faults [] = []" "faults (a @ b) = faults a @ faults b"
  "faults (Did c x # b) = faults b" "faults (Fault f # b) = f # faults b"
  by (simp_all add: faults_def)

lemma calls_simps [simp]:
  "calls [] = []" "calls (a @ b) = calls a @ calls b"
  "calls (Did c x # b) = c # calls b" "calls (Fault f # b) = calls b"
  by (simp_all add: calls_def)

lemma sent_simps [simp]:
  "sent h ep [] = []" "sent h ep (a @ b) = sent h ep a @ sent h ep b"
  "sent h ep (e # b) = sent_by h ep e @ sent h ep b"
  by (simp_all add: sent_def)

text \<open>
  What an operation did to the trace: it appended events, no fault among them, and the
  bytes \<open>bs\<close> went out on the endpoint. These are the facts the callers of an operation use.
\<close>

definition clean :: "trace \<Rightarrow> trace \<Rightarrow> bool" where
  "clean tr tr' = (\<exists>es. tr' = tr @ es \<and> faults es = [])"

definition wrote :: "ptr \<Rightarrow> u8 \<Rightarrow> trace \<Rightarrow> trace \<Rightarrow> bytes \<Rightarrow> bool" where
  "wrote h ep tr tr' bs = (clean tr tr' \<and> sent h ep tr' = sent h ep tr @ bs)"

lemma clean_refl [simp, intro]: "clean tr tr"
  by (simp add: clean_def)

lemma clean_trans [trans]: "clean a b \<Longrightarrow> clean b c \<Longrightarrow> clean a c"
  by (auto simp: clean_def)

lemma clean_call [simp]: "clean tr (tr @ [Did c a])"
  by (simp add: clean_def)

lemma clean_faults: "clean tr tr' \<Longrightarrow> faults tr' = faults tr"
  by (auto simp: clean_def)

lemma wrote_refl [simp, intro]: "wrote h ep tr tr []"
  by (simp add: wrote_def)

lemma wrote_trans: "wrote h ep a b x \<Longrightarrow> wrote h ep b c y \<Longrightarrow> wrote h ep a c (x @ y)"
  by (auto simp: wrote_def intro: clean_trans)

lemma wrote_clean: "wrote h ep tr tr' bs \<Longrightarrow> clean tr tr'"
  by (simp add: wrote_def)

lemma wrote_append: "wrote h ep tr (tr @ [Did c a]) (sent_by h ep (Did c a))"
  by (simp add: wrote_def)

lemma do_call_eq: "do_call E c tr = (E tr c, tr @ [Did c (E tr c)])"
  by (simp add: do_call_def Let_def)

lemma ret_call_eq: "ret_call E c tr = (a_ret (E tr c), tr @ [Did c (E tr c)])"
  by (simp add: ret_call_def do_call_eq)

lemma just_call_eq: "just_call E c tr = tr @ [Did c (E tr c)]"
  by (simp add: just_call_def do_call_eq)

lemmas call_eqs = do_call_eq ret_call_eq just_call_eq

lemma clean_just_call [simp]: "clean tr (just_call E c tr)"
  by (simp add: just_call_eq)

lemma clean_ret_call: "ret_call E c tr = (r, tr') \<Longrightarrow> clean tr tr'"
  by (auto simp: ret_call_eq)

lemma wrote_bulk_out:
  "bulk_out E h ep data timeout tr = (rc, n, tr') \<Longrightarrow>
   n \<le> length data \<and> wrote h ep tr tr' (take n data)"
  using wrote_append [of h ep tr "Usb (BulkOut h ep data timeout)"
      "E tr (Usb (BulkOut h ep data timeout))"]
  by (auto simp: bulk_out_def do_call_eq min_def split: if_splits)

lemma wrote_bulk_in:
  "bulk_in E h' ep' len timeout tr = (rc, data, tr') \<Longrightarrow>
   length data \<le> len \<and> wrote h ep tr tr' []"
  using wrote_append [of h ep tr "Usb (BulkIn h' ep' len timeout)"
      "E tr (Usb (BulkIn h' ep' len timeout))"]
  by (auto simp: bulk_in_def do_call_eq)

lemma write_fd_written:
  "write_fd E fd data tr = (r, e, tr') \<Longrightarrow>
   r \<le> int (length data) \<and> clean tr tr' \<and> written fd tr' = written fd tr @ take (nat r) data"
  by (auto simp: write_fd_def do_call_eq min_def)

lemma read_fd_read:
  "read_fd E fd n tr = (r, data, e, tr') \<Longrightarrow>
   length data \<le> n \<and> clean tr tr' \<and> read_in fd tr' = read_in fd tr @ data \<and>
   (r < 0 \<longrightarrow> data = []) \<and> (0 \<le> r \<longrightarrow> r = int (length data))"
  by (auto simp: read_fd_def do_call_eq split: if_splits)

text \<open>A neutral answer, the one concrete environments start from.\<close>

definition answer0 :: answer where
  "answer0 = \<lparr>a_ret = 0, a_errno = 0, a_num = 0, a_data = [], a_list = [],
     a_desc = \<lparr>idVendor = 0, idProduct = 0, bNumConfigurations = 0\<rparr>, a_intfs = [],
     a_stat = \<lparr>st_isdir = False, st_size = 0, st_atime = 0, st_mtime = 0\<rparr>, a_strs = []\<rparr>"

end
