(* ===== verification/Ustor_Proto.thy ===== *)
theory Ustor_Proto
  imports Ustor_Env
begin

text \<open>
  protocol.h: the commands, magics and packed structs of the uStorage protocol that uHost
  and the phone exchange. A struct is a record of its fields (signed C fields are kept as
  words and read with \<open>sint\<close>), an encoder to the bytes of the packed layout and a decoder
  from the memory it lies in; each pair is an instance of \<open>packed_struct\<close>.
\<close>

section \<open>Constants\<close>

abbreviation PRO_HDR_SZIE :: nat where "PRO_HDR_SZIE \<equiv> 24"
abbreviation PRO_BASIC_MAGIC :: u32 where "PRO_BASIC_MAGIC \<equiv> 0xffeeffee"
abbreviation PRO_FSONDEV_MAGIC :: u32 where "PRO_FSONDEV_MAGIC \<equiv> 0xffeeff02"
abbreviation PRO_REVER_MAGIC :: u32 where "PRO_REVER_MAGIC \<equiv> 0x02ffeeff"
abbreviation SCSI_PHONE_MAGIC :: u32 where "SCSI_PHONE_MAGIC \<equiv> 0xccddeeff"
abbreviation MAX_PATH_SIZE :: nat where "MAX_PATH_SIZE \<equiv> 4096"
abbreviation MAX_FILENAME_SIZE :: nat where "MAX_FILENAME_SIZE \<equiv> 256"
abbreviation PRO_FSONDEV_VER1 :: u16 where "PRO_FSONDEV_VER1 \<equiv> 1"
abbreviation USTOR_EOK :: u16 where "USTOR_EOK \<equiv> 0"
abbreviation USTOR_EERR :: u16 where "USTOR_EERR \<equiv> 1"

abbreviation USTOR_FSONDEV_READ :: u32 where "USTOR_FSONDEV_READ \<equiv> 1"
abbreviation USTOR_FSONDEV_WRITE :: u32 where "USTOR_FSONDEV_WRITE \<equiv> 2"
abbreviation USTOR_FSONDEV_CREATE :: u32 where "USTOR_FSONDEV_CREATE \<equiv> 3"
abbreviation USTOR_FSONDEV_DELETE :: u32 where "USTOR_FSONDEV_DELETE \<equiv> 4"
abbreviation USTOR_FSONDEV_MOVE :: u32 where "USTOR_FSONDEV_MOVE \<equiv> 5"
abbreviation USTOR_FSONDEV_LIST :: u32 where "USTOR_FSONDEV_LIST \<equiv> 6"
abbreviation USTOR_FSONDEV_DISKINFO :: u32 where "USTOR_FSONDEV_DISKINFO \<equiv> 7"
abbreviation USTOR_FSONDEV_DISKLUN :: u32 where "USTOR_FSONDEV_DISKLUN \<equiv> 8"
abbreviation USTOR_FSONDEV_FIRMWARE_INFO :: u32 where "USTOR_FSONDEV_FIRMWARE_INFO \<equiv> 9"
abbreviation USTOR_FSONDEV_SAFEREMOVE :: u32 where "USTOR_FSONDEV_SAFEREMOVE \<equiv> 10"
abbreviation USTOR_FSONDEV_UPDATE_START :: u32 where "USTOR_FSONDEV_UPDATE_START \<equiv> 11"
abbreviation USTOR_FSONDEV_UPDATE_DATA :: u32 where "USTOR_FSONDEV_UPDATE_DATA \<equiv> 12"
abbreviation USTOR_FSONDEV_UPDATE_END :: u32 where "USTOR_FSONDEV_UPDATE_END \<equiv> 13"
abbreviation USTOR_FSONDEV_FILE_INFO :: u32 where "USTOR_FSONDEV_FILE_INFO \<equiv> 14"
abbreviation USTOR_FSONDEV_SYNC_TIME :: u32 where "USTOR_FSONDEV_SYNC_TIME \<equiv> 15"
abbreviation USTOR_FSONDEV_SYNC_WRITE :: u32 where "USTOR_FSONDEV_SYNC_WRITE \<equiv> 16"

section \<open>Headers\<close>

record headInfo =
  hi_head :: u32
  hi_wtag :: u32
  hi_promagic :: u32
  hi_version :: u16
  hi_relag :: u16
  hi_reserved :: bytes

definition enc_headInfo :: "headInfo \<Rightarrow> bytes" where
  "enc_headInfo h = put32 (hi_head h) @ put32 (hi_wtag h) @ put32 (hi_promagic h) @
     put16 (hi_version h) @ put16 (hi_relag h) @ hi_reserved h"

definition dec_headInfo :: "bytes \<Rightarrow> headInfo" where
  "dec_headInfo m = \<lparr>hi_head = get32 m 0, hi_wtag = get32 m 4, hi_promagic = get32 m 8,
     hi_version = get16 m 12, hi_relag = get16 m 14, hi_reserved = peek m 16 8\<rparr>"

record fsOnDev =
  fs_head :: u32
  fs_version :: u16
  fs_relag :: u16
  fs_wtag :: u32
  fs_ctrid :: u32
  fs_len :: u32
  fs_reserved :: u32

definition enc_fsOnDev :: "fsOnDev \<Rightarrow> bytes" where
  "enc_fsOnDev h = put32 (fs_head h) @ put16 (fs_version h) @ put16 (fs_relag h) @
     put32 (fs_wtag h) @ put32 (fs_ctrid h) @ put32 (fs_len h) @ put32 (fs_reserved h)"

definition dec_fsOnDev :: "bytes \<Rightarrow> fsOnDev" where
  "dec_fsOnDev m = \<lparr>fs_head = get32 m 0, fs_version = get16 m 4, fs_relag = get16 m 6,
     fs_wtag = get32 m 8, fs_ctrid = get32 m 12, fs_len = get32 m 16, fs_reserved = get32 m 20\<rparr>"

record scsi_head =
  sc_head :: u32
  sc_wtag :: u32
  sc_ctrid :: u32
  sc_addr :: u32
  sc_len :: u32
  sc_wlun :: u16
  sc_relag :: u16

definition enc_scsi_head :: "scsi_head \<Rightarrow> bytes" where
  "enc_scsi_head h = put32 (sc_head h) @ put32 (sc_wtag h) @ put32 (sc_ctrid h) @
     put32 (sc_addr h) @ put32 (sc_len h) @ put16 (sc_wlun h) @ put16 (sc_relag h)"

definition dec_scsi_head :: "bytes \<Rightarrow> scsi_head" where
  "dec_scsi_head m = \<lparr>sc_head = get32 m 0, sc_wtag = get32 m 4, sc_ctrid = get32 m 8,
     sc_addr = get32 m 12, sc_len = get32 m 16, sc_wlun = get16 m 20, sc_relag = get16 m 22\<rparr>"

section \<open>Operation headers\<close>

text \<open>\<open>operation_rw\<close> without its flexible \<open>abspath\<close>, which starts at offset 14.\<close>

record operation_rw =
  rw_offset :: u64
  rw_size :: u32
  rw_pathlen :: u16

definition enc_operation_rw :: "operation_rw \<Rightarrow> bytes" where
  "enc_operation_rw r = put64 (rw_offset r) @ put32 (rw_size r) @ put16 (rw_pathlen r)"

definition dec_operation_rw :: "bytes \<Rightarrow> operation_rw" where
  "dec_operation_rw m = \<lparr>rw_offset = get64 m 0, rw_size = get32 m 8, rw_pathlen = get16 m 12\<rparr>"

record operation_newdel =
  nd_isdir :: u8
  nd_actime :: u32
  nd_modtime :: u32
  nd_abspath :: bytes

definition enc_operation_newdel :: "operation_newdel \<Rightarrow> bytes" where
  "enc_operation_newdel r = [nd_isdir r] @ put32 (nd_actime r) @ put32 (nd_modtime r) @ nd_abspath r"

definition dec_operation_newdel :: "bytes \<Rightarrow> operation_newdel" where
  "dec_operation_newdel m = \<lparr>nd_isdir = get8 m 0, nd_actime = get32 m 1, nd_modtime = get32 m 5,
     nd_abspath = peek m 9 MAX_PATH_SIZE\<rparr>"

record operation_move =
  mv_from :: bytes
  mv_to :: bytes

definition enc_operation_move :: "operation_move \<Rightarrow> bytes" where
  "enc_operation_move r = mv_from r @ mv_to r"

definition dec_operation_move :: "bytes \<Rightarrow> operation_move" where
  "dec_operation_move m = \<lparr>mv_from = peek m 0 MAX_PATH_SIZE, mv_to = peek m MAX_PATH_SIZE MAX_PATH_SIZE\<rparr>"

record fileinfo =
  fi_name :: bytes
  fi_isdir :: u8
  fi_actime :: u32
  fi_modtime :: u32
  fi_size :: u64

definition enc_fileinfo :: "fileinfo \<Rightarrow> bytes" where
  "enc_fileinfo r = fi_name r @ [fi_isdir r] @ put32 (fi_actime r) @ put32 (fi_modtime r) @
     put64 (fi_size r)"

definition dec_fileinfo :: "bytes \<Rightarrow> fileinfo" where
  "dec_fileinfo m = \<lparr>fi_name = peek m 0 MAX_FILENAME_SIZE, fi_isdir = get8 m 256,
     fi_actime = get32 m 257, fi_modtime = get32 m 261, fi_size = get64 m 265\<rparr>"

text \<open>\<open>operation_listResponse\<close> without its array, which starts at offset 5.\<close>

record listResponse =
  lr_fileNum :: u32
  lr_finish :: u8

definition enc_listResponse :: "listResponse \<Rightarrow> bytes" where
  "enc_listResponse r = put32 (lr_fileNum r) @ [lr_finish r]"

definition dec_listResponse :: "bytes \<Rightarrow> listResponse" where
  "dec_listResponse m = \<lparr>lr_fileNum = get32 m 0, lr_finish = get8 m 4\<rparr>"

record diskPlugNode =
  pn_dev :: bytes
  pn_seqnum :: u16

definition enc_diskPlugNode :: "diskPlugNode \<Rightarrow> bytes" where
  "enc_diskPlugNode r = pn_dev r @ put16 (pn_seqnum r)"

definition dec_diskPlugNode :: "bytes \<Rightarrow> diskPlugNode" where
  "dec_diskPlugNode m = \<lparr>pn_dev = peek m 0 16, pn_seqnum = get16 m 16\<rparr>"

record acessory_parameter =
  ap_manufacture :: bytes
  ap_model_name :: bytes
  ap_sn :: bytes
  ap_fw_version :: bytes
  ap_hw_version :: bytes
  ap_cardid :: bytes
  ap_license :: bytes

definition enc_acessory_parameter :: "acessory_parameter \<Rightarrow> bytes" where
  "enc_acessory_parameter r = ap_manufacture r @ ap_model_name r @ ap_sn r @ ap_fw_version r @
     ap_hw_version r @ ap_cardid r @ ap_license r"

definition dec_acessory_parameter :: "bytes \<Rightarrow> acessory_parameter" where
  "dec_acessory_parameter m = \<lparr>ap_manufacture = peek m 0 32, ap_model_name = peek m 32 32,
     ap_sn = peek m 64 32, ap_fw_version = peek m 96 16, ap_hw_version = peek m 112 16,
     ap_cardid = peek m 128 8, ap_license = peek m 136 120\<rparr>"

section \<open>Every struct is a packed struct\<close>

lemma peek_take [codec_simps]: "off + n \<le> k \<Longrightarrow> peek (take k m) off n = peek m off n"
  by (simp add: peek_def drop_take min_def)

lemma peek_put [codec_simps]:
  "2 \<le> off \<Longrightarrow> peek (put16 a @ r) off n = peek r (off - 2) n"
  "4 \<le> off \<Longrightarrow> peek (put32 b @ r) off n = peek r (off - 4) n"
  "8 \<le> off \<Longrightarrow> peek (put64 c @ r) off n = peek r (off - 8) n"
  by (simp_all add: peek_append_right)

lemma peek_Cons [codec_simps]: "0 < off \<Longrightarrow> peek (b # r) off n = peek r (off - 1) n"
  by (cases off) (simp_all add: peek_def)

lemma peek_0 [codec_simps]: "length x = n \<Longrightarrow> peek (x @ r) 0 n = x"
  by (simp add: peek_def)

lemmas peek_simps = peek_append_right codec_simps

definition wf_headInfo :: "headInfo \<Rightarrow> bool" where
  "wf_headInfo h = (length (hi_reserved h) = 8)"
definition wf_operation_newdel :: "operation_newdel \<Rightarrow> bool" where
  "wf_operation_newdel r = (length (nd_abspath r) = MAX_PATH_SIZE)"
definition wf_operation_move :: "operation_move \<Rightarrow> bool" where
  "wf_operation_move r = (length (mv_from r) = MAX_PATH_SIZE \<and> length (mv_to r) = MAX_PATH_SIZE)"
definition wf_fileinfo :: "fileinfo \<Rightarrow> bool" where
  "wf_fileinfo r = (length (fi_name r) = MAX_FILENAME_SIZE)"
definition wf_diskPlugNode :: "diskPlugNode \<Rightarrow> bool" where
  "wf_diskPlugNode r = (length (pn_dev r) = 16)"
definition wf_acessory_parameter :: "acessory_parameter \<Rightarrow> bool" where
  "wf_acessory_parameter r = (length (ap_manufacture r) = 32 \<and> length (ap_model_name r) = 32 \<and>
     length (ap_sn r) = 32 \<and> length (ap_fw_version r) = 16 \<and> length (ap_hw_version r) = 16 \<and>
     length (ap_cardid r) = 8 \<and> length (ap_license r) = 120)"

interpretation head_info: packed_struct enc_headInfo dec_headInfo 24 wf_headInfo
  by unfold_locales
    (simp_all add: enc_headInfo_def dec_headInfo_def wf_headInfo_def peek_simps)

interpretation fs_on_dev: packed_struct enc_fsOnDev dec_fsOnDev 24 "\<lambda>_. True"
  by unfold_locales (simp_all add: enc_fsOnDev_def dec_fsOnDev_def codec_simps)

interpretation scsi_hd: packed_struct enc_scsi_head dec_scsi_head 24 "\<lambda>_. True"
  by unfold_locales (simp_all add: enc_scsi_head_def dec_scsi_head_def codec_simps)

interpretation op_rw: packed_struct enc_operation_rw dec_operation_rw 14 "\<lambda>_. True"
  by unfold_locales (simp_all add: enc_operation_rw_def dec_operation_rw_def codec_simps)

interpretation op_newdel:
  packed_struct enc_operation_newdel dec_operation_newdel 4105 wf_operation_newdel
  by unfold_locales
    (simp_all add: enc_operation_newdel_def dec_operation_newdel_def wf_operation_newdel_def peek_simps)

interpretation op_move: packed_struct enc_operation_move dec_operation_move 8192 wf_operation_move
  by unfold_locales
    (simp_all add: enc_operation_move_def dec_operation_move_def wf_operation_move_def peek_simps)

interpretation file_info: packed_struct enc_fileinfo dec_fileinfo 273 wf_fileinfo
  by unfold_locales
    (simp_all add: enc_fileinfo_def dec_fileinfo_def wf_fileinfo_def peek_simps)

interpretation list_resp: packed_struct enc_listResponse dec_listResponse 5 "\<lambda>_. True"
  by unfold_locales (simp_all add: enc_listResponse_def dec_listResponse_def codec_simps)

interpretation plug_node: packed_struct enc_diskPlugNode dec_diskPlugNode 18 wf_diskPlugNode
  by unfold_locales
    (simp_all add: enc_diskPlugNode_def dec_diskPlugNode_def wf_diskPlugNode_def peek_simps)

interpretation acc_param:
  packed_struct enc_acessory_parameter dec_acessory_parameter 256 wf_acessory_parameter
  by unfold_locales
    (simp_all add: enc_acessory_parameter_def dec_acessory_parameter_def
      wf_acessory_parameter_def peek_simps)

end
