(* ===== verification/Ustor_Diskipc.thy ===== *)
theory Ustor_Diskipc
  imports Ustor_Proto "HOL-Library.Multiset"
begin

text \<open>
  diskipc.c: the client of the disk manager daemon. A request goes out on a new socket, the
  reply is a 12-byte header and a payload whose length the header gives; the disk list of the
  reply is translated to the protocol's list of plugged disks.
\<close>

section \<open>Messages\<close>

record ipc_header =
  ih_msg :: u32
  ih_len :: u32
  ih_direction :: u32

definition enc_ipc_header :: "ipc_header \<Rightarrow> bytes" where
  "enc_ipc_header h = put32 (ih_msg h) @ put32 (ih_len h) @ put32 (ih_direction h)"

definition dec_ipc_header :: "bytes \<Rightarrow> ipc_header" where
  "dec_ipc_header m = \<lparr>ih_msg = get32 m 0, ih_len = get32 m 4, ih_direction = get32 m 8\<rparr>"

interpretation ipc_hd: packed_struct enc_ipc_header dec_ipc_header 12 "\<lambda>_. True"
  by unfold_locales (simp_all add: enc_ipc_header_def dec_ipc_header_def codec_simps)

abbreviation DISK_SUCCESS :: int where "DISK_SUCCESS \<equiv> 0"
abbreviation DISK_FAILURE :: int where "DISK_FAILURE \<equiv> 1"

definition DDEFINE_MSG :: "u32 \<Rightarrow> u32 \<Rightarrow> u32" where
  "DDEFINE_MSG module code = push_bit 16 (module AND 0x7FFF) OR (code AND 0xFFFF)"

abbreviation MSG_DISK_DISKLIST :: u32 where "MSG_DISK_DISKLIST \<equiv> DDEFINE_MSG 1 5"
abbreviation MSG_DISK_ALLINFO :: u32 where "MSG_DISK_ALLINFO \<equiv> DDEFINE_MSG 1 7"
abbreviation DISK_MOUNTED :: u32 where "DISK_MOUNTED \<equiv> 1"

text \<open>\<open>disk_disklist_t\<close>, one disk in the reply: 848 bytes, packed.\<close>

record disk_disklist =
  dl_devname :: bytes
  dl_vendor :: bytes
  dl_serical :: bytes
  dl_type :: bytes
  dl_disktag :: bytes
  dl_total :: u64
  dl_status :: u32
  dl_partnum :: u32

definition enc_disklist :: "disk_disklist \<Rightarrow> bytes" where
  "enc_disklist d = dl_devname d @ dl_vendor d @ dl_serical d @ dl_type d @ dl_disktag d @
     put64 (dl_total d) @ put32 (dl_status d) @ put32 (dl_partnum d)"

definition dec_disklist :: "bytes \<Rightarrow> disk_disklist" where
  "dec_disklist m = \<lparr>dl_devname = peek m 0 64, dl_vendor = peek m 64 64, dl_serical = peek m 128 512,
     dl_type = peek m 640 64, dl_disktag = peek m 704 64, dl_total = get64 m 768,
     dl_status = get32 m 776, dl_partnum = get32 m 780\<rparr>"

definition wf_disklist :: "disk_disklist \<Rightarrow> bool" where
  "wf_disklist d = (length (dl_devname d) = 64 \<and> length (dl_vendor d) = 64 \<and> length (dl_serical d) = 512 \<and>
     length (dl_type d) = 64 \<and> length (dl_disktag d) = 64)"

abbreviation disklist_size :: nat where "disklist_size \<equiv> 784"

interpretation disklist_st: packed_struct enc_disklist dec_disklist disklist_size wf_disklist
  by unfold_locales
    (simp_all add: enc_disklist_def dec_disklist_def wf_disklist_def peek_simps)

section \<open>The socket\<close>

definition IPC_PATH_MDISK :: bytes where "IPC_PATH_MDISK = str ''/tmp/ipc_path_disk''"
abbreviation PRO_TIMEOUT :: int where "PRO_TIMEOUT \<equiv> 10"

definition ipc_setsock :: "os \<Rightarrow> int \<Rightarrow> int \<Rightarrow> trace \<Rightarrow> int \<times> trace" where
  "ipc_setsock E sock time tr =
     (let (r, tr) = ret_call E (Sys (SockTimeout sock time)) tr in (if r < 0 then -1 else 0, tr))"

definition ipc_client_init :: "os \<Rightarrow> bytes \<Rightarrow> trace \<Rightarrow> int \<times> trace" where
  "ipc_client_init E path tr =
     (if cstr path = [] then (-1, tr)
      else
        let (sock, tr) = ret_call E (Sys (Socket 1)) tr in
        if sock < 0 then (-1, tr)
        else
          let (_, tr) = ipc_setsock E sock PRO_TIMEOUT tr;
              (r, tr) = ret_call E (Sys (Connect sock (take 107 (cstr path)))) tr
          in if r < 0 then (-1, just_call E (File (CloseFd sock)) tr) else (sock, tr))"

text \<open>
  \<open>ipc_write\<close> and \<open>ipc_read\<close> go on after a short transfer and give up on an error or an end of
  file; each round transfers at least a byte, so both end.
\<close>

function ipc_write_loop :: "os \<Rightarrow> int \<Rightarrow> bytes \<Rightarrow> trace \<Rightarrow> int \<times> trace" where
  "ipc_write_loop E fd data tr =
     (let (ylen, _, tr) = write_fd E fd data tr in
      if ylen = int (length data) then (0, tr)
      else if 0 < ylen then ipc_write_loop E fd (drop (nat ylen) data) tr
      else (-1, tr))"
  by pat_completeness auto
termination
  by (relation "measure (\<lambda>(E, fd, data, tr). length data)")
    (auto dest!: sym [of "(_, _, _)"] write_fd_written)

definition ipc_write :: "os \<Rightarrow> int \<Rightarrow> bytes \<Rightarrow> trace \<Rightarrow> int \<times> trace" where
  "ipc_write E fd data tr = (if data = [] then (-1, tr) else ipc_write_loop E fd data tr)"

function ipc_read_loop :: "os \<Rightarrow> int \<Rightarrow> nat \<Rightarrow> trace \<Rightarrow> int \<times> bytes \<times> trace" where
  "ipc_read_loop E fd rlen tr =
     (let (ylen, data, _, tr) = read_fd E fd rlen tr in
      if ylen = int rlen then (0, data, tr)
      else if 0 < ylen then
        let (r, rest, tr) = ipc_read_loop E fd (rlen - nat ylen) tr in (r, data @ rest, tr)
      else (-1, data, tr))"
  by pat_completeness auto
termination
  by (relation "measure (\<lambda>(E, fd, rlen, tr). rlen)")
    (auto dest!: sym [of "(_, _, _, _)"] read_fd_read)

definition ipc_read :: "os \<Rightarrow> int \<Rightarrow> int \<Rightarrow> trace \<Rightarrow> int \<times> bytes \<times> trace" where
  "ipc_read E fd len tr = (if len \<le> 0 then (-1, [], tr) else ipc_read_loop E fd (nat len) tr)"

section \<open>A request and its reply\<close>

text \<open>
  The reply is the allocated object: its address and its bytes, header first. The length in
  the header is a signed number; the size asked of \<open>realloc\<close> is computed modulo \<open>2 ^ 32\<close>.
\<close>

definition stor_ipc_double_duplex ::
    "os \<Rightarrow> bytes \<Rightarrow> trace \<Rightarrow> int \<times> (ptr \<times> bytes) option \<times> trace" where
  "stor_ipc_double_duplex E request tr =
     (let (fd, tr) = ipc_client_init E IPC_PATH_MDISK tr in
      if fd < 0 then (-2, None, tr)
      else
        let (ret, tr) = ipc_write E fd request tr in
        if ret < 0 then (-3, None, just_call E (File (CloseFd fd)) tr)
        else
          let (a, tr) = do_call E (Sys (Calloc 12)) tr; p = a_num a in
          if p = 0 then (-1, None, just_call E (File (CloseFd fd)) tr)
          else
            let (ret, hdr, tr) = ipc_read E fd 12 tr in
            if ret < 0 then (-1, None, just_call E (File (CloseFd fd)) (just_call E (Sys (Free p)) tr))
            else
              let len = sint (ih_len (dec_ipc_header hdr)) in
              if len \<noteq> 0 then
                let (a, tr) = do_call E (Sys (Realloc p (unat (12 + ih_len (dec_ipc_header hdr))))) tr;
                    p = a_num a in
                if p = 0 then (-1, None, just_call E (File (CloseFd fd)) tr)
                else
                  let (ret, payload, tr) = ipc_read E fd len tr in
                  if ret < 0
                  then (-1, None, just_call E (File (CloseFd fd)) (just_call E (Sys (Free p)) tr))
                  else (0, Some (p, hdr @ payload), just_call E (File (CloseFd fd)) tr)
              else (0, Some (p, hdr), just_call E (File (CloseFd fd)) tr))"

text \<open>The request of both operations: allocated, filled in, sent, freed.\<close>

definition disk_request :: "os \<Rightarrow> u32 \<Rightarrow> trace \<Rightarrow> (ptr \<times> bytes) option \<times> trace" where
  "disk_request E msg tr =
     (let (a, tr) = do_call E (Sys (Calloc 12)) tr; p = a_num a in
      if p = 0 then (None, tr)
      else
        let (ret, response, tr) = stor_ipc_double_duplex E
              (enc_ipc_header \<lparr>ih_msg = msg, ih_len = 0, ih_direction = 0\<rparr>) tr;
            tr = just_call E (Sys (Free p)) tr
        in (if ret < 0 then None else response, tr))"

definition free_reply :: "os \<Rightarrow> ptr \<times> bytes \<Rightarrow> trace \<Rightarrow> trace" where
  "free_reply E reply tr =
     (if ih_len (dec_ipc_header (snd reply)) \<noteq> 0 then just_call E (Sys (Free (fst reply))) tr else tr)"

definition disk_init :: int where "disk_init = DISK_SUCCESS"

definition disk_aciton_func :: "int \<times> bytes \<Rightarrow> int" where "disk_aciton_func a = DISK_SUCCESS"

text \<open>
  The loop of \<open>disk_getdisk_lun\<close>: \<open>cur\<close> is the offset in the disk list, \<open>n\<close> the number of nodes
  written, \<open>room\<close> the room left. A disk that is not mounted is skipped by \<open>continue\<close>, before
  the loop advances, so the same disk is looked at again.
\<close>

partial_function (option) disk_lun_loop ::
    "os \<Rightarrow> ptr \<times> bytes \<Rightarrow> bytes \<Rightarrow> nat \<Rightarrow> int \<Rightarrow> nat \<Rightarrow> nat \<Rightarrow> int \<Rightarrow> trace \<Rightarrow>
     (bytes \<times> int \<times> trace) option" where
  "disk_lun_loop E reply mem off bsize n cur room tr =
     (let len = sint (ih_len (dec_ipc_header (snd reply))) in
      if int cur < len then
        let tr = fault_if (length (snd reply) < 12 + cur + disklist_size) OutOfBounds tr;
            disk = dec_disklist (drop (12 + cur) (snd reply)) in
        if dl_status disk \<noteq> DISK_MOUNTED then disk_lun_loop E reply mem off bsize n cur room tr
        else if room < 18 then Some (mem, bsize - room, tr)
        else
          let mem = poke mem off (put16 (get16 mem off + 1));
              (mem, tr) = memcpy mem (off + 2 + 18 * n)
                (enc_diskPlugNode \<lparr>pn_dev = strncpy (dl_devname disk) 16, pn_seqnum = 0\<rparr>) tr
          in disk_lun_loop E reply mem off bsize (n + 1) (cur + disklist_size) (room - 18) tr
      else Some (mem, bsize - room, free_reply E reply tr))"

declare disk_lun_loop.simps [code]

text \<open>\<open>buff\<close> is the place \<open>off\<close> in \<open>mem\<close>, \<open>bsize\<close> its size; the result has \<open>*used\<close> when it was written.\<close>

definition disk_getdisk_lun ::
    "os \<Rightarrow> bytes \<Rightarrow> nat \<Rightarrow> int \<Rightarrow> trace \<Rightarrow> (int \<times> bytes \<times> int option \<times> trace) option" where
  "disk_getdisk_lun E mem off bsize tr =
     (let (response, tr) = disk_request E MSG_DISK_DISKLIST tr in
      case response of
        None \<Rightarrow> Some (DISK_FAILURE, mem, None, tr)
      | Some reply \<Rightarrow>
        if ih_direction (dec_ipc_header (snd reply)) = 1
        then Some (DISK_FAILURE, mem, None, free_reply E reply tr)
        else do {
          (mem, used, tr) \<leftarrow> disk_lun_loop E reply mem off bsize 0 0 (bsize - 2) tr;
          Some (DISK_SUCCESS, mem, Some used, tr)
        })"

definition disk_getdisk_info ::
    "os \<Rightarrow> bytes \<Rightarrow> nat \<Rightarrow> int \<Rightarrow> trace \<Rightarrow> int \<times> bytes \<times> int option \<times> trace" where
  "disk_getdisk_info E mem off bsize tr =
     (let (response, tr) = disk_request E MSG_DISK_ALLINFO tr in
      case response of
        None \<Rightarrow> (DISK_FAILURE, mem, None, tr)
      | Some reply \<Rightarrow>
        if ih_direction (dec_ipc_header (snd reply)) = 1
        then (DISK_FAILURE, mem, None, free_reply E reply tr)
        else if bsize < int (length (snd reply))
        then (DISK_FAILURE, mem, None, free_reply E reply tr)
        else
          let (mem, tr) = memcpy mem off (drop 12 (snd reply)) tr
          in (DISK_SUCCESS, mem, Some (int (length (snd reply))), free_reply E reply tr))"

section \<open>The transfer loops\<close>

declare ipc_write_loop.simps [simp del] ipc_read_loop.simps [simp del]

lemma ipc_write_loop_writes:
  "ipc_write_loop E fd data tr = (r, tr') \<Longrightarrow>
   clean tr tr' \<and> (\<exists>n \<le> length data. written fd tr' = written fd tr @ take n data \<and> (r = 0 \<longrightarrow> n = length data))
   \<and> r \<in> {0, -1}"
proof (induction E fd data tr rule: ipc_write_loop.induct)
  case (1 E fd data tr)
  obtain y e tr1 where w: "write_fd E fd data tr = (y, e, tr1)" by (metis prod_cases3)
  note wf = write_fd_written [OF w]
  show ?case
  proof (cases "0 < y \<and> y \<noteq> int (length data)")
    case False
    have "written fd tr1 = written fd tr @ take (nat y) data" using wf by simp
    then show ?thesis
      using "1.prems" wf False
      by (subst (asm) ipc_write_loop.simps) (auto simp: w Let_def split: if_splits intro: exI [of _ "0::nat"])
  next
    case True
    then have l: "ipc_write_loop E fd (drop (nat y) data) tr1 = (r, tr')"
      using "1.prems" by (subst (asm) ipc_write_loop.simps) (simp add: w Let_def)
    from "1.IH" [OF w [symmetric] refl refl _ _ l] True obtain n where
      n: "n \<le> length data - nat y" "written fd tr' = written fd tr1 @ take n (drop (nat y) data)"
      "r = 0 \<longrightarrow> n = length data - nat y" "clean tr1 tr'" "r \<in> {0, -1}"
      by auto
    have "written fd tr' = written fd tr @ take (nat y + n) data"
      using n(2) wf by (simp add: take_add)
    moreover have "nat y \<le> length data" using wf by linarith
    ultimately show ?thesis using n wf by (auto intro!: exI [of _ "nat y + n"] intro: clean_trans)
  qed
qed

lemma ipc_read_loop_reads:
  "ipc_read_loop E fd rlen tr = (r, data, tr') \<Longrightarrow>
   clean tr tr' \<and> read_in fd tr' = read_in fd tr @ data \<and> length data \<le> rlen \<and>
   (r = 0 \<longrightarrow> length data = rlen) \<and> r \<in> {0, -1}"
proof (induction E fd rlen tr arbitrary: r data tr' rule: ipc_read_loop.induct)
  case (1 E fd rlen tr)
  obtain y d e tr1 where w: "read_fd E fd rlen tr = (y, d, e, tr1)" by (metis prod_cases4)
  note wf = read_fd_read [OF w]
  show ?case
  proof (cases "0 < y \<and> y \<noteq> int rlen")
    case False
    then show ?thesis
      using "1.prems" wf
      by (subst (asm) ipc_read_loop.simps) (auto simp: w Let_def split: if_splits)
  next
    case True
    obtain r1 rest where l: "ipc_read_loop E fd (rlen - nat y) tr1 = (r, rest, tr')" "data = d @ rest"
      using "1.prems" True by (subst (asm) ipc_read_loop.simps) (auto simp: w Let_def split: prod.splits)
    from "1.IH" [OF w [symmetric] refl refl refl _ _ l(1)] True wf show ?thesis
      by (auto simp: l(2) intro: clean_trans)
  qed
qed

section \<open>The list of plugged disks\<close>

definition plug_node :: "disk_disklist \<Rightarrow> diskPlugNode" where
  "plug_node d = \<lparr>pn_dev = strncpy (dl_devname d) 16, pn_seqnum = 0\<rparr>"

lemma wf_plug_node: "wf_diskPlugNode (plug_node d)"
  by (simp add: wf_diskPlugNode_def plug_node_def)

lemma get16_peek: "get16 m off = get16 (peek m off 2) 0"
  by (simp add: get16_def peek_def)

text \<open>A disk that is not mounted keeps the loop from ever returning.\<close>

lemma lun_loop_stuck:
  "disk_lun_loop E reply mem off bsize n cur room tr = Some y \<Longrightarrow>
   \<not> (int cur < sint (ih_len (dec_ipc_header (snd reply))) \<and>
      dl_status (dec_disklist (drop (12 + cur) (snd reply))) \<noteq> DISK_MOUNTED)"
  by (induct rule: disk_lun_loop.raw_induct [rotated, consumes 1, case_names step])
    (auto simp: Let_def split: if_splits)

text \<open>A node put behind \<open>n\<close> others, and the count in front of them raised.\<close>

definition add_node :: "bytes \<Rightarrow> nat \<Rightarrow> nat \<Rightarrow> bytes \<Rightarrow> bytes" where
  "add_node mem off n node = poke (poke mem off (put16 (get16 mem off + 1))) (off + 2 + 18 * n) node"

lemma add_node_keeps:
  assumes "off + 2 + 18 * n + 18 \<le> length mem" "length node = 18"
  shows "length (add_node mem off n node) = length mem" "get16 (add_node mem off n node) off = get16 mem off + 1"
    and "peek (add_node mem off n node) (off + 2) (18 * n + 18) = peek mem (off + 2) (18 * n) @ node"
proof -
  define m1 where "m1 = poke mem off (put16 (get16 mem off + 1))"
  note m2 = add_node_def [of mem off n node, folded m1_def]
  have l1: "length m1 = length mem" using assms(1) by (simp add: m1_def length_poke)
  have lp: "length (put16 (get16 mem off + 1)) = 2" by simp
  show "length (add_node mem off n node) = length mem" using assms l1 by (simp add: m2 length_poke)
  have "peek (add_node mem off n node) off 2 = put16 (get16 mem off + 1)"
    using assms(1) l1 lp unfolding m2 by (simp add: peek_poke_before) (simp add: m1_def peek_poke_same)
  then show "get16 (add_node mem off n node) off = get16 mem off + 1" by (simp add: get16_peek [of "add_node mem off n node"])
  have "peek (add_node mem off n node) (off + 2) (18 * n) = peek mem (off + 2) (18 * n)"
    using assms(1) l1 lp unfolding m2 by (simp add: peek_poke_before) (simp add: m1_def peek_poke_after)
  moreover have "peek (add_node mem off n node) (off + 2 + 18 * n) 18 = node"
    using assms l1 unfolding m2 by (intro peek_poke_same) simp_all
  ultimately show "peek (add_node mem off n node) (off + 2) (18 * n + 18) = peek mem (off + 2) (18 * n) @ node"
    by (simp add: peek_split)
qed

text \<open>Nodes behind the count are read back.\<close>

lemma nodes_decoded:
  assumes "peek mem (off + 2) (18 * length ns) = concat (map enc_diskPlugNode ns)" "\<forall>n\<in>set ns. wf_diskPlugNode n"
  shows "dec_array dec_diskPlugNode 18 (length ns) (drop (off + 2) mem) = ns"
proof -
  have "drop (off + 2) mem = concat (map enc_diskPlugNode ns) @ drop (18 * length ns) (drop (off + 2) mem)"
    using assms(1) append_take_drop_id [of "18 * length ns" "drop (off + 2) mem"] by (simp add: peek_def)
  then show ?thesis using plug_node.dec_array_enc [of ns] assms(2) by metis
qed

lemma lun_loop_mounted:
  assumes "drop (12 + cur) (snd reply) = concat (map enc_disklist ds)"
    and "sint (ih_len (dec_ipc_header (snd reply))) = int (cur + disklist_size * length ds)"
    and "\<forall>d\<in>set ds. wf_disklist d \<and> dl_status d = DISK_MOUNTED"
    and "18 * int (length ds) \<le> room" "off + 2 + 18 * (n + length ds) \<le> length mem"
  shows "\<exists>mem'. disk_lun_loop E reply mem off bsize n cur room tr =
      Some (mem', bsize - (room - 18 * int (length ds)), free_reply E reply tr) \<and>
    length mem' = length mem \<and> get16 mem' off = get16 mem off + of_nat (length ds) \<and>
    peek mem' (off + 2) (18 * (n + length ds)) =
      peek mem (off + 2) (18 * n) @ concat (map (\<lambda>d. enc_diskPlugNode (plug_node d)) ds)"
  using assms
proof (induction ds arbitrary: cur n mem room)
  case Nil
  then show ?case by (subst disk_lun_loop.simps) (simp add: Let_def)
next
  case (Cons d ds)
  let ?rep = "snd reply"
  have wf: "wf_disklist d" "dl_status d = DISK_MOUNTED" using Cons.prems(3) by auto
  have disk: "dec_disklist (drop (12 + cur) ?rep) = d"
    using Cons.prems(1) wf disklist_st.dec_enc_append by simp
  have ld: "length (enc_disklist d) = disklist_size" using wf disklist_st.length_enc by simp
  have "length (drop (12 + cur) ?rep) = disklist_size + length (concat (map enc_disklist ds))"
    using Cons.prems(1) ld by simp
  then have l: "12 + cur + disklist_size \<le> length ?rep" by simp
  have nxt: "drop (12 + (cur + disklist_size)) ?rep = concat (map enc_disklist ds)"
  proof -
    have "drop disklist_size (drop (12 + cur) ?rep) = concat (map enc_disklist ds)"
      unfolding Cons.prems(1) using ld by simp
    then show ?thesis by (simp add: ac_simps)
  qed
  let ?node = "enc_diskPlugNode (plug_node d)"
  have ln: "length ?node = 18" using plug_node.length_enc [OF wf_plug_node] .
  define m2 where "m2 = add_node mem off n ?node"
  have r: "off + 2 + 18 * n + 18 \<le> length mem" using Cons.prems(5) by simp
  note l2 = add_node_keeps(1) [OF r ln, folded m2_def] and count = add_node_keeps(2) [OF r ln, folded m2_def]
    and nodes = add_node_keeps(3) [OF r ln, folded m2_def]
  have "disk_lun_loop E reply mem off bsize n cur room tr =
      disk_lun_loop E reply m2 off bsize (n + 1) (cur + disklist_size) (room - 18) tr"
    using Cons.prems(2,4) wf(2) disk l r ln
    by (subst disk_lun_loop.simps)
      (simp add: Let_def fault_if_def memcpy_def m2_def add_node_def plug_node_def length_poke)
  moreover have "sint (ih_len (dec_ipc_header ?rep)) =
      int (cur + disklist_size + disklist_size * length ds)"
    using Cons.prems(2) by simp
  moreover from Cons.IH [OF nxt this _ , of "room - 18" "n + 1" m2]
  obtain mem' where mem': "disk_lun_loop E reply m2 off bsize (n + 1) (cur + disklist_size) (room - 18) tr =
      Some (mem', bsize - (room - 18 - 18 * int (length ds)), free_reply E reply tr)"
    "length mem' = length m2" "get16 mem' off = get16 m2 off + of_nat (length ds)"
    "peek mem' (off + 2) (18 * (n + 1 + length ds)) =
      peek m2 (off + 2) (18 * (n + 1)) @ concat (map (\<lambda>d. enc_diskPlugNode (plug_node d)) ds)"
    using Cons.prems l2 by auto
  ultimately show ?case
    using l2 count nodes by (intro exI [of _ mem']) (simp add: algebra_simps)
qed

lemma lun_loop_none:
  assumes "drop (12 + cur) (snd reply) = concat (map enc_disklist ds) @ enc_disklist d @ rest"
    and "int (cur + disklist_size * length ds) < sint (ih_len (dec_ipc_header (snd reply)))"
    and "\<forall>d\<in>set ds. wf_disklist d \<and> dl_status d = DISK_MOUNTED" "wf_disklist d" "dl_status d \<noteq> DISK_MOUNTED"
    and "18 * int (length ds) \<le> room"
  shows "disk_lun_loop E reply mem off bsize n cur room tr = None"
  using assms
proof (induction ds arbitrary: cur n mem room tr)
  case Nil
  then have "dec_disklist (drop (12 + cur) (snd reply)) = d" by (simp add: disklist_st.dec_enc_append)
  then have "disk_lun_loop E reply mem off bsize n cur room tr \<noteq> Some y" for y
    using Nil lun_loop_stuck [of E reply mem off bsize n cur room tr y] by auto
  then show ?case by (metis option.exhaust)
next
  case (Cons c ds)
  let ?rep = "snd reply"
  have c: "wf_disklist c" "dl_status c = DISK_MOUNTED" using Cons.prems(3) by auto
  have disk: "dec_disklist (drop (12 + cur) ?rep) = c"
    using Cons.prems(1) c(1) by (simp add: disklist_st.dec_enc_append)
  have "drop disklist_size (drop (12 + cur) ?rep) = concat (map enc_disklist ds) @ enc_disklist d @ rest"
    unfolding Cons.prems(1) using c(1) by (simp add: disklist_st.length_enc)
  then have nxt: "drop (12 + (cur + disklist_size)) ?rep = concat (map enc_disklist ds) @ enc_disklist d @ rest"
    by (simp add: ac_simps)
  have "disk_lun_loop E reply m off bsize j (cur + disklist_size) (room - 18) t = None" for m j t
    by (rule Cons.IH [OF nxt]) (use Cons.prems in auto)
  then show ?case
    using Cons.prems(2,6) c(2) disk by (subst disk_lun_loop.simps) (simp add: Let_def case_prod_beta)
qed

section \<open>The exchange\<close>

text \<open>Calls that neither write nor read, and record no fault.\<close>

lemma quiet_calls [simp]:
  "written fd (tr @ [Did (Sys s) a]) = written fd tr" "read_in fd (tr @ [Did (Sys s) a]) = read_in fd tr"
  "written fd (tr @ [Did (File (CloseFd k)) a]) = written fd tr"
  "read_in fd (tr @ [Did (File (CloseFd k)) a]) = read_in fd tr"
  by simp_all

lemma client_init_ok:
  "ipc_client_init E path tr = (sock, t') \<Longrightarrow> 0 \<le> sock \<Longrightarrow>
   clean tr t' \<and> written fd t' = written fd tr \<and> read_in fd t' = read_in fd tr"
  by (auto simp: ipc_client_init_def ipc_setsock_def Let_def call_eqs clean_def split: if_splits)

text \<open>Reading does not write, and writing does not read.\<close>

lemma write_loop_read_in: "read_in k (snd (ipc_write_loop E fd data tr)) = read_in k tr"
proof (induction E fd data tr rule: ipc_write_loop.induct)
  case (1 E fd data tr)
  obtain y e tr1 where w: "write_fd E fd data tr = (y, e, tr1)" by (metis prod_cases3)
  have "read_in k tr1 = read_in k tr" using w by (auto simp: write_fd_def do_call_eq)
  then show ?case
    using "1.IH" [OF w [symmetric] refl refl]
    by (subst ipc_write_loop.simps) (simp add: w Let_def)
qed

lemma read_loop_written: "written k (snd (snd (ipc_read_loop E fd rlen tr))) = written k tr"
proof (induction E fd rlen tr rule: ipc_read_loop.induct)
  case (1 E fd rlen tr)
  obtain y d e tr1 where w: "read_fd E fd rlen tr = (y, d, e, tr1)" by (metis prod_cases4)
  have "written k tr1 = written k tr" using w by (auto simp: read_fd_def do_call_eq split: if_splits)
  then show ?case
    using "1.IH" [OF w [symmetric] refl refl refl]
    by (subst ipc_read_loop.simps) (simp add: w Let_def split_beta)
qed

lemma ipc_write_ok:
  "ipc_write E fd data tr = (r, t') \<Longrightarrow> 0 \<le> r \<Longrightarrow>
   clean tr t' \<and> written fd t' = written fd tr @ data \<and> read_in fd t' = read_in fd tr"
  using ipc_write_loop_writes [of E fd data tr r t'] write_loop_read_in [of fd E fd data tr]
  by (auto simp: ipc_write_def split: if_splits)

lemma ipc_read_ok:
  "ipc_read E fd len tr = (r, data, t') \<Longrightarrow> 0 \<le> r \<Longrightarrow>
   clean tr t' \<and> read_in fd t' = read_in fd tr @ data \<and> written fd t' = written fd tr \<and>
   length data = nat len \<and> 0 < len"
  using ipc_read_loop_reads [of E fd "nat len" tr r data t'] read_loop_written [of fd E fd "nat len" tr]
  by (auto simp: ipc_read_def split: if_splits)

lemma double_duplex_ok:
  assumes "stor_ipc_double_duplex E req tr = (r, Some (p, bs), tr')"
  shows "\<exists>fd. clean tr tr' \<and> written fd tr' = written fd tr @ req \<and> read_in fd tr' = read_in fd tr @ bs \<and>
    r = 0 \<and> int (length bs) = 12 + sint (ih_len (dec_ipc_header bs)) \<and>
    last (calls tr') = File (CloseFd fd)"
proof -
  obtain fd t1 where c1: "ipc_client_init E IPC_PATH_MDISK tr = (fd, t1)" by fastforce
  obtain r2 t2 where c2: "ipc_write E fd req t1 = (r2, t2)" by fastforce
  obtain a t3 where c3: "do_call E (Sys (Calloc 12)) t2 = (a, t3)" by fastforce
  obtain r4 hb t4 where c4: "ipc_read E fd 12 t3 = (r4, hb, t4)" by (metis prod_cases3)
  have ok: "\<not> fd < 0" "\<not> r2 < 0" "a_num a \<noteq> 0" "\<not> r4 < 0"
    using assms by (auto simp: stor_ipc_double_duplex_def c1 c2 c3 c4 Let_def split: if_splits)
  note f1 = client_init_ok [OF c1, of fd] and f2 = ipc_write_ok [OF c2] and f4 = ipc_read_ok [OF c4]
  have t3: "clean t2 t3" "written fd t3 = written fd t2" "read_in fd t3 = read_in fd t2"
    using c3 by (auto simp: do_call_eq)
  have upto: "clean tr t4" "written fd t4 = written fd tr @ req" "read_in fd t4 = read_in fd tr @ hb" "length hb = 12"
    using f1 f2 f4 t3 ok by (auto intro: clean_trans)
  have last: "last (calls (just_call E (File (CloseFd fd)) t)) = File (CloseFd fd)" for t
    by (simp add: just_call_eq)
  have close: "clean tr t \<Longrightarrow> clean tr (just_call E (File (CloseFd fd)) t)"
    "written fd (just_call E (File (CloseFd fd)) t) = written fd t"
    "read_in fd (just_call E (File (CloseFd fd)) t) = read_in fd t" for t
    using clean_trans [OF _ clean_just_call] by (auto simp: just_call_eq)
  show ?thesis
  proof (cases "sint (ih_len (dec_ipc_header hb)) = 0")
    case True
    then have "bs = hb" "r = 0" "tr' = just_call E (File (CloseFd fd)) t4"
      using assms ok by (auto simp: stor_ipc_double_duplex_def c1 c2 c3 c4 Let_def split: if_splits)
    then show ?thesis
      using upto True last close by (intro exI [of _ fd]) auto
  next
    case False
    let ?ra = "Sys (Realloc (a_num a) (unat (12 + ih_len (dec_ipc_header hb))))"
    obtain a5 t5 where c5: "do_call E ?ra t4 = (a5, t5)" by fastforce
    obtain r6 pl t6 where c6: "ipc_read E fd (sint (ih_len (dec_ipc_header hb))) t5 = (r6, pl, t6)"
      by (metis prod_cases3)
    have res: "\<not> r6 < 0" "bs = hb @ pl" "r = 0" "tr' = just_call E (File (CloseFd fd)) t6"
      using assms ok False
      by (auto simp: stor_ipc_double_duplex_def c1 c2 c3 c4 c5 c6 Let_def split: if_splits)
    note f6 = ipc_read_ok [OF c6]
    have t5: "clean t4 t5" "written fd t5 = written fd t4" "read_in fd t5 = read_in fd t4"
      using c5 by (auto simp: do_call_eq)
    have "dec_ipc_header bs = dec_ipc_header hb"
      unfolding res(2) using upto(4) ipc_hd.dec_take [of "hb @ pl"] ipc_hd.dec_take [of hb] by simp
    moreover have "clean tr t6"
      using clean_trans [OF clean_trans [OF upto(1) t5(1)], of t6] f6 res(1) by simp
    ultimately show ?thesis
      using upto res f6 t5 last close by (intro exI [of _ fd]) auto
  qed
qed

text \<open>The whole disk list operation, for a reply whose disks are all mounted and fit.\<close>

lemma disk_lun_ok:
  assumes req: "disk_request E MSG_DISK_DISKLIST tr = (Some (p, enc_ipc_header h @ concat (map enc_disklist ds)), t1)"
    and h: "ih_direction h \<noteq> 1" "sint (ih_len h) = int (disklist_size * length ds)"
    and ds: "\<forall>d\<in>set ds. wf_disklist d \<and> dl_status d = DISK_MOUNTED"
    and room: "2 + 18 * int (length ds) \<le> bsize" "off + nat bsize \<le> length mem"
  shows "\<exists>mem' tr'. disk_getdisk_lun E mem off bsize tr =
      Some (DISK_SUCCESS, mem', Some (2 + 18 * int (length ds)), tr') \<and>
    length mem' = length mem \<and> get16 mem' off = get16 mem off + of_nat (length ds) \<and>
    dec_array dec_diskPlugNode 18 (length ds) (drop (off + 2) mem') = map plug_node ds"
proof -
  let ?rep = "(p, enc_ipc_header h @ concat (map enc_disklist ds))"
  have hd: "dec_ipc_header (snd ?rep) = h" by (simp add: ipc_hd.dec_enc_append)
  have lh: "length (enc_ipc_header h) = 12" by (simp add: ipc_hd.length_enc)
  have d: "drop (12 + 0) (snd ?rep) = concat (map enc_disklist ds)" using lh by simp
  have l: "sint (ih_len (dec_ipc_header (snd ?rep))) = int (0 + disklist_size * length ds)"
    using h(2) hd by simp
  have m: "off + 2 + 18 * (0 + length ds) \<le> length mem"
  proof -
    have "2 + 18 * length ds \<le> nat bsize" using room(1) by (simp add: le_nat_iff)
    then show ?thesis using room(2) by simp
  qed
  have r: "18 * int (length ds) \<le> bsize - 2" using room by linarith
  from lun_loop_mounted [OF d l ds r m, of E bsize t1] obtain mem' where
    run: "disk_lun_loop E ?rep mem off bsize 0 0 (bsize - 2) t1 =
      Some (mem', bsize - (bsize - 2 - 18 * int (length ds)), free_reply E ?rep t1)" and
    mem': "length mem' = length mem" "get16 mem' off = get16 mem off + of_nat (length ds)"
      "peek mem' (off + 2) (18 * length ds) = concat (map (\<lambda>d. enc_diskPlugNode (plug_node d)) ds)"
    by (auto simp: peek_def)
  have "dec_array dec_diskPlugNode 18 (length (map plug_node ds)) (drop (off + 2) mem') = map plug_node ds"
    by (rule nodes_decoded) (use mem'(3) wf_plug_node in \<open>auto simp: comp_def\<close>)
  then show ?thesis
    using run mem' h(1) hd by (auto simp: disk_getdisk_lun_def req)
qed

end
