(* ===== verification/Ustor_Disk.thy ===== *)
theory Ustor_Disk
  imports Ustor_Diskipc
begin

text \<open>
  usDisk.c: files of the device (read, write, create, list), the disk lists, and the one-slot
  notification of a plugged or unplugged disk, which the event thread fills and the main loop
  empties under a mutex. File paths are C strings in memory.
\<close>

section \<open>The notification slot\<close>

abbreviation DISK_PLUGIN :: u8 where "DISK_PLUGIN \<equiv> 1"
abbreviation DISK_PLUGOUT :: u8 where "DISK_PLUGOUT \<equiv> 0"

record nofiyStruct =
  nf_valid :: u8
  nf_dev :: bytes
  nf_event :: u8
  nf_invokTime :: u32

definition notify0 :: nofiyStruct where
  "notify0 = \<lparr>nf_valid = 0, nf_dev = replicate 16 0, nf_event = 0, nf_invokTime = 0\<rparr>"

text \<open>The result is what \<open>*notify\<close> is set to, when it is, and the new \<open>notifyInfo\<close>.\<close>

definition usDisk_getNotifyInfo ::
    "os \<Rightarrow> nofiyStruct \<Rightarrow> trace \<Rightarrow> int \<times> nofiyStruct option \<times> nofiyStruct \<times> trace" where
  "usDisk_getNotifyInfo E notifyInfo tr =
     (let tr = just_call E (Sys MutexLock) tr;
          (out, notifyInfo) = (if nf_valid notifyInfo \<noteq> 0
            then (Some notifyInfo, notifyInfo\<lparr>nf_valid := 0\<rparr>) else (None, notifyInfo));
          tr = just_call E (Sys MutexUnlock) tr
      in (EUSTOR_OK, out, notifyInfo, tr))"

definition usDisk_init :: "nofiyStruct \<Rightarrow> int \<times> nofiyStruct" where
  "usDisk_init notifyInfo = (let _ = disk_init in (EUSTOR_OK, notify0))"

text \<open>\<open>raction.dev\<close> has 64 bytes, \<open>notifyInfo.dev\<close> 16, of which the last is never written.\<close>

definition usDisk_PlugCallBack :: "os \<Rightarrow> int \<Rightarrow> bytes \<Rightarrow> nofiyStruct \<Rightarrow> trace \<Rightarrow> nofiyStruct \<times> trace" where
  "usDisk_PlugCallBack E action dev notifyInfo tr =
     (let tr = fault_if (64 < length (strcpy dev)) OutOfBounds tr;
          tr = just_call E (Sys MutexLock) tr;
          (notifyInfo, tr) =
            (if disk_aciton_func (action, cstr dev) = DISK_SUCCESS then
               let (now, tr) = ret_call E (Sys Time) tr
               in (\<lparr>nf_valid = 1, nf_dev = poke (nf_dev notifyInfo) 0 (strncpy dev 15),
                    nf_event = (if action = 4 then DISK_PLUGIN else DISK_PLUGOUT),
                    nf_invokTime = word_of_int now\<rparr>, tr)
             else (notifyInfo, tr))
      in (notifyInfo, just_call E (Sys MutexUnlock) tr))"

section \<open>Reading and writing files\<close>

text \<open>The count given to \<open>read\<close> and \<open>write\<close>: an \<open>int\<close> difference converted to \<open>size_t\<close>.\<close>

definition io_count :: "int \<Rightarrow> int \<Rightarrow> nat" where
  "io_count size' already = nat ((size' - already) mod 2 ^ 32)"

partial_function (option) disk_read_loop ::
    "os \<Rightarrow> int \<Rightarrow> int \<Rightarrow> bool \<Rightarrow> bytes \<Rightarrow> trace \<Rightarrow> (int \<times> bytes \<times> int option \<times> trace) option" where
  "disk_read_loop E fd n trueRead acc tr =
     (let already = int (length acc);
          (res, data, errno, tr) = read_fd E fd (io_count n already) tr in
      if res < 0 \<and> errno \<noteq> EINTR \<and> errno \<noteq> EAGAIN
      then Some (EUSTOR_DISK_READ, acc, None, just_call E (File (CloseFd fd)) tr)
      else if res = 0 then
        let tr = just_call E (File (CloseFd fd)) tr in
        if trueRead then Some (EUSTOR_OK, acc, Some already, tr) else Some (EUSTOR_DISK_READ, acc, None, tr)
      else
        let acc = acc @ data in
        if int (length acc) < n then disk_read_loop E fd n trueRead acc tr
        else Some (EUSTOR_OK, acc, if trueRead then Some n else None, just_call E (File (CloseFd fd)) tr))"

declare disk_read_loop.simps [code]

text \<open>
  The result has the bytes stored at the start of \<open>buff\<close> and the value of \<open>*trueRead\<close>, when
  the caller passed one and it was set.
\<close>

definition usDisk_diskRead ::
    "os \<Rightarrow> bytes \<Rightarrow> int \<Rightarrow> int \<Rightarrow> bool \<Rightarrow> trace \<Rightarrow> (int \<times> bytes \<times> int option \<times> trace) option" where
  "usDisk_diskRead E filename offset n trueRead tr =
     (if cstr filename = [] \<or> n = 0 then Some (EUSTOR_ARG, [], None, tr)
      else
        let (fd, tr) = ret_call E (File (Open (cstr filename) O_RDONLY)) tr in
        if fd < 0 then Some (EUSTOR_DISK_OPEN, [], None, tr)
        else
          let (r, tr) = ret_call E (File (Lseek fd offset)) tr in
          if r < 0 then Some (EUSTOR_DISK_SEEK, [], None, just_call E (File (CloseFd fd)) tr)
          else disk_read_loop E fd n trueRead [] tr)"

text \<open>\<open>buff\<close> is the place \<open>off\<close> in \<open>mem\<close>; what lies outside \<open>mem\<close> cannot be written.\<close>

partial_function (option) disk_write_loop ::
    "os \<Rightarrow> int \<Rightarrow> bytes \<Rightarrow> nat \<Rightarrow> int \<Rightarrow> bool \<Rightarrow> int \<Rightarrow> trace \<Rightarrow> (int \<times> int option \<times> trace) option" where
  "disk_write_loop E fd mem off n trueWrite already tr =
     (let cnt = io_count n already;
          tr = fault_if (length mem < off + nat already + cnt) OutOfBounds tr;
          (res, errno, tr) = write_fd E fd (peek mem (off + nat already) cnt) tr in
      if res < 0 \<and> errno \<noteq> EINTR \<and> errno \<noteq> EAGAIN then
        let tr = just_call E (File (CloseFd fd)) tr in
        if trueWrite then Some (EUSTOR_OK, Some already, tr) else Some (EUSTOR_DISK_WRITE, None, tr)
      else
        let already = (if res < 0 then already else already + res) in
        if already < n then disk_write_loop E fd mem off n trueWrite already tr
        else Some (EUSTOR_OK, if trueWrite then Some n else None, just_call E (File (CloseFd fd)) tr))"

declare disk_write_loop.simps [code]

definition usDisk_diskWrite ::
    "os \<Rightarrow> bytes \<Rightarrow> bytes \<Rightarrow> nat \<Rightarrow> int \<Rightarrow> int \<Rightarrow> bool \<Rightarrow> trace \<Rightarrow> (int \<times> int option \<times> trace) option" where
  "usDisk_diskWrite E filename mem off offset n trueWrite tr =
     (if cstr filename = [] \<or> n = 0 then Some (EUSTOR_ARG, None, tr)
      else
        let (fd, tr) = ret_call E (File (Open (cstr filename) O_RDWR)) tr in
        if fd < 0 then Some (EUSTOR_DISK_OPEN, None, tr)
        else
          let (r, tr) = ret_call E (File (Lseek fd offset)) tr in
          if r < 0 then Some (EUSTOR_DISK_SEEK, None, just_call E (File (CloseFd fd)) tr)
          else disk_write_loop E fd mem off n trueWrite 0 tr)"

definition usDisk_diskCreate :: "os \<Rightarrow> bytes \<Rightarrow> u8 \<Rightarrow> u32 \<Rightarrow> u32 \<Rightarrow> trace \<Rightarrow> int \<times> trace" where
  "usDisk_diskCreate E abspath isdir actime modtime tr =
     (let path = cstr abspath; (r, tr) = ret_call E (File (Access path)) tr;
          (ok, tr) =
            (if r \<noteq> 0 then
               if isdir \<noteq> 0 then let (m, tr) = ret_call E (File (Mkdir path)) tr in (m = 0, tr)
               else
                 let (fd, tr) = ret_call E (File (Open path (O_CREAT + O_WRONLY))) tr
                 in if fd < 0 then (False, tr) else (True, just_call E (File (CloseFd fd)) tr)
             else (True, tr))
      in if \<not> ok then (EUSTOR_DISK_CREATE, tr)
         else if actime \<noteq> 0 \<and> modtime \<noteq> 0 then
           let (u, tr) = ret_call E (File (Utime path (sint actime) (sint modtime))) tr
           in (if u \<noteq> 0 then EUSTOR_DISK_CREATE else EUSTOR_OK, tr)
         else (EUSTOR_OK, tr))"

section \<open>Disk lists\<close>

definition usDisk_diskLun ::
    "os \<Rightarrow> bytes \<Rightarrow> nat \<Rightarrow> int \<Rightarrow> nofiyStruct \<Rightarrow> trace \<Rightarrow>
     (int \<times> bytes \<times> int option \<times> nofiyStruct \<times> trace) option" where
  "usDisk_diskLun E mem off bsize notifyInfo tr =
     (let tr = just_call E (Sys MutexLock) tr in do {
        (res, mem, used, tr) \<leftarrow> disk_getdisk_lun E mem off bsize tr;
        Some (if res = DISK_SUCCESS then EUSTOR_OK else EUSTOR_DISK_LUN, mem, used,
          if res = DISK_SUCCESS then notify0 else notifyInfo, just_call E (Sys MutexUnlock) tr)
      })"

definition usDisk_diskInfo ::
    "os \<Rightarrow> bytes \<Rightarrow> nat \<Rightarrow> int \<Rightarrow> nofiyStruct \<Rightarrow> trace \<Rightarrow>
     int \<times> bytes \<times> int option \<times> nofiyStruct \<times> trace" where
  "usDisk_diskInfo E mem off bsize notifyInfo tr =
     (let tr = just_call E (Sys MutexLock) tr;
          (res, mem, used, tr) = disk_getdisk_info E mem off bsize tr
      in (if res = DISK_SUCCESS then EUSTOR_OK else EUSTOR_DISK_LUN, mem, used,
          if res = DISK_SUCCESS then notify0 else notifyInfo, just_call E (Sys MutexUnlock) tr))"

text \<open>
  The directory listing calls back for every entry but \<open>.\<close> and \<open>..\<close>, with the path cut at 4094
  characters, and once more at the end with no name. \<open>s\<close> is the state of the callback.
\<close>

definition list_path :: "bytes \<Rightarrow> bytes \<Rightarrow> bytes" where
  "list_path dirname name = take 4094 (cstr dirname @ str ''/'' @ cstr name)"

partial_function (option) disk_list_loop ::
    "os \<Rightarrow> ptr \<Rightarrow> bytes \<Rightarrow> ('s \<Rightarrow> bytes option \<Rightarrow> int \<Rightarrow> trace \<Rightarrow> (int \<times> 's \<times> trace) option) \<Rightarrow> 's \<Rightarrow> trace \<Rightarrow>
     (int \<times> 's \<times> trace) option" where
  "disk_list_loop E dir dirname callback s tr =
     (let (ent, tr) = do_call E (File (Readdir dir)) tr in
      if a_num ent = 0 then callback s None 1 (just_call E (File (Closedir dir)) tr)
      else if cstr (a_data ent) = str ''.'' \<or> cstr (a_data ent) = str ''..''
      then disk_list_loop E dir dirname callback s tr
      else do {
        (res, s, tr) \<leftarrow> callback s (Some (list_path dirname (a_data ent))) 0 tr;
        if res \<noteq> EUSTOR_OK then Some (res, s, just_call E (File (Closedir dir)) tr)
        else disk_list_loop E dir dirname callback s tr
      })"

declare disk_list_loop.simps [code]

definition usDisk_diskList ::
    "os \<Rightarrow> bytes \<Rightarrow> ('s \<Rightarrow> bytes option \<Rightarrow> int \<Rightarrow> trace \<Rightarrow> (int \<times> 's \<times> trace) option) \<Rightarrow> 's \<Rightarrow> trace \<Rightarrow>
     (int \<times> 's \<times> trace) option" where
  "usDisk_diskList E dirname callback s tr =
     (let (d, tr) = do_call E (File (Opendir (cstr dirname))) tr in
      if a_num d = 0 then Some (EUSTOR_DISK_LIST, s, tr)
      else disk_list_loop E (a_num d) dirname callback s tr)"

section \<open>Reading a file\<close>

text \<open>
  What POSIX promises of \<open>read\<close> on a regular file: a read that does not fail stores bytes
  of the file from the current position on, and none only at its end (or when none is asked for).
\<close>

definition only_reads :: "int \<Rightarrow> trace \<Rightarrow> bool" where
  "only_reads fd es = (\<forall>e\<in>set es. \<exists>k a. e = Did (File (Read fd k)) a)"

definition serves :: "os \<Rightarrow> int \<Rightarrow> bytes \<Rightarrow> trace \<Rightarrow> bool" where
  "serves E fd content tr0 = (\<forall>es n. only_reads fd es \<longrightarrow>
     (let a = E (tr0 @ es) (File (Read fd n)); rest = drop (length (read_in fd es)) content in
      0 \<le> a_ret a \<longrightarrow> (\<exists>k. take n (a_data a) = take k rest) \<and> (take n (a_data a) = [] \<longrightarrow> n = 0 \<or> rest = [])))"

lemma only_reads_simps [simp]:
  "only_reads fd []" "only_reads fd (es @ [Did (File (Read fd k)) a]) = only_reads fd es"
  by (auto simp: only_reads_def)

lemma io_count_pos: "a \<le> n \<Longrightarrow> 0 \<le> a \<Longrightarrow> n < 2 ^ 32 \<Longrightarrow> io_count n a = nat (n - a)"
  by (simp add: io_count_def)

lemma take_append_chunk:
  "acc = take (length acc) c \<Longrightarrow> d = take k (drop (length acc) c) \<Longrightarrow>
   acc @ d = take (length (acc @ d)) c"
proof -
  assume a: "acc = take (length acc) c" and d: "d = take k (drop (length acc) c)"
  have "acc @ d = take (length acc) c @ take k (drop (length acc) c)" using a d by simp
  also have "\<dots> = take (length acc + k) c" by (simp add: take_add)
  finally have e: "acc @ d = take (length acc + k) c" .
  show ?thesis by (subst (2) e) (simp add: e min_def)
qed

lemma disk_read_loop_ok:
  "disk_read_loop E fd n trueRead acc tr = Some y \<Longrightarrow>
   serves E fd content tr0 \<Longrightarrow> n < 2 ^ 31 \<Longrightarrow>
   tr = tr0 @ es \<and> only_reads fd es \<and> read_in fd es = acc \<and> acc = take (length acc) content \<and> int (length acc) < n \<Longrightarrow>
   case y of (r, data, t, tr') \<Rightarrow>
     (r = EUSTOR_OK \<and> data = take (nat n) content \<and> t = (if trueRead then Some (int (length data)) else None) \<and>
       (\<not> trueRead \<longrightarrow> int (length data) = n)
      \<or> r = EUSTOR_DISK_READ \<and> t = None)
     \<and> (\<exists>u. calls tr' = u @ [File (CloseFd fd)])"
proof (induct arbitrary: es rule: disk_read_loop.raw_induct [rotated, consumes 1, case_names step])
  case (step loop E fd n trueRead acc tr y)
  obtain res data errno tr1 where rd: "read_fd E fd (io_count n (int (length acc))) tr = (res, data, errno, tr1)"
    by (metis prod_cases4)
  define cnt where "cnt = io_count n (int (length acc))"
  have cnt: "int cnt = n - int (length acc)" "0 < cnt"
    using step.prems by (auto simp: cnt_def io_count_def)
  let ?a = "E tr (File (Read fd cnt))"
  have facts: "tr1 = tr @ [Did (File (Read fd cnt)) ?a]" "res < 0 \<longrightarrow> data = []"
    "0 \<le> res \<longrightarrow> data = take cnt (a_data ?a) \<and> res = int (length data) \<and> 0 \<le> a_ret ?a"
    "res < 0 \<longleftrightarrow> a_ret ?a < 0"
    using rd unfolding cnt_def [symmetric] by (auto simp: read_fd_def do_call_eq split: if_splits)
  have srv: "0 \<le> a_ret ?a \<Longrightarrow> (\<exists>k. take cnt (a_data ?a) = take k (drop (length acc) content)) \<and>
      (take cnt (a_data ?a) = [] \<longrightarrow> drop (length acc) content = [])"
    using step.prems(1,3) cnt(2) unfolding serves_def Let_def by (metis not_gr_zero)
  have chunk: "acc @ data = take (length (acc @ data)) content"
  proof (cases "res < 0")
    case True then show ?thesis using facts step.prems by simp
  next
    case False
    then obtain k where "data = take k (drop (length acc) content)" using srv facts by auto
    then show ?thesis using take_append_chunk step.prems(3) by blast
  qed
  have le: "int (length (acc @ data)) \<le> n"
    using facts cnt by (cases "res < 0") (auto simp: min_def split: if_splits)
  have es': "tr1 = tr0 @ (es @ [Did (File (Read fd cnt)) ?a])" "only_reads fd (es @ [Did (File (Read fd cnt)) ?a])"
    "read_in fd (es @ [Did (File (Read fd cnt)) ?a]) = acc @ data"
    using step.prems(3) facts by (auto simp: not_less)
  have fin: "\<exists>u. calls (just_call E (File (CloseFd fd)) t) = u @ [File (CloseFd fd)]" for t
    by (simp add: just_call_eq)
  consider (err) "res < 0 \<and> errno \<noteq> EINTR \<and> errno \<noteq> EAGAIN"
    | (eof) "res = 0"
    | (more) "\<not> (res < 0 \<and> errno \<noteq> EINTR \<and> errno \<noteq> EAGAIN)" "res \<noteq> 0" "int (length (acc @ data)) < n"
    | (full) "\<not> (res < 0 \<and> errno \<noteq> EINTR \<and> errno \<noteq> EAGAIN)" "res \<noteq> 0" "\<not> int (length (acc @ data)) < n"
    by blast
  then show ?case
  proof cases
    case err
    then show ?thesis using step.hyps(2) fin by (auto simp: rd Let_def)
  next
    case eof
    then have e: "drop (length acc) content = []" using facts srv by auto
    then have "length content \<le> length acc" by simp
    then have all: "acc = content" using step.prems(3) by simp
    then have "take (nat n) content = acc" using step.prems(3) by (simp add: le_nat_iff)
    then show ?thesis using step.hyps(2) eof fin by (auto simp: rd Let_def split: if_splits)
  next
    case more
    have "loop E fd n trueRead (acc @ data) tr1 = Some y"
      using step.hyps(2) more by (simp add: rd Let_def)
    moreover have "tr1 = tr0 @ (es @ [Did (File (Read fd cnt)) ?a]) \<and>
        only_reads fd (es @ [Did (File (Read fd cnt)) ?a]) \<and>
        read_in fd (es @ [Did (File (Read fd cnt)) ?a]) = acc @ data \<and>
        acc @ data = take (length (acc @ data)) content \<and> int (length (acc @ data)) < n"
      using es' chunk more(3) by blast
    ultimately show ?thesis using step.hyps(1) step.prems(1,2) by blast
  next
    case full
    then have "int (length (acc @ data)) = n" using le by linarith
    then have "take (nat n) content = acc @ data" using chunk by (metis nat_int)
    moreover have "y = (EUSTOR_OK, acc @ data, if trueRead then Some n else None, just_call E (File (CloseFd fd)) tr1)"
      using step.hyps(2) full by (simp add: rd Let_def)
    ultimately show ?thesis using \<open>int (length (acc @ data)) = n\<close> fin by simp
  qed
qed

text \<open>The whole operation, once the file is open and positioned.\<close>

definition disk_opened :: "os \<Rightarrow> bytes \<Rightarrow> int \<Rightarrow> int \<Rightarrow> trace \<Rightarrow> int \<times> trace" where
  "disk_opened E filename mode offset tr =
     (let (fd, tr) = ret_call E (File (Open (cstr filename) mode)) tr
      in (fd, just_call E (File (Lseek fd offset)) tr))"

lemma disk_read_ok:
  assumes run: "usDisk_diskRead E filename offset n trueRead tr = Some (r, data, t, tr')"
    and "serves E (fst (disk_opened E filename O_RDONLY offset tr)) content (snd (disk_opened E filename O_RDONLY offset tr))"
    and "0 < n" "n < 2 ^ 31"
  shows "(r = EUSTOR_OK \<longrightarrow> data = take (nat n) content \<and>
      t = (if trueRead then Some (int (length data)) else None) \<and> (\<not> trueRead \<longrightarrow> int (length data) = n))
    \<and> r \<in> {EUSTOR_OK, EUSTOR_ARG, EUSTOR_DISK_OPEN, EUSTOR_DISK_SEEK, EUSTOR_DISK_READ}"
proof -
  let ?o = "disk_opened E filename O_RDONLY offset tr"
  let ?lp = "disk_read_loop E (fst ?o) n trueRead [] (snd ?o)"
  consider "r \<in> {EUSTOR_ARG, EUSTOR_DISK_OPEN, EUSTOR_DISK_SEEK}" | "?lp = Some (r, data, t, tr')"
    using run by (auto simp: usDisk_diskRead_def disk_opened_def call_eqs Let_def split: if_splits)
  then show ?thesis
  proof cases
    case 2
    from disk_read_loop_ok [OF 2 assms(2,4), of "[]"] assms(3) show ?thesis by auto
  qed auto
qed

section \<open>Writing a file\<close>

lemma peek_append: "peek m a k @ peek m (a + k) j = peek m a (k + j)"
  unfolding peek_def take_add drop_drop by (simp add: add.commute)

lemma disk_write_loop_ok:
  "disk_write_loop E fd mem off n trueWrite already tr = Some y \<Longrightarrow>
   0 \<le> already \<and> already < n \<and> n < 2 ^ 31 \<and> off + nat n \<le> length mem \<Longrightarrow>
   case y of (r, t, tr') \<Rightarrow> \<exists>k. already \<le> k \<and> k \<le> n \<and> clean tr tr' \<and>
     written fd tr' = written fd tr @ peek mem (off + nat already) (nat (k - already)) \<and>
     (r = EUSTOR_OK \<and> t = (if trueWrite then Some k else None) \<and> (\<not> trueWrite \<longrightarrow> k = n)
      \<or> r = EUSTOR_DISK_WRITE \<and> t = None \<and> \<not> trueWrite)"
proof (induct rule: disk_write_loop.raw_induct [rotated, consumes 1, case_names step])
  case (step loop E fd mem off n trueWrite already tr y)
  define cnt where "cnt = io_count n already"
  have cnt: "int cnt = n - already" "off + nat already + cnt \<le> length mem"
    using step.prems by (auto simp: cnt_def io_count_def nat_add_distrib)
  let ?d = "peek mem (off + nat already) cnt"
  obtain res errno tr1 where wr: "write_fd E fd ?d tr = (res, errno, tr1)" by (metis prod_cases3)
  have ld: "length ?d = cnt" using cnt(2) by (simp add: length_peek)
  note wf = write_fd_written [OF wr]
  have sub: "0 \<le> res \<Longrightarrow> take (nat res) ?d = peek mem (off + nat already) (nat res)"
  proof -
    assume "0 \<le> res"
    then have "nat res \<le> cnt" using wf ld by linarith
    then show ?thesis by (simp add: peek_def)
  qed
  have fin: "clean tr t \<Longrightarrow> clean tr (just_call E (File (CloseFd fd)) t)"
    "written fd (just_call E (File (CloseFd fd)) t) = written fd t" for t
    using clean_trans [OF _ clean_just_call] by (auto simp: just_call_eq)
  have nf: "fault_if (length mem < off + nat already + cnt) OutOfBounds tr = tr"
    using cnt by (simp add: fault_if_def)
  have body: "Some y = (if res < 0 \<and> errno \<noteq> EINTR \<and> errno \<noteq> EAGAIN then
        let tr = just_call E (File (CloseFd fd)) tr1 in
        if trueWrite then Some (EUSTOR_OK, Some already, tr) else Some (EUSTOR_DISK_WRITE, None, tr)
      else
        let already = (if res < 0 then already else already + res) in
        if already < n then loop E fd mem off n trueWrite already tr1
        else Some (EUSTOR_OK, if trueWrite then Some n else None, just_call E (File (CloseFd fd)) tr1))"
    using step.hyps(2) wr nf by (simp add: Let_def cnt_def [symmetric])
  show ?case
  proof (cases "res < 0 \<and> errno \<noteq> EINTR \<and> errno \<noteq> EAGAIN")
    case True
    then show ?thesis using body step.prems wf fin
      by (auto simp: Let_def peek_def split: if_splits intro!: exI [of _ already])
  next
    case False
    define a1 where "a1 = (if res < 0 then already else already + res)"
    have a1: "already \<le> a1" "a1 \<le> n" using wf ld cnt(1) by (auto simp: a1_def)
    have w1: "written fd tr1 = written fd tr @ peek mem (off + nat already) (nat (a1 - already))"
      using wf sub by (auto simp: a1_def peek_def)
    show ?thesis
    proof (cases "a1 < n")
      case True
      have "loop E fd mem off n trueWrite a1 tr1 = Some y" using body False True by (simp add: Let_def a1_def)
      from step.hyps(1) [OF this] True step.prems a1 obtain k where
        k: "a1 \<le> k" "k \<le> n" "case y of (r, t, tr') \<Rightarrow> clean tr1 tr' \<and>
         written fd tr' = written fd tr1 @ peek mem (off + nat a1) (nat (k - a1)) \<and>
         (r = EUSTOR_OK \<and> t = (if trueWrite then Some k else None) \<and> (\<not> trueWrite \<longrightarrow> k = n)
          \<or> r = EUSTOR_DISK_WRITE \<and> t = None \<and> \<not> trueWrite)" by (cases y) auto
      have "peek mem (off + nat already) (nat (a1 - already)) @ peek mem (off + nat a1) (nat (k - a1)) =
          peek mem (off + nat already) (nat (k - already))"
      proof -
        have e: "off + nat a1 = off + nat already + nat (a1 - already)"
          "nat (k - already) = nat (a1 - already) + nat (k - a1)"
          using a1 k step.prems by linarith+
        show ?thesis unfolding e by (rule peek_append)
      qed
      then show ?thesis using k a1 w1 wf clean_trans [of tr tr1] by (cases y) (auto intro!: exI [of _ k])
    next
      case full: False
      then have "a1 = n" using a1 by simp
      then show ?thesis using body False w1 wf fin a1 by (auto simp: Let_def a1_def)
    qed
  qed
qed

lemma disk_write_ok:
  assumes run: "usDisk_diskWrite E filename mem off offset n trueWrite tr = Some (r, t, tr')"
    and n: "0 < n" "n < 2 ^ 31" "off + nat n \<le> length mem"
  shows "clean tr tr' \<and>
    (r = EUSTOR_OK \<longrightarrow> (let (fd, tr1) = disk_opened E filename O_RDWR offset tr; k = (case t of Some k \<Rightarrow> k | None \<Rightarrow> n) in
      k \<le> n \<and> trueWrite = (t \<noteq> None) \<and> written fd tr' = written fd tr1 @ peek mem off (nat k)))"
proof -
  obtain fd tr1 where o1: "disk_opened E filename O_RDWR offset tr = (fd, tr1)" by fastforce
  have cl: "clean tr tr1"
    using o1 clean_trans [OF clean_call clean_just_call] by (auto simp: disk_opened_def ret_call_eq)
  consider "r \<noteq> EUSTOR_OK" "clean tr tr'" | "disk_write_loop E fd mem off n trueWrite 0 tr1 = Some (r, t, tr')"
  proof (cases "cstr filename = [] \<or> n = 0 \<or> fd < 0 \<or> a_ret (E (tr @ [Did (File (Open (cstr filename) O_RDWR))
      (E tr (File (Open (cstr filename) O_RDWR)))]) (File (Lseek fd offset))) < 0")
    case True
    then have "r \<noteq> EUSTOR_OK \<and> clean tr tr'"
      using run o1 by (auto simp: usDisk_diskWrite_def disk_opened_def call_eqs Let_def clean_def split: if_splits)
    then show ?thesis using that(1) by blast
  next
    case False
    then have "disk_write_loop E fd mem off n trueWrite 0 tr1 = Some (r, t, tr')"
      using run o1 by (auto simp: usDisk_diskWrite_def disk_opened_def call_eqs Let_def split: if_splits)
    then show ?thesis using that(2) by blast
  qed
  then show ?thesis
  proof cases
    case 1 then show ?thesis by simp
  next
    case 2
    from disk_write_loop_ok [OF 2] n obtain k where
      k: "0 \<le> k" "k \<le> n" "clean tr1 tr'" "written fd tr' = written fd tr1 @ peek mem off (nat k)"
        "r = EUSTOR_OK \<and> t = (if trueWrite then Some k else None) \<and> (\<not> trueWrite \<longrightarrow> k = n)
          \<or> r = EUSTOR_DISK_WRITE \<and> t = None \<and> \<not> trueWrite" by auto
    then show ?thesis using o1 clean_trans [OF cl] by (auto split: if_splits)
  qed
qed

text \<open>A write that fails after the caller asked for the count is reported as a success.\<close>

section \<open>The notification slot\<close>

text \<open>Every event is delivered once: a second read finds the slot empty.\<close>

lemma notify_once:
  assumes "usDisk_getNotifyInfo E s tr = (r, Some v, s', tr')"
  shows "v = s \<and> nf_valid s \<noteq> 0 \<and> fst (snd (usDisk_getNotifyInfo E s' tr')) = None"
  using assms by (auto simp: usDisk_getNotifyInfo_def Let_def split: if_splits)

lemma notify_plug:
  assumes dev: "length (cstr dev) < 16" and s: "length (nf_dev s) = 16" "last (nf_dev s) = 0"
  shows "\<exists>v. fst (snd (usDisk_getNotifyInfo E' (fst (usDisk_PlugCallBack E action dev s tr)) tr')) = Some v \<and>
    cstr (nf_dev v) = cstr dev \<and> nf_event v = (if action = 4 then DISK_PLUGIN else DISK_PLUGOUT)"
proof -
  have "nf_dev s \<noteq> []" using s(1) by auto
  then have "drop (length (butlast (nf_dev s))) (nf_dev s) = [last (nf_dev s)]"
    by (metis append_butlast_last_id append_eq_conv_conj)
  then have d: "drop 15 (nf_dev s) = [0]" using s by simp
  have "poke (nf_dev s) 0 (strncpy dev 15) = cstr dev @ replicate (15 - length (cstr dev)) 0 @ [0]"
    using dev d by (simp add: poke_def strncpy_def)
  then have "cstr (poke (nf_dev s) 0 (strncpy dev 15)) = cstr dev"
    by (cases "15 - length (cstr dev)") simp_all
  then show ?thesis
    by (auto simp: usDisk_getNotifyInfo_def usDisk_PlugCallBack_def disk_aciton_func_def Let_def call_eqs)
qed

section \<open>Listing a directory\<close>

declare disk_list_loop.simps [simp del]

text \<open>What the callback keeps for every entry but \<open>.\<close> and \<open>..\<close> holds when the listing is over.\<close>

lemma disk_list_loop_inv:
  "disk_list_loop E dir dirname callback s tr = Some y \<Longrightarrow>
   (\<And>s nm t r s' tr tr'. P EUSTOR_OK s tr \<Longrightarrow> nm = a_data (E t (File (Readdir dir))) \<Longrightarrow> cstr nm \<noteq> str ''.'' \<Longrightarrow> cstr nm \<noteq> str ''..'' \<Longrightarrow>
      callback s (Some (list_path dirname nm)) 0 tr = Some (r, s', tr') \<Longrightarrow> P r s' tr') \<Longrightarrow>
   (\<And>s r s' tr tr'. P EUSTOR_OK s tr \<Longrightarrow> callback s None 1 tr = Some (r, s', tr') \<Longrightarrow> Q r s' tr') \<Longrightarrow>
   (\<And>r s tr. P r s tr \<Longrightarrow> r \<noteq> EUSTOR_OK \<Longrightarrow> Q r s tr) \<Longrightarrow>
   (\<And>r s c a tr. P r s tr \<Longrightarrow> c \<in> {File (Readdir dir), File (Closedir dir)} \<Longrightarrow> P r s (tr @ [Did c a])) \<Longrightarrow>
   P EUSTOR_OK s tr \<Longrightarrow> case y of (r, s', tr') \<Rightarrow> Q r s' tr'"
proof (induct rule: disk_list_loop.raw_induct [rotated, consumes 1, case_names step])
  case (step loop E dir dirname callback s tr y)
  define ent where "ent = E tr (File (Readdir dir))"
  define tr1 where "tr1 = tr @ [Did (File (Readdir dir)) ent]"
  have P1: "P EUSTOR_OK s tr1" unfolding tr1_def by (rule step.prems(4)) (use step.prems(5) in simp_all)
  have close: "P r s' t \<Longrightarrow> P r s' (just_call E (File (Closedir dir)) t)" for r s' t
    unfolding just_call_eq by (rule step.prems(4)) simp_all
  have body: "(if a_num ent = 0 then callback s None 1 (just_call E (File (Closedir dir)) tr1)
      else if cstr (a_data ent) = str ''.'' \<or> cstr (a_data ent) = str ''..''
      then loop E dir dirname callback s tr1
      else do {
        (res, s, tr) \<leftarrow> callback s (Some (list_path dirname (a_data ent))) 0 tr1;
        if res \<noteq> EUSTOR_OK then Some (res, s, just_call E (File (Closedir dir)) tr)
        else loop E dir dirname callback s tr
      }) = Some y"
    using step.hyps(2) unfolding ent_def tr1_def do_call_eq Let_def prod.case .
  show ?case
  proof (cases "a_num ent = 0")
    case True
    then show ?thesis using body close [OF P1] step.prems(2) by (cases y) auto
  next
    case more: False
    show ?thesis
    proof (cases "cstr (a_data ent) = str ''.'' \<or> cstr (a_data ent) = str ''..''")
      case True
      then have l: "loop E dir dirname callback s tr1 = Some y" using body more by simp
      show ?thesis
        by (rule step.hyps(1) [OF l])
          (erule (4) step.prems(1), erule (1) step.prems(2), erule (1) step.prems(3), erule (1) step.prems(4), rule P1)
    next
      case False
      then obtain res s1 tr2 where cb: "callback s (Some (list_path dirname (a_data ent))) 0 tr1 = Some (res, s1, tr2)"
        and rest: "(if res \<noteq> EUSTOR_OK then Some (res, s1, just_call E (File (Closedir dir)) tr2)
          else loop E dir dirname callback s1 tr2) = Some y"
        using body more by (auto simp: bind_eq_Some_conv)
      have Ps: "P res s1 tr2"
        by (rule step.prems(1) [OF P1 _ _ _ cb, of tr]) (use False in \<open>simp_all add: ent_def\<close>)
      show ?thesis
      proof (cases "res = EUSTOR_OK")
        case True
        then have l: "loop E dir dirname callback s1 tr2 = Some y" using rest by simp
        show ?thesis
          by (rule step.hyps(1) [OF l])
            (erule (4) step.prems(1), erule (1) step.prems(2), erule (1) step.prems(3), erule (1) step.prems(4), use Ps True in simp)
      next
        case False
        then show ?thesis using rest close [OF Ps] step.prems(3) by auto
      qed
    qed
  qed
qed

section \<open>Reading and writing return\<close>

text \<open>A read that is never interrupted returns: each round that goes on stores at least a byte.\<close>

definition no_retry :: "os \<Rightarrow> bool" where
  "no_retry E = (\<forall>tr c. a_ret (E tr (File c)) < 0 \<longrightarrow> a_errno (E tr (File c)) \<notin> {EINTR, EAGAIN})"

lemma disk_read_loop_total:
  "no_retry E \<Longrightarrow> int (length acc) < n \<Longrightarrow> \<exists>y. disk_read_loop E fd n trueRead acc tr = Some y"
proof (induction "nat n - length acc" arbitrary: acc tr rule: less_induct)
  case less
  obtain res data e t where r: "read_fd E fd (io_count n (int (length acc))) tr = (res, data, e, t)" by (metis prod_cases4)
  have d: "res < 0 \<longrightarrow> e \<notin> {EINTR, EAGAIN}" "0 \<le> res \<longrightarrow> res = int (length data)"
    using r less.prems(1) by (auto simp: read_fd_def do_call_eq no_retry_def split: if_splits)
  show ?case
  proof (cases "0 < res \<and> int (length (acc @ data)) < n")
    case True
    then have "length acc + length data < nat n" "data \<noteq> []" using d(2) by (auto simp: zless_nat_eq_int_zless)
    then have "nat n - length (acc @ data) < nat n - length acc" by simp (metis diff_less_mono2 length_greater_0_conv less_add_same_cancel1 less_trans)
    from less.hyps [OF this less.prems(1)] True obtain y where "disk_read_loop E fd n trueRead (acc @ data) t = Some y" by blast
    then show ?thesis using True r by (cases y) (subst disk_read_loop.simps, auto simp: Let_def)
  next
    case False
    then show ?thesis using d r by (subst disk_read_loop.simps) (auto simp: Let_def)
  qed
qed

lemma disk_read_total: "no_retry E \<Longrightarrow> 0 \<le> n \<Longrightarrow> \<exists>y. usDisk_diskRead E filename offset n trueRead tr = Some y"
  using disk_read_loop_total [of E "[]" n] by (auto simp: usDisk_diskRead_def case_prod_beta Let_def)

text \<open>A write returns when, besides, no write of something takes nothing.\<close>

definition write_progress :: "os \<Rightarrow> bool" where
  "write_progress E = (no_retry E \<and> (\<forall>tr fd data. data \<noteq> [] \<longrightarrow> a_ret (E tr (File (Write fd data))) \<noteq> 0))"

lemma disk_write_loop_total:
  "write_progress E \<Longrightarrow> 0 \<le> a \<Longrightarrow> a < n \<Longrightarrow> n < 2 ^ 31 \<Longrightarrow> off + nat n \<le> length mem \<Longrightarrow>
   \<exists>y. disk_write_loop E fd mem off n trueWrite a tr = Some y"
proof (induction "nat (n - a)" arbitrary: a tr rule: less_induct)
  case less
  let ?t = "fault_if (length mem < off + nat a + io_count n a) OutOfBounds tr"
  obtain res e t where r: "write_fd E fd (peek mem (off + nat a) (io_count n a)) ?t = (res, e, t)" by (metis prod_cases3)
  have c: "io_count n a = nat (n - a)" using io_count_pos less.prems by simp
  define P where "P = peek mem (off + nat a) (io_count n a)"
  then have "P \<noteq> []" using c less.prems by (simp add: peek_def)
  then have d: "res < 0 \<longrightarrow> e \<notin> {EINTR, EAGAIN}" "res \<noteq> 0"
    using r [folded P_def] less.prems(1) by (auto simp: write_fd_def do_call_eq no_retry_def write_progress_def min_def Let_def split: if_splits)
  show ?case
  proof (cases "0 < res \<and> a + res < n")
    case True
    then have "nat (n - (a + res)) < nat (n - a)" by auto
    from less.hyps [OF this] True less.prems obtain y where "disk_write_loop E fd mem off n trueWrite (a + res) t = Some y"
      by (metis add_nonneg_nonneg less_imp_le)
    then show ?thesis using True r by (cases y) (subst disk_write_loop.simps, auto simp: Let_def)
  next
    case False
    then show ?thesis using d r by (subst disk_write_loop.simps) (auto simp: Let_def)
  qed
qed

lemma disk_write_total:
  "write_progress E \<Longrightarrow> 0 \<le> n \<Longrightarrow> n < 2 ^ 31 \<Longrightarrow> off + nat n \<le> length mem \<Longrightarrow>
   \<exists>y. usDisk_diskWrite E filename mem off offset n trueWrite tr = Some y"
  using disk_write_loop_total [of E 0 n off mem] by (auto simp: usDisk_diskWrite_def case_prod_beta Let_def)

end
