(* ===== verification/Ustor_Digest.thy ===== *)
theory Ustor_Digest
  imports Ustor_Base
begin

text \<open>
  The two checksums of usFirmware.c: the table-driven CRC-32 over the serial number and license
  block, and the incremental MD5 over the firmware image. Each is compared with a reference
  that has neither table nor buffer: the CRC bit by bit, the MD5 over the padded message.
\<close>

unbundle bit_operations_syntax

section \<open>CRC-32\<close>

definition crc32_table :: "u32 list" where
  "crc32_table = [
    0x00000000, 0x77073096, 0xee0e612c, 0x990951ba, 0x076dc419, 0x706af48f, 0xe963a535, 0x9e6495a3,
    0x0edb8832, 0x79dcb8a4, 0xe0d5e91e, 0x97d2d988, 0x09b64c2b, 0x7eb17cbd, 0xe7b82d07, 0x90bf1d91,
    0x1db71064, 0x6ab020f2, 0xf3b97148, 0x84be41de, 0x1adad47d, 0x6ddde4eb, 0xf4d4b551, 0x83d385c7,
    0x136c9856, 0x646ba8c0, 0xfd62f97a, 0x8a65c9ec, 0x14015c4f, 0x63066cd9, 0xfa0f3d63, 0x8d080df5,
    0x3b6e20c8, 0x4c69105e, 0xd56041e4, 0xa2677172, 0x3c03e4d1, 0x4b04d447, 0xd20d85fd, 0xa50ab56b,
    0x35b5a8fa, 0x42b2986c, 0xdbbbc9d6, 0xacbcf940, 0x32d86ce3, 0x45df5c75, 0xdcd60dcf, 0xabd13d59,
    0x26d930ac, 0x51de003a, 0xc8d75180, 0xbfd06116, 0x21b4f4b5, 0x56b3c423, 0xcfba9599, 0xb8bda50f,
    0x2802b89e, 0x5f058808, 0xc60cd9b2, 0xb10be924, 0x2f6f7c87, 0x58684c11, 0xc1611dab, 0xb6662d3d,
    0x76dc4190, 0x01db7106, 0x98d220bc, 0xefd5102a, 0x71b18589, 0x06b6b51f, 0x9fbfe4a5, 0xe8b8d433,
    0x7807c9a2, 0x0f00f934, 0x9609a88e, 0xe10e9818, 0x7f6a0dbb, 0x086d3d2d, 0x91646c97, 0xe6635c01,
    0x6b6b51f4, 0x1c6c6162, 0x856530d8, 0xf262004e, 0x6c0695ed, 0x1b01a57b, 0x8208f4c1, 0xf50fc457,
    0x65b0d9c6, 0x12b7e950, 0x8bbeb8ea, 0xfcb9887c, 0x62dd1ddf, 0x15da2d49, 0x8cd37cf3, 0xfbd44c65,
    0x4db26158, 0x3ab551ce, 0xa3bc0074, 0xd4bb30e2, 0x4adfa541, 0x3dd895d7, 0xa4d1c46d, 0xd3d6f4fb,
    0x4369e96a, 0x346ed9fc, 0xad678846, 0xda60b8d0, 0x44042d73, 0x33031de5, 0xaa0a4c5f, 0xdd0d7cc9,
    0x5005713c, 0x270241aa, 0xbe0b1010, 0xc90c2086, 0x5768b525, 0x206f85b3, 0xb966d409, 0xce61e49f,
    0x5edef90e, 0x29d9c998, 0xb0d09822, 0xc7d7a8b4, 0x59b33d17, 0x2eb40d81, 0xb7bd5c3b, 0xc0ba6cad,
    0xedb88320, 0x9abfb3b6, 0x03b6e20c, 0x74b1d29a, 0xead54739, 0x9dd277af, 0x04db2615, 0x73dc1683,
    0xe3630b12, 0x94643b84, 0x0d6d6a3e, 0x7a6a5aa8, 0xe40ecf0b, 0x9309ff9d, 0x0a00ae27, 0x7d079eb1,
    0xf00f9344, 0x8708a3d2, 0x1e01f268, 0x6906c2fe, 0xf762575d, 0x806567cb, 0x196c3671, 0x6e6b06e7,
    0xfed41b76, 0x89d32be0, 0x10da7a5a, 0x67dd4acc, 0xf9b9df6f, 0x8ebeeff9, 0x17b7be43, 0x60b08ed5,
    0xd6d6a3e8, 0xa1d1937e, 0x38d8c2c4, 0x4fdff252, 0xd1bb67f1, 0xa6bc5767, 0x3fb506dd, 0x48b2364b,
    0xd80d2bda, 0xaf0a1b4c, 0x36034af6, 0x41047a60, 0xdf60efc3, 0xa867df55, 0x316e8eef, 0x4669be79,
    0xcb61b38c, 0xbc66831a, 0x256fd2a0, 0x5268e236, 0xcc0c7795, 0xbb0b4703, 0x220216b9, 0x5505262f,
    0xc5ba3bbe, 0xb2bd0b28, 0x2bb45a92, 0x5cb36a04, 0xc2d7ffa7, 0xb5d0cf31, 0x2cd99e8b, 0x5bdeae1d,
    0x9b64c2b0, 0xec63f226, 0x756aa39c, 0x026d930a, 0x9c0906a9, 0xeb0e363f, 0x72076785, 0x05005713,
    0x95bf4a82, 0xe2b87a14, 0x7bb12bae, 0x0cb61b38, 0x92d28e9b, 0xe5d5be0d, 0x7cdcefb7, 0x0bdbdf21,
    0x86d3d2d4, 0xf1d4e242, 0x68ddb3f8, 0x1fda836e, 0x81be16cd, 0xf6b9265b, 0x6fb077e1, 0x18b74777,
    0x88085ae6, 0xff0f6a70, 0x66063bca, 0x11010b5c, 0x8f659eff, 0xf862ae69, 0x616bffd3, 0x166ccf45,
    0xa00ae278, 0xd70dd2ee, 0x4e048354, 0x3903b3c2, 0xa7672661, 0xd06016f7, 0x4969474d, 0x3e6e77db,
    0xaed16a4a, 0xd9d65adc, 0x40df0b66, 0x37d83bf0, 0xa9bcae53, 0xdebb9ec5, 0x47b2cf7f, 0x30b5ffe9,
    0xbdbdf21c, 0xcabac28a, 0x53b39330, 0x24b4a3a6, 0xbad03605, 0xcdd70693, 0x54de5729, 0x23d967bf,
    0xb3667a2e, 0xc4614ab8, 0x5d681b02, 0x2a6f2b94, 0xb40bbe37, 0xc30c8ea1, 0x5a05df1b, 0x2d02ef8d]"

text \<open>\<open>s\<close> is the \<open>len\<close> bytes at \<open>ss\<close>.\<close>

fun crc32 :: "u32 \<Rightarrow> bytes \<Rightarrow> u32" where
  "crc32 val [] = val"
| "crc32 val (b # s) = crc32 (crc32_table ! unat ((val XOR ucast b) AND 0xff) XOR drop_bit 8 val) s"

text \<open>The reference: one step per bit of the reflected polynomial division.\<close>

definition crc_bit :: "u32 \<Rightarrow> u32" where
  "crc_bit v = (if bit v 0 then drop_bit 1 v XOR 0xedb88320 else drop_bit 1 v)"

definition crc_byte :: "u32 \<Rightarrow> u8 \<Rightarrow> u32" where
  "crc_byte v b = (crc_bit ^^ 8) (v XOR ucast b)"

section \<open>MD5\<close>

type_synonym md5_state = "u32 \<times> u32 \<times> u32 \<times> u32"

record MD5_CTX =
  md_count0 :: u32
  md_count1 :: u32
  md_state :: md5_state
  md_buffer :: bytes

definition md5_F :: "u32 \<Rightarrow> u32 \<Rightarrow> u32 \<Rightarrow> u32" where "md5_F x y z = (x AND y) OR (NOT x AND z)"
definition md5_G :: "u32 \<Rightarrow> u32 \<Rightarrow> u32 \<Rightarrow> u32" where "md5_G x y z = (x AND z) OR (y AND NOT z)"
definition md5_H :: "u32 \<Rightarrow> u32 \<Rightarrow> u32 \<Rightarrow> u32" where "md5_H x y z = x XOR y XOR z"
definition md5_I :: "u32 \<Rightarrow> u32 \<Rightarrow> u32 \<Rightarrow> u32" where "md5_I x y z = y XOR (x OR NOT z)"

definition ROTATE_LEFT :: "u32 \<Rightarrow> nat \<Rightarrow> u32" where
  "ROTATE_LEFT x n = push_bit n x OR drop_bit (32 - n) x"

text \<open>
  The 64 steps: round function, word of the block, rotation and constant. Step \<open>XX(a, b, c, d, x, s, ac)\<close>
  changes its first variable only, and the next step has the variables one place further
  round, so a step is followed by the rotation of the four.
\<close>

definition md5_steps :: "((u32 \<Rightarrow> u32 \<Rightarrow> u32 \<Rightarrow> u32) \<times> nat \<times> nat \<times> u32) list" where
  "md5_steps = [
    (md5_F, 0, 7, 0xd76aa478), (md5_F, 1, 12, 0xe8c7b756), (md5_F, 2, 17, 0x242070db), (md5_F, 3, 22, 0xc1bdceee),
    (md5_F, 4, 7, 0xf57c0faf), (md5_F, 5, 12, 0x4787c62a), (md5_F, 6, 17, 0xa8304613), (md5_F, 7, 22, 0xfd469501),
    (md5_F, 8, 7, 0x698098d8), (md5_F, 9, 12, 0x8b44f7af), (md5_F, 10, 17, 0xffff5bb1), (md5_F, 11, 22, 0x895cd7be),
    (md5_F, 12, 7, 0x6b901122), (md5_F, 13, 12, 0xfd987193), (md5_F, 14, 17, 0xa679438e), (md5_F, 15, 22, 0x49b40821),
    (md5_G, 1, 5, 0xf61e2562), (md5_G, 6, 9, 0xc040b340), (md5_G, 11, 14, 0x265e5a51), (md5_G, 0, 20, 0xe9b6c7aa),
    (md5_G, 5, 5, 0xd62f105d), (md5_G, 10, 9, 0x2441453), (md5_G, 15, 14, 0xd8a1e681), (md5_G, 4, 20, 0xe7d3fbc8),
    (md5_G, 9, 5, 0x21e1cde6), (md5_G, 14, 9, 0xc33707d6), (md5_G, 3, 14, 0xf4d50d87), (md5_G, 8, 20, 0x455a14ed),
    (md5_G, 13, 5, 0xa9e3e905), (md5_G, 2, 9, 0xfcefa3f8), (md5_G, 7, 14, 0x676f02d9), (md5_G, 12, 20, 0x8d2a4c8a),
    (md5_H, 5, 4, 0xfffa3942), (md5_H, 8, 11, 0x8771f681), (md5_H, 11, 16, 0x6d9d6122), (md5_H, 14, 23, 0xfde5380c),
    (md5_H, 1, 4, 0xa4beea44), (md5_H, 4, 11, 0x4bdecfa9), (md5_H, 7, 16, 0xf6bb4b60), (md5_H, 10, 23, 0xbebfbc70),
    (md5_H, 13, 4, 0x289b7ec6), (md5_H, 0, 11, 0xeaa127fa), (md5_H, 3, 16, 0xd4ef3085), (md5_H, 6, 23, 0x4881d05),
    (md5_H, 9, 4, 0xd9d4d039), (md5_H, 12, 11, 0xe6db99e5), (md5_H, 15, 16, 0x1fa27cf8), (md5_H, 2, 23, 0xc4ac5665),
    (md5_I, 0, 6, 0xf4292244), (md5_I, 7, 10, 0x432aff97), (md5_I, 14, 15, 0xab9423a7), (md5_I, 5, 21, 0xfc93a039),
    (md5_I, 12, 6, 0x655b59c3), (md5_I, 3, 10, 0x8f0ccc92), (md5_I, 10, 15, 0xffeff47d), (md5_I, 1, 21, 0x85845dd1),
    (md5_I, 8, 6, 0x6fa87e4f), (md5_I, 15, 10, 0xfe2ce6e0), (md5_I, 6, 15, 0xa3014314), (md5_I, 13, 21, 0x4e0811a1),
    (md5_I, 4, 6, 0xf7537e82), (md5_I, 11, 10, 0xbd3af235), (md5_I, 2, 15, 0x2ad7d2bb), (md5_I, 9, 21, 0xeb86d391)]"

definition md5_step :: "u32 list \<Rightarrow> (u32 \<Rightarrow> u32 \<Rightarrow> u32 \<Rightarrow> u32) \<times> nat \<times> nat \<times> u32 \<Rightarrow> md5_state \<Rightarrow> md5_state" where
  "md5_step x = (\<lambda>(f, k, s, ac) (a, b, c, d). (d, ROTATE_LEFT (a + f b c d + x ! k + ac) s + b, b, c))"

text \<open>\<open>MD5Decode\<close> and \<open>MD5Encode\<close> on \<open>len\<close> bytes, a multiple of 4.\<close>

definition MD5Decode :: "bytes \<Rightarrow> u32 list" where
  "MD5Decode input = map (\<lambda>i. ucast (input ! (4 * i)) OR push_bit 8 (ucast (input ! (4 * i + 1))) OR
     push_bit 16 (ucast (input ! (4 * i + 2))) OR push_bit 24 (ucast (input ! (4 * i + 3))))
     [0..<length input div 4]"

definition MD5Encode :: "u32 list \<Rightarrow> bytes" where
  "MD5Encode input = concat (map (\<lambda>w. [ucast (w AND 0xFF), ucast (drop_bit 8 w AND 0xFF),
     ucast (drop_bit 16 w AND 0xFF), ucast (drop_bit 24 w AND 0xFF)]) input)"

definition MD5Transform :: "md5_state \<Rightarrow> bytes \<Rightarrow> md5_state" where
  "MD5Transform st block =
     (let (a, b, c, d) = fold (md5_step (MD5Decode block)) md5_steps st
      in (fst st + a, fst (snd st) + b, fst (snd (snd st)) + c, snd (snd (snd st)) + d))"

definition md5_init_state :: md5_state where
  "md5_init_state = (0x67452301, 0xEFCDAB89, 0x98BADCFE, 0x10325476)"

text \<open>\<open>MD5Init\<close> leaves the buffer as it was.\<close>

definition MD5Init :: "MD5_CTX \<Rightarrow> MD5_CTX" where
  "MD5Init ctx = ctx\<lparr>md_count0 := 0, md_count1 := 0, md_state := md5_init_state\<rparr>"

text \<open>The loop over the whole blocks of the input: the state, and the input that is left.\<close>

fun md5_blocks :: "md5_state \<Rightarrow> bytes \<Rightarrow> md5_state \<times> bytes" where
  "md5_blocks st input =
     (if 64 \<le> length input then md5_blocks (MD5Transform st (take 64 input)) (drop 64 input) else (st, input))"

definition MD5Update :: "MD5_CTX \<Rightarrow> bytes \<Rightarrow> MD5_CTX" where
  "MD5Update ctx input =
     (let index = unat (drop_bit 3 (md_count0 ctx) AND 0x3F); partlen = 64 - index;
          inputlen = of_nat (length input) :: u32;
          count0 = md_count0 ctx + push_bit 3 inputlen;
          count1 = (if count0 < push_bit 3 inputlen then md_count1 ctx + 1 else md_count1 ctx);
          ctx = ctx\<lparr>md_count0 := count0, md_count1 := count1 + drop_bit 29 inputlen\<rparr>
      in if partlen \<le> length input then
           let buffer = poke (md_buffer ctx) index (take partlen input);
               (st, rest) = md5_blocks (MD5Transform (md_state ctx) buffer) (drop partlen input)
           in ctx\<lparr>md_state := st, md_buffer := poke buffer 0 rest\<rparr>
         else ctx\<lparr>md_buffer := poke (md_buffer ctx) index input\<rparr>)"

definition PADDING :: bytes where "PADDING = 0x80 # replicate 63 0"

definition state_words :: "md5_state \<Rightarrow> u32 list" where
  "state_words st = (case st of (a, b, c, d) \<Rightarrow> [a, b, c, d])"

definition MD5Final :: "MD5_CTX \<Rightarrow> MD5_CTX \<times> bytes" where
  "MD5Final ctx =
     (let index = unat (drop_bit 3 (md_count0 ctx) AND 0x3F);
          padlen = (if index < 56 then 56 - index else 120 - index);
          bits = MD5Encode [md_count0 ctx, md_count1 ctx];
          ctx = MD5Update ctx (take padlen PADDING);
          ctx = MD5Update ctx bits
      in (ctx, MD5Encode (state_words (md_state ctx))))"

section \<open>The CRC table is the bitwise CRC\<close>

text \<open>
  One step is linear over \<open>XOR\<close>, so eight steps split into those on the low byte, which the
  table has, and those on the rest, which only shift.
\<close>

lemma crc_bit_num:
  "crc_bit 0 = 0" "crc_bit 1 = 0xedb88320"
  "crc_bit (numeral (Num.Bit0 n)) = drop_bit 1 (numeral (Num.Bit0 n))"
  "crc_bit (numeral (Num.Bit1 n)) = drop_bit 1 (numeral (Num.Bit1 n)) XOR 0xedb88320"
  by (simp_all add: crc_bit_def)

lemma crc8: "(crc_bit ^^ 8) v = crc_bit (crc_bit (crc_bit (crc_bit (crc_bit (crc_bit (crc_bit (crc_bit v)))))))"
  by (simp add: eval_nat_numeral)

lemma crc_table: "crc32_table = map (\<lambda>i. (crc_bit ^^ 8) (of_nat i)) [0..<256]"
proof -
  have "[0..<256] = 0 # 1 # [2..<256]" by (simp add: upt_conv_Cons del: upt_rec_numeral)
  then show ?thesis by (simp add: crc8 crc_bit_num crc32_table_def)
qed

lemma crc_bit_xor: "crc_bit (a XOR b) = crc_bit a XOR crc_bit b"
  by (auto simp: crc_bit_def bit_xor_iff drop_bit_xor xor.assoc xor.left_commute xor.commute)

lemma crc_bits_xor: "(crc_bit ^^ n) (a XOR b) = (crc_bit ^^ n) a XOR (crc_bit ^^ n) b"
  by (induction n) (simp_all add: crc_bit_xor)

lemma crc_bits_shift: "\<forall>i<n. \<not> bit v i \<Longrightarrow> (crc_bit ^^ n) v = drop_bit n v"
  by (induction n) (simp_all add: crc_bit_def bit_drop_bit_eq)

lemma low_byte: "unat (x AND 0xff :: u32) < 256"
  using word_and_le1 [of x "0xff"] by (simp add: word_le_nat_alt)

lemma crc_table_step: "crc32_table ! unat (x AND 0xff) XOR drop_bit 8 x = (crc_bit ^^ 8) x"
proof -
  have x: "x = (x AND 0xff) XOR (x AND NOT 0xff)"
    by (rule bit_word_eqI) (auto simp: bit_simps)
  have high: "\<forall>i<8. \<not> bit (x AND NOT 0xff) i"
  proof (intro allI impI)
    fix i :: nat assume i: "i < 8"
    have "(0xff :: u32) = mask 8" by (simp add: mask_eq_exp_minus_1)
    then show "\<not> bit (x AND NOT 0xff) i" using i by (simp only: bit_and_iff bit_not_iff bit_mask_iff) simp
  qed
  have "drop_bit 8 (x AND NOT 0xff) = drop_bit 8 x"
  proof -
    have "(0xff :: u32) = mask 8" by (simp add: mask_eq_exp_minus_1)
    then show ?thesis by (intro bit_word_eqI) (simp only: bit_drop_bit_eq o_def bit_and_iff bit_not_iff bit_mask_iff, auto dest: bit_imp_le_length)
  qed
  then have "(crc_bit ^^ 8) (x AND NOT 0xff) = drop_bit 8 x" using crc_bits_shift [OF high] by simp
  moreover have "crc32_table ! unat (x AND 0xff) = (crc_bit ^^ 8) (x AND 0xff)"
    using low_byte [of x] by (simp add: crc_table del: upt_rec_numeral)
  ultimately show ?thesis by (subst (3) x) (simp only: crc_bits_xor)
qed

lemma crc32_bitwise: "crc32 v s = fold (\<lambda>b v. crc_byte v b) s v"
proof (induction v s rule: crc32.induct)
  case (2 v b s)
  have "drop_bit 8 (v XOR ucast b) = drop_bit 8 v"
    by (rule bit_word_eqI) (auto simp: bit_simps dest: bit_imp_le_length)
  then show ?case using 2 crc_table_step [of "v XOR ucast b"] by (simp add: crc_byte_def)
qed simp

section \<open>MD5 is the digest of the padded message\<close>

declare md5_blocks.simps [simp del]

lemma md5_blocks_append:
  "md5_blocks st (a @ b) = (let (st', r) = md5_blocks st a in md5_blocks st' (r @ b))"
proof (induction st a rule: md5_blocks.induct)
  case (1 st a)
  show ?case
  proof (cases "64 \<le> length a")
    case True
    then show ?thesis
      using 1 by (subst (1 2) md5_blocks.simps) simp
  next
    case False
    then show ?thesis by (subst (2) md5_blocks.simps) simp
  qed
qed

lemma md5_blocks_rest: "length (snd (md5_blocks st a)) = length a mod 64"
proof (induction st a rule: md5_blocks.induct)
  case (1 st a)
  show ?case
  proof (cases "64 \<le> length a")
    case True
    then have "length a mod 64 = (length a - 64) mod 64" by (simp add: le_mod_geq)
    then show ?thesis using 1 True by (subst md5_blocks.simps) simp
  next
    case False
    then show ?thesis by (subst md5_blocks.simps) simp
  qed
qed

definition md5_rep :: "MD5_CTX \<Rightarrow> bytes \<Rightarrow> bool" where
  "md5_rep ctx msg \<longleftrightarrow>
     unat (md_count0 ctx) = 8 * length msg mod 2 ^ 32 \<and>
     unat (md_count1 ctx) = 8 * length msg div 2 ^ 32 mod 2 ^ 32 \<and>
     length (md_buffer ctx) = 64 \<and>
     md_state ctx = fst (md5_blocks md5_init_state msg) \<and>
     take (length msg mod 64) (md_buffer ctx) = snd (md5_blocks md5_init_state msg)"

lemma md5_index:
  assumes "unat c = 8 * n mod 2 ^ 32"
  shows "unat (drop_bit 3 c AND 0x3F :: u32) = n mod 64"
proof -
  have "(0x3F :: u32) = mask 6" by (simp add: mask_eq_exp_minus_1)
  then have "drop_bit 3 c AND 0x3F = take_bit 6 (drop_bit 3 c)" by (simp add: take_bit_eq_mask)
  moreover have "unat (take_bit 6 (drop_bit 3 c)) = unat (drop_bit 3 c) mod 64"
    by (simp only: unsigned_take_bit_eq) (simp add: take_bit_eq_mod)
  moreover have "unat (drop_bit 3 c) = unat c div 8" by (simp only: unat_drop_bit_eq) (simp add: drop_bit_eq_div)
  ultimately have "unat (drop_bit 3 c AND 0x3F) = unat c div 8 mod 64" by simp
  also have "\<dots> = n mod 64"
  proof -
    have "8 * n mod 2 ^ 32 = 8 * (n mod 2 ^ 29)" using mult_mod_right [of 8 n "2 ^ 29"] by simp
    then show ?thesis using assms by (simp add: mod_mod_cancel)
  qed
  finally show ?thesis .
qed

lemma unat_of_length: "n < 2 ^ 32 \<Longrightarrow> unat (of_nat n :: u32) = n"
  by (simp add: unsigned_of_nat take_bit_nat_eq_self)

lemma unat_mult_8: "unat (x * 2 ^ 3 :: u32) = 8 * unat x mod 2 ^ 32"
  by (simp add: unat_word_ariths mult.commute)

lemma md5_count0:
  assumes "unat c = L mod 2 ^ 32" "n < 2 ^ 32"
  shows "unat (c + push_bit 3 (of_nat n) :: u32) = (L + 8 * n) mod 2 ^ 32"
    and "c + push_bit 3 (of_nat n) < push_bit 3 (of_nat n :: u32) \<longleftrightarrow> 2 ^ 32 \<le> L mod 2 ^ 32 + 8 * n mod 2 ^ 32"
proof -
  have p: "unat (push_bit 3 (of_nat n) :: u32) = 8 * n mod 2 ^ 32"
    by (simp only: push_bit_eq_mult unat_mult_8 unat_of_length [OF assms(2)])
  show s: "unat (c + push_bit 3 (of_nat n) :: u32) = (L + 8 * n) mod 2 ^ 32"
    unfolding unat_word_ariths p assms(1) by (simp add: mod_add_eq)
  have "c + push_bit 3 (of_nat n) < push_bit 3 (of_nat n :: u32) \<longleftrightarrow>
      (L mod 2 ^ 32 + 8 * n mod 2 ^ 32) mod 2 ^ 32 < 8 * n mod 2 ^ 32"
    unfolding word_less_nat_alt s p by (simp add: mod_add_eq)
  also have "\<dots> \<longleftrightarrow> 2 ^ 32 \<le> L mod 2 ^ 32 + 8 * n mod 2 ^ 32"
  proof (cases "2 ^ 32 \<le> L mod 2 ^ 32 + 8 * n mod 2 ^ 32")
    case True
    have "L mod 2 ^ 32 < 2 ^ 32" "8 * n mod 2 ^ 32 < 2 ^ 32" by simp_all
    then have "(L mod 2 ^ 32 + 8 * n mod 2 ^ 32) mod 2 ^ 32 = L mod 2 ^ 32 + 8 * n mod 2 ^ 32 - 2 ^ 32"
      using True by (simp add: le_mod_geq)
    then show ?thesis using True \<open>L mod 2 ^ 32 < 2 ^ 32\<close> by linarith
  next
    case False
    then show ?thesis by (simp add: not_le)
  qed
  finally show "c + push_bit 3 (of_nat n) < push_bit 3 (of_nat n :: u32) \<longleftrightarrow> 2 ^ 32 \<le> L mod 2 ^ 32 + 8 * n mod 2 ^ 32" .
qed

lemma md5_count1:
  assumes "unat c = L div 2 ^ 32 mod 2 ^ 32" "n < 2 ^ 32"
  shows "unat ((if 2 ^ 32 \<le> L mod 2 ^ 32 + 8 * n mod 2 ^ 32 then c + 1 else c) + drop_bit 29 (of_nat n) :: u32) =
    (L + 8 * n) div 2 ^ 32 mod 2 ^ 32"
proof -
  have d: "unat (drop_bit 29 (of_nat n) :: u32) = 8 * n div 2 ^ 32"
    using assms(2) by (simp only: unat_drop_bit_eq unat_of_length) (simp add: drop_bit_eq_div)
  have s: "(L + 8 * n) div 2 ^ 32 = L div 2 ^ 32 + 8 * n div 2 ^ 32 +
      (if 2 ^ 32 \<le> L mod 2 ^ 32 + 8 * n mod 2 ^ 32 then 1 else 0)"
  proof -
    have "L mod 2 ^ 32 < 2 ^ 32" "8 * n mod 2 ^ 32 < 2 ^ 32" by simp_all
    then have "(L mod 2 ^ 32 + 8 * n mod 2 ^ 32) div 2 ^ 32 =
        (if 2 ^ 32 \<le> L mod 2 ^ 32 + 8 * n mod 2 ^ 32 then 1 else 0)" by (simp add: le_div_geq)
    then show ?thesis by (simp add: div_add1_eq [of L "8 * n"])
  qed
  have mods: "((a mod M + 1) mod M + b) mod M = (a + b + 1) mod M" "(a mod M + b) mod M = (a + b) mod M" for a b M :: nat
    by (simp_all add: mod_simps ac_simps)
  show ?thesis
  proof (cases "2 ^ 32 \<le> L mod 2 ^ 32 + 8 * n mod 2 ^ 32")
    case True
    then have "unat (c + 1 + drop_bit 29 (of_nat n) :: u32) = ((L div 2 ^ 32 mod 2 ^ 32 + 1) mod 2 ^ 32 + 8 * n div 2 ^ 32) mod 2 ^ 32"
      by (simp only: unat_word_ariths d assms(1) unat_1) simp
    then show ?thesis using True unfolding s mods by (simp only: if_True ac_simps)
  next
    case False
    then have "unat (c + drop_bit 29 (of_nat n) :: u32) = (L div 2 ^ 32 mod 2 ^ 32 + 8 * n div 2 ^ 32) mod 2 ^ 32"
      by (simp only: unat_word_ariths d assms(1)) simp
    then show ?thesis using False unfolding s mods by (simp only: if_False add_0_right)
  qed
qed
lemma md5_init_rep: "length (md_buffer ctx) = 64 \<Longrightarrow> md5_rep (MD5Init ctx) []"
  by (simp add: md5_rep_def MD5Init_def md5_blocks.simps [of _ "[]"])

text \<open>Feeding a chunk to the context is appending it to the message.\<close>

lemma md5_update_rep:
  assumes rep: "md5_rep ctx msg" and n: "length input < 2 ^ 32"
  shows "md5_rep (MD5Update ctx input) (msg @ input)"
proof -
  define n where "n = length input"
  define r where "r = snd (md5_blocks md5_init_state msg)"
  define st where "st = md_state ctx"
  have blocks: "md5_blocks md5_init_state msg = (st, r)"
    using rep by (simp add: md5_rep_def r_def st_def)
  have lr: "length r = length msg mod 64" by (simp add: r_def md5_blocks_rest)
  have index: "unat (drop_bit 3 (md_count0 ctx) AND 0x3F) = length r"
    using rep by (simp add: lr md5_rep_def md5_index)
  have buf: "length (md_buffer ctx) = 64" "take (length r) (md_buffer ctx) = r"
    using rep unfolding lr by (simp_all add: md5_rep_def r_def)
  have lt: "length r < 64" by (simp add: lr)
  have app: "md5_blocks md5_init_state (msg @ input) = md5_blocks st (r @ input)"
    using md5_blocks_append [of md5_init_state msg input] by (simp add: blocks)
  define ctx1 where "ctx1 = ctx\<lparr>md_count0 := md_count0 ctx + push_bit 3 (of_nat n),
    md_count1 := (if md_count0 ctx + push_bit 3 (of_nat n) < push_bit 3 (of_nat n) then md_count1 ctx + 1
      else md_count1 ctx) + drop_bit 29 (of_nat n)\<rparr>"
  have len: "8 * length (msg @ input) = 8 * length msg + 8 * n" by (simp add: n_def)
  have c: "unat (md_count0 ctx) = 8 * length msg mod 2 ^ 32" "unat (md_count1 ctx) = 8 * length msg div 2 ^ 32 mod 2 ^ 32"
    using rep unfolding md5_rep_def by blast+
  have "md_count0 ctx1 = md_count0 ctx + push_bit 3 (of_nat n)" by (simp add: ctx1_def)
  then have "unat (md_count0 ctx1) = 8 * length (msg @ input) mod 2 ^ 32"
    unfolding len using md5_count0(1) [OF c(1) assms(2) [folded n_def]] by (simp only:)
  moreover have "md_count1 ctx1 = (if 2 ^ 32 \<le> 8 * length msg mod 2 ^ 32 + 8 * n mod 2 ^ 32 then md_count1 ctx + 1
      else md_count1 ctx) + drop_bit 29 (of_nat n)"
    unfolding ctx1_def md5_count0(2) [OF c(1) assms(2) [folded n_def], symmetric] by simp
  then have "unat (md_count1 ctx1) = 8 * length (msg @ input) div 2 ^ 32 mod 2 ^ 32"
    unfolding len using md5_count1 [OF c(2) assms(2) [folded n_def]] by (simp only:)
  ultimately have counts: "unat (md_count0 ctx1) = 8 * length (msg @ input) mod 2 ^ 32"
    "unat (md_count1 ctx1) = 8 * length (msg @ input) div 2 ^ 32 mod 2 ^ 32" by (simp_all only:)
  show ?thesis
  proof (cases "64 - length r \<le> length input")
    case True
    define part where "part = take (64 - length r) input"
    have whole: "poke (md_buffer ctx) (length r) part = r @ part"
      using True buf lt by (simp add: poke_def part_def)
    have b: "md5_blocks st (r @ input) = md5_blocks (MD5Transform st (r @ part)) (drop (64 - length r) input)"
    proof -
      have "64 \<le> length (r @ input)" using True by simp
      then show ?thesis using lt by (subst md5_blocks.simps) (simp add: part_def)
    qed
    obtain st2 rest where st2: "md5_blocks (MD5Transform st (r @ part)) (drop (64 - length r) input) = (st2, rest)"
      by fastforce
    have upd: "MD5Update ctx input = ctx1\<lparr>md_state := st2, md_buffer := poke (r @ part) 0 rest\<rparr>"
      using True whole st2 by (simp add: MD5Update_def Let_def index ctx1_def n_def part_def st_def)
    have "snd (md5_blocks md5_init_state (msg @ input)) = rest" using app b st2 by simp
    then have lrest: "length rest = length (msg @ input) mod 64" using md5_blocks_rest by metis
    have lw: "length (r @ part) = 64" using True lt by (simp add: part_def)
    have "length rest < 64" by (simp add: lrest)
    then have "length (poke (r @ part) 0 rest) = 64" "take (length rest) (poke (r @ part) 0 rest) = rest"
      using lw by (simp_all add: poke_def)
    then show ?thesis
      using counts app b st2 lrest by (simp add: md5_rep_def upd)
  next
    case False
    have "md5_blocks st (r @ input) = (st, r @ input)"
    proof -
      have "\<not> 64 \<le> length (r @ input)" using False by simp
      then show ?thesis by (subst md5_blocks.simps) simp
    qed
    moreover have upd: "MD5Update ctx input = ctx1\<lparr>md_buffer := poke (md_buffer ctx) (length r) input\<rparr>"
      using False by (simp add: MD5Update_def Let_def index ctx1_def n_def)
    moreover have "length (poke (md_buffer ctx) (length r) input) = 64"
      using False buf by (simp add: length_poke)
    moreover have "take (length (r @ input)) (poke (md_buffer ctx) (length r) input) = r @ input"
      using buf by (simp add: poke_def)
    moreover have "length (r @ input) = length (msg @ input) mod 64"
      using calculation(1) app md5_blocks_rest [of md5_init_state "msg @ input"] by simp
    ultimately show ?thesis
      using counts app by (simp add: md5_rep_def st_def ctx1_def)
  qed
qed

text \<open>The reference: the digest of the padded message, with its length in bits at the end.\<close>

definition md5_pad :: "bytes \<Rightarrow> bytes" where
  "md5_pad msg = msg @ 0x80 # replicate ((119 - length msg mod 64) mod 64) 0 @ put64 (of_nat (8 * length msg))"

definition md5 :: "bytes \<Rightarrow> bytes" where
  "md5 msg = MD5Encode (state_words (fst (md5_blocks md5_init_state (md5_pad msg))))"

lemma le_bytes_mod: "le_bytes n (x mod 256 ^ n) = le_bytes n x"
  using le_bytes_le_nat [of "le_bytes n x"] by (simp add: le_nat_le_bytes)

lemma le_bytes_add: "le_bytes (m + n) x = le_bytes m x @ le_bytes n (x div 256 ^ m)"
  by (induction m arbitrary: x) (simp_all add: div_mult2_eq)

lemma ucast_low_byte: "(ucast (w AND 0xFF :: u32) :: u8) = of_nat (unat w)"
proof -
  have "(0xFF :: u32) = mask 8" by (simp add: mask_eq_exp_minus_1)
  then have "(ucast (w AND 0xFF) :: u8) = ucast w"
    by (intro bit_word_eqI) (simp only: bit_ucast_iff bit_and_iff bit_mask_iff, auto)
  then show ?thesis by simp
qed

lemma le_bytes_4:
  "le_bytes 4 x = [of_nat x, of_nat (x div 2 ^ 8), of_nat (x div 2 ^ 16), of_nat (x div 2 ^ 24)]"
proof -
  have "(4::nat) = Suc (Suc (Suc (Suc 0)))" by simp
  moreover have "x div 256 div 256 = x div 2 ^ 16" "x div 256 div 256 div 256 = x div 2 ^ 24"
    by (simp_all flip: div_mult2_eq)
  ultimately show ?thesis by (simp only: le_bytes.simps) simp
qed

lemma MD5Encode_Cons: "MD5Encode (w # ws) = le_bytes 4 (unat w) @ MD5Encode ws"
proof -
  have "unat (drop_bit k w) = unat w div 2 ^ k" for k
    by (simp only: unat_drop_bit_eq) (simp add: drop_bit_eq_div)
  then show ?thesis by (simp only: MD5Encode_def list.map concat.simps ucast_low_byte le_bytes_4)
qed

lemma md5_bits:
  assumes "md5_rep ctx msg"
  shows "MD5Encode [md_count0 ctx, md_count1 ctx] = put64 (of_nat (8 * length msg))"
proof -
  let ?L = "8 * length msg"
  have "MD5Encode [md_count0 ctx, md_count1 ctx] = le_bytes 4 (?L mod 2 ^ 32) @ le_bytes 4 (?L div 2 ^ 32 mod 2 ^ 32)"
    using assms unfolding md5_rep_def by (simp only: MD5Encode_Cons) (simp add: MD5Encode_def)
  also have "\<dots> = le_bytes 8 ?L"
    using le_bytes_add [of 4 4 ?L] le_bytes_mod [of 4 ?L] le_bytes_mod [of 4 "?L div 2 ^ 32"] by simp
  also have "\<dots> = le_bytes 8 (?L mod 2 ^ 64)" using le_bytes_mod [of 8 ?L] by simp
  finally show ?thesis unfolding put64_def unat_of_nat by simp
qed

lemma md5_final:
  assumes rep: "md5_rep ctx msg"
  shows "snd (MD5Final ctx) = md5 msg"
proof -
  have index: "unat (drop_bit 3 (md_count0 ctx) AND 0x3F) = length msg mod 64"
    using rep by (simp add: md5_rep_def md5_index)
  define k where "k = length msg mod 64"
  define padlen where "padlen = (if k < 56 then 56 - k else 120 - k)"
  have k: "k < 64" by (simp add: k_def)
  have pad: "take padlen PADDING = 0x80 # replicate ((119 - k) mod 64) 0"
  proof -
    have "padlen = Suc ((119 - k) mod 64)" "padlen \<le> 64"
      using k by (auto simp: padlen_def le_mod_geq)
    then show ?thesis by (simp add: PADDING_def)
  qed
  have bits: "MD5Encode [md_count0 ctx, md_count1 ctx] = put64 (of_nat (8 * length msg))"
    using md5_bits [OF rep] .
  have "length (take padlen PADDING) < 2 ^ 32" by (simp add: PADDING_def)
  note r1 = md5_update_rep [OF rep this]
  have "length (MD5Encode [md_count0 ctx, md_count1 ctx]) < 2 ^ 32" by (simp add: bits)
  note r2 = md5_update_rep [OF r1 this]
  have "(msg @ take padlen PADDING) @ MD5Encode [md_count0 ctx, md_count1 ctx] = md5_pad msg"
    by (simp add: bits md5_pad_def pad k_def)
  then have "md_state (MD5Update (MD5Update ctx (take padlen PADDING)) (MD5Encode [md_count0 ctx, md_count1 ctx])) =
      fst (md5_blocks md5_init_state (md5_pad msg))"
    using r2 by (simp add: md5_rep_def)
  then show ?thesis
    by (simp only: MD5Final_def Let_def index md5_def padlen_def k_def snd_conv)
qed

section \<open>The digest of the empty message\<close>

lemma le_bytes_numeral [simp]: "le_bytes (numeral k) x = of_nat x # le_bytes (pred_numeral k) (x div 256)"
  by (simp only: numeral_eq_Suc le_bytes.simps)

lemma md5_pad_empty: "md5_pad [] = 0x80 # replicate 63 0"
proof -
  have "put64 0 = [0, 0, 0, 0, 0, 0, 0, 0]" by (simp add: put64_def)
  also have "\<dots> = replicate 8 0" by (simp add: eval_nat_numeral)
  finally have "put64 0 = replicate 8 0" .
  then show ?thesis by (simp add: md5_pad_def flip: replicate_add)
qed

lemmas md5_round_defs = md5_step_def md5_F_def md5_G_def md5_H_def md5_I_def ROTATE_LEFT_def

lemma md5_empty_round1:
  "fold (md5_step [0x80, 0, 0, 0, 0, 0, 0, 0, 0, 0, 0, 0, 0, 0, 0, 0]) (take 16 (drop 0 md5_steps))
     (0x67452301, 0xefcdab89, 0x98badcfe, 0x10325476) =
     (0xf56c7cf1, 0xd6819c6a, 0x5aa53f75, 0x374943a7)"
proof -
  have "take 16 (drop 0 md5_steps) = [(md5_F, 0, 7, 0xd76aa478), (md5_F, 1, 12, 0xe8c7b756), (md5_F, 2, 17, 0x242070db), (md5_F, 3, 22, 0xc1bdceee),
    (md5_F, 4, 7, 0xf57c0faf), (md5_F, 5, 12, 0x4787c62a), (md5_F, 6, 17, 0xa8304613), (md5_F, 7, 22, 0xfd469501),
    (md5_F, 8, 7, 0x698098d8), (md5_F, 9, 12, 0x8b44f7af), (md5_F, 10, 17, 0xffff5bb1), (md5_F, 11, 22, 0x895cd7be),
    (md5_F, 12, 7, 0x6b901122), (md5_F, 13, 12, 0xfd987193), (md5_F, 14, 17, 0xa679438e), (md5_F, 15, 22, 0x49b40821)]"
    by (simp add: md5_steps_def)
  then show ?thesis by (simp only:) (simp add: md5_round_defs)
qed

lemma md5_empty_round2:
  "fold (md5_step [0x80, 0, 0, 0, 0, 0, 0, 0, 0, 0, 0, 0, 0, 0, 0, 0]) (take 16 (drop 16 md5_steps))
     (0xf56c7cf1, 0xd6819c6a, 0x5aa53f75, 0x374943a7) =
     (0x13707036, 0xa2205f1f, 0x1c31c384, 0xae7813db)"
proof -
  have "take 16 (drop 16 md5_steps) = [(md5_G, 1, 5, 0xf61e2562), (md5_G, 6, 9, 0xc040b340), (md5_G, 11, 14, 0x265e5a51), (md5_G, 0, 20, 0xe9b6c7aa),
    (md5_G, 5, 5, 0xd62f105d), (md5_G, 10, 9, 0x2441453), (md5_G, 15, 14, 0xd8a1e681), (md5_G, 4, 20, 0xe7d3fbc8),
    (md5_G, 9, 5, 0x21e1cde6), (md5_G, 14, 9, 0xc33707d6), (md5_G, 3, 14, 0xf4d50d87), (md5_G, 8, 20, 0x455a14ed),
    (md5_G, 13, 5, 0xa9e3e905), (md5_G, 2, 9, 0xfcefa3f8), (md5_G, 7, 14, 0x676f02d9), (md5_G, 12, 20, 0x8d2a4c8a)]"
    by (simp add: md5_steps_def)
  then show ?thesis by (simp only:) (simp add: md5_round_defs)
qed

lemma md5_empty_round3:
  "fold (md5_step [0x80, 0, 0, 0, 0, 0, 0, 0, 0, 0, 0, 0, 0, 0, 0, 0]) (take 16 (drop 32 md5_steps))
     (0x13707036, 0xa2205f1f, 0x1c31c384, 0xae7813db) =
     (0x3f55edfd, 0xca7d2dbd, 0x68d84ea2, 0x22a31f54)"
proof -
  have "take 16 (drop 32 md5_steps) = [(md5_H, 5, 4, 0xfffa3942), (md5_H, 8, 11, 0x8771f681), (md5_H, 11, 16, 0x6d9d6122), (md5_H, 14, 23, 0xfde5380c),
    (md5_H, 1, 4, 0xa4beea44), (md5_H, 4, 11, 0x4bdecfa9), (md5_H, 7, 16, 0xf6bb4b60), (md5_H, 10, 23, 0xbebfbc70),
    (md5_H, 13, 4, 0x289b7ec6), (md5_H, 0, 11, 0xeaa127fa), (md5_H, 3, 16, 0xd4ef3085), (md5_H, 6, 23, 0x4881d05),
    (md5_H, 9, 4, 0xd9d4d039), (md5_H, 12, 11, 0xe6db99e5), (md5_H, 15, 16, 0x1fa27cf8), (md5_H, 2, 23, 0xc4ac5665)]"
    by (simp add: md5_steps_def)
  then show ?thesis by (simp only:) (simp add: md5_round_defs)
qed

lemma md5_empty_round4:
  "fold (md5_step [0x80, 0, 0, 0, 0, 0, 0, 0, 0, 0, 0, 0, 0, 0, 0, 0]) (take 16 (drop 48 md5_steps))
     (0x3f55edfd, 0xca7d2dbd, 0x68d84ea2, 0x22a31f54) =
     (0x7246fad3, 0x14e45506, 0xff4ea3eb, 0x6e10a476)"
proof -
  have "take 16 (drop 48 md5_steps) = [(md5_I, 0, 6, 0xf4292244), (md5_I, 7, 10, 0x432aff97), (md5_I, 14, 15, 0xab9423a7), (md5_I, 5, 21, 0xfc93a039),
    (md5_I, 12, 6, 0x655b59c3), (md5_I, 3, 10, 0x8f0ccc92), (md5_I, 10, 15, 0xffeff47d), (md5_I, 1, 21, 0x85845dd1),
    (md5_I, 8, 6, 0x6fa87e4f), (md5_I, 15, 10, 0xfe2ce6e0), (md5_I, 6, 15, 0xa3014314), (md5_I, 13, 21, 0x4e0811a1),
    (md5_I, 4, 6, 0xf7537e82), (md5_I, 11, 10, 0xbd3af235), (md5_I, 2, 15, 0x2ad7d2bb), (md5_I, 9, 21, 0xeb86d391)]"
    by (simp add: md5_steps_def)
  then show ?thesis by (simp only:) (simp add: md5_round_defs)
qed

lemma md5_steps_rounds: "md5_steps = take 16 (drop 0 md5_steps) @ take 16 (drop 16 md5_steps) @
    take 16 (drop 32 md5_steps) @ take 16 (drop 48 md5_steps)"
  by (simp add: md5_steps_def)

lemma md5_decode_empty: "MD5Decode (0x80 # replicate 63 0) = [0x80, 0, 0, 0, 0, 0, 0, 0, 0, 0, 0, 0, 0, 0, 0, 0]"
proof -
  have "[0..<16::nat] = [0, 1, 2, 3, 4, 5, 6, 7, 8, 9, 10, 11, 12, 13, 14, 15]"
    by (simp add: upt_rec_numeral upt_conv_Cons)
  then show ?thesis by (simp add: MD5Decode_def nth_Cons')
qed

lemma md5_empty: "md5 [] = [0xd4, 0x1d, 0x8c, 0xd9, 0x8f, 0x00, 0xb2, 0x04, 0xe9, 0x80, 0x09, 0x98, 0xec, 0xf8, 0x42, 0x7e]"
proof -
  have "fold (md5_step [0x80, 0, 0, 0, 0, 0, 0, 0, 0, 0, 0, 0, 0, 0, 0, 0]) md5_steps md5_init_state = (0x7246fad3, 0x14e45506, 0xff4ea3eb, 0x6e10a476)"
    by (subst md5_steps_rounds)
      (simp only: fold_append comp_def md5_init_state_def md5_empty_round1 md5_empty_round2 md5_empty_round3 md5_empty_round4)
  then have "MD5Transform md5_init_state (0x80 # replicate 63 0) = (0xd98c1dd4, 0x04b2008f, 0x980980e9, 0x7e42f8ec)"
    by (simp add: MD5Transform_def md5_decode_empty md5_init_state_def)
  then have "md5_blocks md5_init_state (0x80 # replicate 63 0) = ((0xd98c1dd4, 0x04b2008f, 0x980980e9, 0x7e42f8ec), [])"
    by (simp add: md5_blocks.simps)
  then show ?thesis by (simp add: md5_def md5_pad_empty state_words_def MD5Encode_def)
qed

end
