(* ===== verification/Ustor_Firmware.thy ===== *)
theory Ustor_Firmware
  imports Ustor_Disk Ustor_Digest
begin

text \<open>
  The rest of usFirmware.c: the checksum of a file, the serial number and license block, the
  firmware image received in pieces and handed to the upgrade script, and the device
  information the phone asks for. The static file descriptor of \<open>usFirmware_FirmwareUP\<close> is
  passed and returned.
\<close>

section \<open>Constants\<close>

definition MTD_FILE :: bytes where "MTD_FILE = str ''/dev/mtdblock2''"
abbreviation LICENSE_OFFSET :: int where "LICENSE_OFFSET \<equiv> 0xf000"
definition SYS_FIRMCONF :: bytes where "SYS_FIRMCONF = str ''/etc/firmware''"
definition USTORAGE_UPPATH :: bytes where "USTORAGE_UPPATH = str ''/tmp/u-storage.firmware''"
definition MD5_FLAG :: bytes where "MD5_FLAG = str ''MD5=''"
abbreviation SYS_FIRM_SKIP :: int where "SYS_FIRM_SKIP \<equiv> 65536"
definition SYS_FIRM_UPSCRIP :: bytes where "SYS_FIRM_UPSCRIP = str ''/sbin/sysupgrade''"
definition SYS_UPGRADE_LED_BEGIN :: bytes where "SYS_UPGRADE_LED_BEGIN = str ''pioctl fan 2''"

section \<open>The checksum of a file\<close>

definition hex_digit :: "nat \<Rightarrow> u8" where
  "hex_digit n = (if n < 10 then of_nat (48 + n) else of_nat (87 + n))"

definition hex :: "bytes \<Rightarrow> bytes" where
  "hex bs = concat (map (\<lambda>b. [hex_digit (unat b div 16), hex_digit (unat b mod 16)]) bs)"

text \<open>The result of the loop is the context at the end of the file, \<open>None\<close> after a failed read.\<close>

partial_function (option) md5_read_loop ::
    "os \<Rightarrow> int \<Rightarrow> MD5_CTX \<Rightarrow> trace \<Rightarrow> (MD5_CTX option \<times> trace) option" where
  "md5_read_loop E fd c tr =
     (let (i, buf, _, tr) = read_fd E fd 16384 tr in
      if i < 0 then Some (None, tr)
      else if i = 0 then Some (Some c, tr)
      else md5_read_loop E fd (MD5Update c buf) tr)"

declare md5_read_loop.simps [code]

text \<open>
  The context is a local variable whose buffer starts with whatever the stack holds; \<open>c\<close> stands
  for it. The result has the 32 characters stored at \<open>md5buf\<close>.
\<close>

definition compute_md5 ::
    "os \<Rightarrow> MD5_CTX \<Rightarrow> bytes \<Rightarrow> int \<Rightarrow> trace \<Rightarrow> (int \<times> bytes \<times> trace) option" where
  "compute_md5 E c filename offset tr =
     (let (fd, tr) = ret_call E (File (Open (cstr filename) O_RDONLY)) tr in
      if fd < 0 then Some (-1, [], tr)
      else
        let (r, tr) = (if offset \<noteq> 0 then ret_call E (File (Lseek fd offset)) tr else (0, tr)) in
        if r < 0 then Some (-1, [], just_call E (File (CloseFd fd)) tr)
        else do {
          (c, tr) \<leftarrow> md5_read_loop E fd (MD5Init c) tr;
          case c of
            None \<Rightarrow> Some (-1, [], just_call E (File (CloseFd fd)) tr)
          | Some c \<Rightarrow> Some (0, hex (snd (MD5Final c)), just_call E (File (CloseFd fd)) tr)
        })"

section \<open>Serial number and license\<close>

text \<open>
  \<open>struct allinfo\<close>: 32 bytes of serial number, 256 of license and a CRC. The bytes read are laid
  over \<open>info\<close>; the seek is not checked.
\<close>

abbreviation linfo_size :: nat where "linfo_size \<equiv> 288"
abbreviation allinfo_size :: nat where "allinfo_size \<equiv> 292"

definition showSnLicense :: "os \<Rightarrow> bytes \<Rightarrow> trace \<Rightarrow> int \<times> bytes \<times> trace" where
  "showSnLicense E info tr =
     (let (fd, tr) = ret_call E (File (Open MTD_FILE O_RDONLY)) tr in
      if fd < 0 then (-1, info, tr)
      else
        let tr = just_call E (File (Lseek fd LICENSE_OFFSET)) tr;
            (r, data, _, tr) = read_fd E fd allinfo_size tr;
            tr = just_call E (File (CloseFd fd)) tr;
            info = poke info 0 data
        in if r < 0 then (-1, info, tr)
           else if crc32 0 (peek info 0 linfo_size) \<noteq> get32 info linfo_size then (-1, info, tr)
           else (0, info, tr))"

section \<open>Receiving and installing a firmware\<close>

text \<open>\<open>payload\<close> is the place \<open>off\<close> in \<open>mem\<close>. On an error the descriptor is closed here.\<close>

partial_function (option) firmware_write_loop ::
    "os \<Rightarrow> int \<Rightarrow> bytes \<Rightarrow> nat \<Rightarrow> nat \<Rightarrow> nat \<Rightarrow> trace \<Rightarrow> (int \<times> trace) option" where
  "firmware_write_loop E fd mem off n already tr =
     (let tr = fault_if (length mem < off + n) OutOfBounds tr;
          (res, errno, tr) = write_fd E fd (peek mem (off + already) (n - already)) tr in
      if res < 0 \<and> errno \<noteq> EINTR \<and> errno \<noteq> EAGAIN
      then Some (-1, just_call E (File (CloseFd fd)) tr)
      else
        let already = already + nat res in
        if already < n then firmware_write_loop E fd mem off n already tr else Some (0, tr))"

declare firmware_write_loop.simps [code]

definition writeFirmware ::
    "os \<Rightarrow> int \<Rightarrow> bytes \<Rightarrow> nat \<Rightarrow> nat \<Rightarrow> trace \<Rightarrow> (int \<times> trace) option" where
  "writeFirmware E fd mem off n tr =
     (if n = 0 then Some (-1, tr) else firmware_write_loop E fd mem off n 0 tr)"

text \<open>
  Looking for the checksum line in the first \<open>n\<close> lines: the buffer of 512 bytes when it was
  found, and whether a read failed.
\<close>

fun find_md5_line :: "os \<Rightarrow> ptr \<Rightarrow> nat \<Rightarrow> trace \<Rightarrow> (bytes option \<times> bool) \<times> trace" where
  "find_md5_line E fp 0 tr = ((None, False), tr)"
| "find_md5_line E fp (Suc n) tr =
     (let (a, tr) = do_call E (File (Fgets fp 511)) tr in
      if a_num a = 0 then ((None, True), tr)
      else
        let buffer = poke (replicate 512 0) 0 (take 510 (a_data a) @ [0]) in
        if starts_with MD5_FLAG buffer then ((Some buffer, False), tr)
        else find_md5_line E fp n tr)"

text \<open>\<open>md5cmp\<close>: at most 33 characters up to the end of the line, in a zeroed array of 33.\<close>

definition md5cmp_of :: "bytes \<Rightarrow> bytes" where
  "md5cmp_of buffer = (let s = takeWhile (\<lambda>b. b \<noteq> 10) (take 33 (drop 4 buffer)) in poke (replicate 33 0) 0 s)"

definition upgradeFirmware :: "os \<Rightarrow> MD5_CTX \<Rightarrow> bytes \<Rightarrow> trace \<Rightarrow> (int \<times> trace) option" where
  "upgradeFirmware E c firmware tr = do {
     (r, md5str, tr) \<leftarrow> compute_md5 E c firmware SYS_FIRM_SKIP tr;
     if r < 0 then Some (-1, tr)
     else
       let (a, tr) = do_call E (File (Fopen (cstr firmware))) tr in
       if a_num a = 0 then Some (-1, tr)
       else
         let ((line, _), tr) = find_md5_line E (a_num a) 10 tr;
             tr = just_call E (File (Fclose (a_num a))) tr
         in case line of
              None \<Rightarrow> Some (-1, tr)
            | Some buffer \<Rightarrow>
              if \<not> strcaseeq md5str (md5cmp_of buffer)
              then Some (-1, fault_if (0 \<notin> set (md5cmp_of buffer)) OutOfBounds tr)
              else Some (0, just_call E (Sys (System (take 1022
                (SYS_FIRM_UPSCRIP @ str '' '' @ cstr firmware @ str '' &'')))) tr)
   }"

text \<open>\<open>fd\<close> is the static descriptor; \<open>paySize\<close> is signed here and unsigned in \<open>writeFirmware\<close>.\<close>

definition usFirmware_FirmwareUP ::
    "os \<Rightarrow> MD5_CTX \<Rightarrow> int \<Rightarrow> bytes \<Rightarrow> nat \<Rightarrow> u32 \<Rightarrow> u32 \<Rightarrow> trace \<Rightarrow> (int \<times> int \<times> trace) option" where
  "usFirmware_FirmwareUP E c fd mem off paySize ctrid tr =
     (if ctrid = USTOR_FSONDEV_UPDATE_START then
        let tr = just_call E (Sys (System SYS_UPGRADE_LED_BEGIN)) tr;
            tr = just_call E (File (CloseFd fd)) tr;
            (fd, tr) = ret_call E (File (Open USTORAGE_UPPATH (O_CREAT + O_WRONLY + O_TRUNC))) tr
        in Some (if fd < 0 then EUSTOR_FIRM_ERR else EUSTOR_OK, fd, tr)
      else if ctrid = USTOR_FSONDEV_UPDATE_DATA then
        if paySize = 0 \<or> fd < 0 then Some (EUSTOR_FIRM_ARG, fd, tr)
        else do {
          (r, tr) \<leftarrow> writeFirmware E fd mem off (unat paySize) tr;
          Some (if r < 0 then EUSTOR_FIRM_ERR else EUSTOR_OK, fd, tr)
        }
      else if ctrid = USTOR_FSONDEV_UPDATE_END then do {
        (r, tr) \<leftarrow> upgradeFirmware E c USTORAGE_UPPATH (just_call E (File (CloseFd fd)) tr);
        Some (if r < 0 then EUSTOR_FIRM_CRC else EUSTOR_OK, -1, tr)
      }
      else Some (EUSTOR_FIRM_ARG, fd, tr))"

section \<open>Device information\<close>

text \<open>\<open>sscanf(line, "%[^=]=%[^\\n ]")\<close>: the key, and the value when both were converted.\<close>

definition scan_key :: "bytes \<Rightarrow> bytes" where
  "scan_key line = takeWhile (\<lambda>b. b \<noteq> 61) (cstr line)"

definition scan_value :: "bytes \<Rightarrow> bytes" where
  "scan_value line = takeWhile (\<lambda>b. b \<noteq> 10 \<and> b \<noteq> 32) (drop (Suc (length (scan_key line))) (cstr line))"

definition scanned :: "bytes \<Rightarrow> bool" where
  "scanned line = (scan_key line \<noteq> [] \<and> length (scan_key line) < length (cstr line) \<and> scan_value line \<noteq> [])"

text \<open>\<open>strcpy\<close> to a field of \<open>n\<close> bytes at \<open>off\<close> of \<open>dinfo\<close>; a longer value runs into the next fields.\<close>

definition set_field :: "bytes \<Rightarrow> nat \<Rightarrow> nat \<Rightarrow> bytes \<Rightarrow> trace \<Rightarrow> bytes \<times> trace" where
  "set_field dinfo off n v tr = (poke dinfo off (strcpy v), fault_if (n < length (strcpy v)) OutOfBounds tr)"

definition firm_line :: "bytes \<Rightarrow> bytes \<Rightarrow> trace \<Rightarrow> bytes \<times> trace" where
  "firm_line line dinfo tr =
     (let key = scan_key line; value = scan_value line;
          tr = fault_if (128 \<le> length key \<or> length key < length (cstr line) \<and> 128 \<le> length value) OutOfBounds tr
      in if \<not> scanned line then (dinfo, tr)
         else if strcaseeq key (str ''VENDOR'') then set_field dinfo 0 32 value tr
         else if strcaseeq key (str ''CURFILE'') then set_field dinfo 32 32 value tr
         else if strcaseeq key (str ''CURVER'') then set_field dinfo 96 16 value tr
         else (dinfo, tr))"

partial_function (option) firm_lines ::
    "os \<Rightarrow> ptr \<Rightarrow> bytes \<Rightarrow> trace \<Rightarrow> (bytes \<times> trace) option" where
  "firm_lines E fp dinfo tr =
     (let (a, tr) = do_call E (File (Fgets fp 256)) tr in
      if a_num a = 0 then Some (dinfo, tr)
      else let (dinfo, tr) = firm_line (take 255 (a_data a)) dinfo tr in firm_lines E fp dinfo tr)"

declare firm_lines.simps [code]

abbreviation dinfo_size :: nat where "dinfo_size \<equiv> 256"

text \<open>\<open>buff\<close> is the place \<open>off\<close> in \<open>mem\<close>; the result has \<open>*used\<close> when it was written.\<close>

definition usFirmware_GetInfo ::
    "os \<Rightarrow> bytes \<Rightarrow> nat \<Rightarrow> int \<Rightarrow> trace \<Rightarrow> (int \<times> bytes \<times> int option \<times> trace) option" where
  "usFirmware_GetInfo E mem off bsize tr =
     (if bsize < int dinfo_size then Some (EUSTOR_FIRM_ARG, mem, None, tr)
      else
        let (a, tr) = do_call E (File (Fopen SYS_FIRMCONF)) tr in
        if a_num a = 0 then Some (EUSTOR_FIRM_ARG, mem, None, tr)
        else do {
          (dinfo, tr) \<leftarrow> firm_lines E (a_num a) (replicate dinfo_size 0) tr;
          let tr = just_call E (File (Fclose (a_num a))) tr;
              dinfo = poke dinfo 128 (strcpy (str ''1234567''));
              (r, sinfo, tr) = showSnLicense E (replicate allinfo_size 0) tr;
              dinfo = (if r = 0
                then poke (poke dinfo 64 (strncpy (peek sinfo 0 32) 31)) 136 (strncpy (peek sinfo 32 256) 119)
                else poke (poke dinfo 64 (replicate 32 0)) 136 (replicate 120 0));
              (mem, tr) = memcpy mem off dinfo tr
          in Some (EUSTOR_OK, mem, Some (int dinfo_size), tr)
        })"

section \<open>What the checksum is\<close>

text \<open>The descriptor is closed last, whatever the result.\<close>

lemma md5_read_loop_ok:
  "md5_read_loop E fd c tr = Some y \<Longrightarrow> serves E fd content tr0 \<Longrightarrow>
   tr = tr0 @ es \<and> only_reads fd es \<and> read_in fd es = msg \<and> msg = take (length msg) content \<and> md5_rep c msg \<Longrightarrow>
   (case fst y of None \<Rightarrow> True | Some c' \<Rightarrow> md5_rep c' content) \<and>
   (\<exists>es'. snd y = tr @ es' \<and> only_reads fd es')"
proof (induct arbitrary: es msg rule: md5_read_loop.raw_induct [rotated, consumes 1, case_names step])
  case (step loop E fd c tr y)
  obtain i buf errno tr1 where rd: "read_fd E fd 16384 tr = (i, buf, errno, tr1)" by (metis prod_cases4)
  let ?a = "E tr (File (Read fd 16384))"
  let ?e = "Did (File (Read fd 16384)) ?a"
  have facts: "tr1 = tr @ [?e]" "i < 0 \<longleftrightarrow> a_ret ?a < 0"
    "0 \<le> i \<longrightarrow> buf = take 16384 (a_data ?a) \<and> i = int (length buf)"
    using rd by (auto simp: read_fd_def do_call_eq split: if_splits)
  have srv: "0 \<le> a_ret ?a \<Longrightarrow> (\<exists>k. take 16384 (a_data ?a) = take k (drop (length msg) content)) \<and>
      (take 16384 (a_data ?a) = [] \<longrightarrow> drop (length msg) content = [])"
    using step.prems unfolding serves_def Let_def by (metis zero_neq_numeral)
  have one: "only_reads fd [?e]" by (simp add: only_reads_def)
  consider (err) "i < 0" | (eof) "i = 0" | (more) "0 < i" by linarith
  then show ?case
  proof cases
    case err
    then show ?thesis using step.hyps(2) facts one by (auto simp: rd)
  next
    case eof
    then have "drop (length msg) content = []" using facts srv by auto
    then have "msg = content" using step.prems(2) by simp
    moreover have "y = (Some c, tr1)" using step.hyps(2) eof by (simp add: rd)
    ultimately show ?thesis using facts(1) one step.prems(2) by auto
  next
    case more
    have l: "loop E fd (MD5Update c buf) tr1 = Some y" using step.hyps(2) more by (simp add: rd)
    obtain k where k: "buf = take k (drop (length msg) content)" using more facts srv by auto
    have "length buf \<le> 16384" using more facts by simp
    then have rep: "md5_rep (MD5Update c buf) (msg @ buf)"
      using step.prems(2) by (intro md5_update_rep) simp_all
    have "msg @ buf = take (length (msg @ buf)) content"
      using take_append_chunk [OF _ k] step.prems(2) by blast
    moreover have "tr1 = tr0 @ (es @ [?e])" "only_reads fd (es @ [?e])" "read_in fd (es @ [?e]) = msg @ buf"
      using step.prems(2) facts more by auto
    ultimately have "(case fst y of None \<Rightarrow> True | Some c' \<Rightarrow> md5_rep c' content) \<and>
        (\<exists>es'. snd y = tr1 @ es' \<and> only_reads fd es')"
      using step.hyps(1) [OF l step.prems(1)] rep by blast
    moreover have "only_reads fd (?e # es')" if "only_reads fd es'" for es'
      using that by (simp add: only_reads_def)
    ultimately show ?thesis using facts(1) by auto
  qed
qed

lemma md5_read_loop_quiet:
  "md5_read_loop E fd c tr = Some y \<Longrightarrow> \<exists>es. snd y = tr @ es \<and> only_reads fd es"
proof (induct rule: md5_read_loop.raw_induct [rotated, consumes 1, case_names step])
  case (step loop E fd c tr y)
  obtain i buf errno tr1 where rd: "read_fd E fd 16384 tr = (i, buf, errno, tr1)" by (metis prod_cases4)
  have t1: "\<exists>a. tr1 = tr @ [Did (File (Read fd 16384)) a]"
    using rd by (auto simp: read_fd_def do_call_eq split: if_splits)
  show ?case
  proof (cases "0 < i")
    case True
    then have "loop E fd (MD5Update c buf) tr1 = Some y" using step.hyps(2) by (simp add: rd)
    from step.hyps(1) [OF this] t1 show ?thesis by (auto simp: only_reads_def)
  next
    case False
    then show ?thesis using step.hyps(2) t1 by (cases "i = 0") (auto simp: rd only_reads_def)
  qed
qed

text \<open>\<open>md5_opened\<close> is the state in which \<open>compute_md5\<close> starts to read.\<close>

definition md5_opened :: "os \<Rightarrow> bytes \<Rightarrow> int \<Rightarrow> trace \<Rightarrow> int \<times> trace" where
  "md5_opened E filename offset tr =
     (let (fd, tr) = ret_call E (File (Open (cstr filename) O_RDONLY)) tr
      in (fd, if offset \<noteq> 0 then just_call E (File (Lseek fd offset)) tr else tr))"

lemma compute_md5_ok:
  assumes run: "compute_md5 E c filename offset tr = Some (0, md5str, tr')"
    and buf: "length (md_buffer c) = 64"
    and src: "serves E (fst (md5_opened E filename offset tr)) content (snd (md5_opened E filename offset tr))"
  shows "md5str = hex (md5 content)"
proof -
  let ?o = "md5_opened E filename offset tr"
  obtain c' t where l: "md5_read_loop E (fst ?o) (MD5Init c) (snd ?o) = Some (Some c', t)"
    and res: "md5str = hex (snd (MD5Final c'))"
    using run by (auto simp: compute_md5_def md5_opened_def call_eqs Let_def bind_eq_Some_conv
        split: if_splits option.splits)
  have "md5_rep c' content"
    using md5_read_loop_ok [OF l src, of "[]" "[]"] md5_init_rep [OF buf] by simp
  then show ?thesis using res by (simp add: md5_final)
qed

text \<open>Which calls a computation can have made: no command is run.\<close>

definition no_system :: "trace \<Rightarrow> bool" where
  "no_system es = (\<forall>s a. Did (Sys (System s)) a \<notin> set es)"

lemma no_system_simps [simp]:
  "no_system []" "no_system (es @ fs) = (no_system es \<and> no_system fs)"
  "no_system (e # es) = ((\<forall>s a. e \<noteq> Did (Sys (System s)) a) \<and> no_system es)"
  by (auto simp: no_system_def)

lemma only_reads_no_system: "only_reads fd es \<Longrightarrow> no_system es"
  by (force simp: only_reads_def no_system_def)

lemma compute_md5_quiet:
  assumes "compute_md5 E c filename offset tr = Some (r, md5str, tr')"
  shows "\<exists>es. tr' = tr @ es \<and> no_system es"
proof (cases "\<exists>t y. tr' = just_call E (File (CloseFd (fst (md5_opened E filename offset tr)))) t \<and>
    md5_read_loop E (fst (md5_opened E filename offset tr)) (MD5Init c) (snd (md5_opened E filename offset tr)) = Some (y, t)")
  case True
  then show ?thesis
    using md5_read_loop_quiet only_reads_no_system
    by (fastforce simp: md5_opened_def call_eqs Let_def split: if_splits)
next
  case False
  then show ?thesis
    using assms by (fastforce simp: compute_md5_def md5_opened_def call_eqs Let_def bind_eq_Some_conv
        split: if_splits option.splits)
qed

text \<open>
  The line of the file's head that declares the checksum: the buffer as the answer of a read fills
  it, and the search as the reads that it made, of which the last is the first with the flag.
\<close>

definition line_of :: "answer \<Rightarrow> bytes" where
  "line_of a = poke (replicate 512 0) 0 (take 510 (a_data a) @ [0])"

definition lines_read :: "ptr \<Rightarrow> answer list \<Rightarrow> trace" where
  "lines_read fp as = map (\<lambda>a. Did (File (Fgets fp 511)) a) as"

lemma lines_read_simps [simp]:
  "lines_read fp [] = []" "lines_read fp (a # as) = Did (File (Fgets fp 511)) a # lines_read fp as"
  "lines_read fp (as @ bs) = lines_read fp as @ lines_read fp bs"
  by (simp_all add: lines_read_def)

lemma no_system_lines [simp]: "no_system (lines_read fp as)"
  by (induction as) simp_all

lemma find_md5_line_reads:
  "find_md5_line E fp n tr = ((line, b), tr') \<Longrightarrow>
   \<exists>as. tr' = tr @ lines_read fp as \<and> length as \<le> n \<and>
     (\<forall>buffer. line = Some buffer \<longrightarrow> as \<noteq> [] \<and> buffer = line_of (last as) \<and> starts_with MD5_FLAG buffer \<and>
       (\<forall>x\<in>set (butlast as). \<not> starts_with MD5_FLAG (line_of x)))"
proof (induction n arbitrary: tr)
  case (Suc n)
  define a where "a = E tr (File (Fgets fp 511))"
  define t where "t = tr @ lines_read fp [a]"
  have c: "do_call E (File (Fgets fp 511)) tr = (a, t)" by (simp add: do_call_eq a_def t_def)
  show ?case
  proof (cases "a_num a = 0 \<or> starts_with MD5_FLAG (line_of a)")
    case True
    then show ?thesis using Suc.prems
      by (intro exI [of _ "[a]"]) (auto simp: c t_def line_of_def Let_def split: if_splits)
  next
    case False
    then have "find_md5_line E fp n t = ((line, b), tr')" using Suc.prems by (simp add: c line_of_def Let_def)
    from Suc.IH [OF this] obtain as where as: "tr' = t @ lines_read fp as" "length as \<le> n"
      "\<forall>buffer. line = Some buffer \<longrightarrow> as \<noteq> [] \<and> buffer = line_of (last as) \<and> starts_with MD5_FLAG buffer \<and>
         (\<forall>x\<in>set (butlast as). \<not> starts_with MD5_FLAG (line_of x))" by blast
    show ?thesis by (intro exI [of _ "a # as"]) (use as False in \<open>auto simp: t_def\<close>)
  qed
qed simp

text \<open>
  The upgrade script is started only when the checksum of the image is the one it declares: what an
  upgrade did that ran a command.
\<close>

definition upgrade_events :: "bytes \<Rightarrow> answer \<Rightarrow> answer list \<Rightarrow> answer \<Rightarrow> answer \<Rightarrow> trace" where
  "upgrade_events firmware f as x y =
     [Did (File (Fopen (cstr firmware))) f] @ lines_read (a_num f) as @ [Did (File (Fclose (a_num f))) x,
      Did (Sys (System (take 1022 (SYS_FIRM_UPSCRIP @ str '' '' @ cstr firmware @ str '' &'')))) y]"

lemma upgrade_checked:
  assumes run: "upgradeFirmware E c firmware tr = Some (r, tr')" and buf: "length (md_buffer c) = 64"
    and src: "serves E (fst (md5_opened E firmware SYS_FIRM_SKIP tr)) content (snd (md5_opened E firmware SYS_FIRM_SKIP tr))"
  shows "\<exists>es. tr' = tr @ es \<and>
    (if r = 0 then \<exists>es0 f as l x y. es = es0 @ upgrade_events firmware f (as @ [l]) x y \<and> no_system es0 \<and>
        length as < 10 \<and> (\<forall>a\<in>set as. \<not> starts_with MD5_FLAG (line_of a)) \<and>
        starts_with MD5_FLAG (line_of l) \<and> strcaseeq (hex (md5 content)) (md5cmp_of (line_of l))
     else r = -1 \<and> no_system es)"
proof -
  obtain r1 md5str t1 where c1: "compute_md5 E c firmware SYS_FIRM_SKIP tr = Some (r1, md5str, t1)"
    using run by (auto simp: upgradeFirmware_def bind_eq_Some_conv)
  obtain e1 where e1: "t1 = tr @ e1" "no_system e1" using compute_md5_quiet [OF c1] by blast
  have r1: "r1 = 0 \<or> r1 = -1"
    using c1 by (auto simp: compute_md5_def call_eqs Let_def bind_eq_Some_conv split: if_splits option.splits)
  obtain a t2 where c2: "do_call E (File (Fopen (cstr firmware))) t1 = (a, t2)" by fastforce
  have e2: "t2 = t1 @ [Did (File (Fopen (cstr firmware))) a]" using c2 by (auto simp: do_call_eq)
  obtain line b t3 where c3: "find_md5_line E (a_num a) 10 t2 = ((line, b), t3)" by (metis prod.exhaust)
  obtain as where as: "t3 = t2 @ lines_read (a_num a) as" "length as \<le> 10"
    "\<And>buffer. line = Some buffer \<Longrightarrow> as \<noteq> [] \<and> buffer = line_of (last as) \<and> starts_with MD5_FLAG buffer \<and>
       (\<forall>x\<in>set (butlast as). \<not> starts_with MD5_FLAG (line_of x))"
    using find_md5_line_reads [OF c3] by blast
  define t4 where "t4 = just_call E (File (Fclose (a_num a))) t3"
  obtain q where e4: "t4 = t3 @ [Did (File (Fclose (a_num a))) q]" by (simp add: t4_def just_call_eq)
  have quiet: "\<exists>e. t4 = tr @ e \<and> no_system e" "\<exists>e. t1 = tr @ e \<and> no_system e" "\<exists>e. t2 = tr @ e \<and> no_system e"
    using e1 e2 as(1) by (auto simp: e4)
  consider (failed) "r = -1" "tr' = t1 \<or> tr' = t2 \<or> tr' = t4 \<or> tr' = t4 @ [Fault OutOfBounds]"
    | (started) buffer x where "r1 = 0" "line = Some buffer" "strcaseeq md5str (md5cmp_of buffer)"
        "r = 0" "tr' = t4 @ [Did (Sys (System (take 1022 (SYS_FIRM_UPSCRIP @ str '' '' @ cstr firmware @ str '' &'')))) x]"
    using run r1
    by (fastforce simp: upgradeFirmware_def c1 c2 c3 t4_def [symmetric] Let_def just_call_eq [of _ "Sys _"]
        fault_if_def split: if_splits option.splits)
  then show ?thesis
  proof cases
    case failed
    then show ?thesis using quiet by auto
  next
    case started
    note line = as(3) [OF started(2)]
    then have bl: "as = butlast as @ [last as]" by simp
    have n: "length (butlast as) < 10" using as(2) line by (cases as) auto
    have "strcaseeq (hex (md5 content)) (md5cmp_of (line_of (last as)))"
      using compute_md5_ok [OF c1 [unfolded started(1)] buf src] started(3) line by simp
    moreover have tr': "tr' = tr @ e1 @ upgrade_events firmware a (butlast as @ [last as]) q x"
      unfolding started(5) e4 as(1) e2 e1(1) upgrade_events_def bl [symmetric] by simp
    moreover have "starts_with MD5_FLAG (line_of (last as))" using line by auto
    ultimately have "\<exists>es0 f as' l x' y. e1 @ upgrade_events firmware a (butlast as @ [last as]) q x =
        es0 @ upgrade_events firmware f (as' @ [l]) x' y \<and> no_system es0 \<and> length as' < 10 \<and>
        (\<forall>a\<in>set as'. \<not> starts_with MD5_FLAG (line_of a)) \<and> starts_with MD5_FLAG (line_of l) \<and>
        strcaseeq (hex (md5 content)) (md5cmp_of (line_of l))"
      using e1(2) line n
      by - (rule exI [of _ e1], rule exI [of _ a], rule exI [of _ "butlast as"], rule exI [of _ "last as"], rule exI [of _ q],
          rule exI [of _ x], simp)
    then show ?thesis using started(4) tr' by (metis (no_types, lifting))
  qed
qed

section \<open>The image as it is received\<close>

lemma firmware_write_loop_ok:
  "firmware_write_loop E fd mem off n already tr = Some y \<Longrightarrow>
   already < n \<and> off + n \<le> length mem \<Longrightarrow>
   \<exists>k. already + k \<le> n \<and> clean tr (snd y) \<and>
     written fd (snd y) = written fd tr @ peek mem (off + already) k \<and>
     (fst y = 0 \<and> already + k = n \<or> fst y = -1 \<and> last (calls (snd y)) = File (CloseFd fd))"
proof (induct rule: firmware_write_loop.raw_induct [rotated, consumes 1, case_names step])
  case (step loop E fd mem off n already tr y)
  let ?d = "peek mem (off + already) (n - already)"
  obtain res errno tr1 where wr: "write_fd E fd ?d tr = (res, errno, tr1)" by (metis prod_cases3)
  have ld: "length ?d = n - already"
  proof -
    have "n - already \<le> length mem - (off + already)" using step.prems by linarith
    then show ?thesis by (simp add: length_peek)
  qed
  note wf = write_fd_written [OF wr]
  have nres: "nat res \<le> n - already" using wf ld by linarith
  have w1: "written fd tr1 = written fd tr @ peek mem (off + already) (nat res)"
    using wf nres by (simp add: peek_def)
  have nf: "fault_if (length mem < off + n) OutOfBounds tr = tr"
    using step.prems by (simp add: fault_if_def)
  have body: "Some y = (if res < 0 \<and> errno \<noteq> EINTR \<and> errno \<noteq> EAGAIN
      then Some (-1, just_call E (File (CloseFd fd)) tr1)
      else if already + nat res < n then loop E fd mem off n (already + nat res) tr1 else Some (0, tr1))"
    using step.hyps(2) unfolding Let_def nf wr prod.case by (rule sym)
  consider (err) "res < 0 \<and> errno \<noteq> EINTR \<and> errno \<noteq> EAGAIN"
    | (more) "\<not> (res < 0 \<and> errno \<noteq> EINTR \<and> errno \<noteq> EAGAIN)" "already + nat res < n"
    | (full) "\<not> (res < 0 \<and> errno \<noteq> EINTR \<and> errno \<noteq> EAGAIN)" "\<not> already + nat res < n" by blast
  then show ?case
  proof cases
    case err
    then have "y = (-1, just_call E (File (CloseFd fd)) tr1)" using body by simp
    then show ?thesis
      using err wf step.prems clean_trans [OF _ clean_just_call, of tr tr1]
      by (intro exI [of _ 0]) (auto simp: just_call_eq peek_def)
  next
    case more
    then have "loop E fd mem off n (already + nat res) tr1 = Some y" using body by auto
    from step.hyps(1) [OF this] more step.prems obtain k where
      k: "already + nat res + k \<le> n" "clean tr1 (snd y)"
        "written fd (snd y) = written fd tr1 @ peek mem (off + (already + nat res)) k"
        "fst y = 0 \<and> already + nat res + k = n \<or> fst y = -1 \<and> last (calls (snd y)) = File (CloseFd fd)"
      by auto
    have "peek mem (off + already) (nat res) @ peek mem (off + (already + nat res)) k =
        peek mem (off + already) (nat res + k)"
      using peek_append [of mem "off + already" "nat res" k] by (simp add: add.assoc)
    then show ?thesis
      using k w1 wf clean_trans [of tr tr1] by (intro exI [of _ "nat res + k"]) auto
  next
    case full
    then have "y = (0, tr1)" "already + nat res = n" using body nres step.prems by auto
    then show ?thesis using w1 wf by (intro exI [of _ "nat res"]) auto
  qed
qed

lemma firmware_data_ok:
  assumes "usFirmware_FirmwareUP E c fd mem off n USTOR_FSONDEV_UPDATE_DATA tr = Some (r, fd', tr')"
    and "off + unat n \<le> length mem"
  shows "fd' = fd \<and> (r = EUSTOR_OK \<longrightarrow> 0 \<le> fd \<and> written fd tr' = written fd tr @ peek mem off (unat n)) \<and>
    (r = EUSTOR_FIRM_ERR \<longrightarrow> 0 \<le> fd \<and> last (calls tr') = File (CloseFd fd)) \<and>
    r \<in> {EUSTOR_OK, EUSTOR_FIRM_ERR, EUSTOR_FIRM_ARG}"
proof (cases "n = 0 \<or> fd < 0")
  case True
  then show ?thesis using assms(1) by (auto simp: usFirmware_FirmwareUP_def)
next
  case False
  then have pos: "0 < unat n" by (simp add: unat_gt_0)
  obtain q t where w: "writeFirmware E fd mem off (unat n) tr = Some (q, t)"
    and res: "r = (if q < 0 then EUSTOR_FIRM_ERR else EUSTOR_OK)" "fd' = fd" "tr' = t"
    using assms(1) False by (auto simp: usFirmware_FirmwareUP_def bind_eq_Some_conv)
  have l: "firmware_write_loop E fd mem off (unat n) 0 tr = Some (q, t)"
    using w pos by (simp add: writeFirmware_def)
  from firmware_write_loop_ok [OF l] pos assms(2) obtain k where
    "k \<le> unat n" "written fd t = written fd tr @ peek mem off k"
    "q = 0 \<and> k = unat n \<or> q = -1 \<and> last (calls t) = File (CloseFd fd)" by auto
  then show ?thesis using res False by auto
qed

section \<open>What the device information is\<close>

lemma length_set_field: "off + length (strcpy v) \<le> length d \<Longrightarrow> length (fst (set_field d off n v tr)) = length d"
  by (simp add: set_field_def length_poke)

lemma showSn_length:
  "showSnLicense E info tr = (r, info', tr') \<Longrightarrow> length info = allinfo_size \<Longrightarrow> length info' = allinfo_size"
  by (auto simp: showSnLicense_def Let_def length_poke split: prod.splits if_splits dest!: read_fd_read)

text \<open>
  The license block of the flash, from the calls that look for it: none when the flash could not be
  opened or read. What a short read leaves out is zero.
\<close>

definition license_read :: "trace \<Rightarrow> bytes option \<Rightarrow> bool" where
  "license_read fl blk =
     (\<exists>x. fl = [Did (File (Open MTD_FILE O_RDONLY)) x] \<and> a_ret x < 0 \<and> blk = None \<or>
        (\<exists>y a z. fl = [Did (File (Open MTD_FILE O_RDONLY)) x, Did (File (Lseek (a_ret x) LICENSE_OFFSET)) y,
             Did (File (Read (a_ret x) allinfo_size)) a, Did (File (CloseFd (a_ret x))) z] \<and> 0 \<le> a_ret x \<and>
           blk = (if a_ret a < 0 then None else Some (poke (replicate allinfo_size 0) 0 (take allinfo_size (a_data a))))))"

definition license_ok :: "bytes \<Rightarrow> bool" where
  "license_ok info = (crc32 0 (peek info 0 linfo_size) = get32 info linfo_size)"

lemma showSn_spec:
  assumes "showSnLicense E (replicate allinfo_size 0) tr = (r, info, tr')"
  shows "\<exists>fl blk. tr' = tr @ fl \<and> license_read fl blk \<and> (case blk of None \<Rightarrow> r \<noteq> 0
    | Some b \<Rightarrow> if license_ok b then r = 0 \<and> info = b else r \<noteq> 0)"
proof -
  define x where "x = E tr (File (Open MTD_FILE O_RDONLY))"
  define t1 where "t1 = tr @ [Did (File (Open MTD_FILE O_RDONLY)) x]"
  define y where "y = E t1 (File (Lseek (a_ret x) LICENSE_OFFSET))"
  define t2 where "t2 = t1 @ [Did (File (Lseek (a_ret x) LICENSE_OFFSET)) y]"
  define a where "a = E t2 (File (Read (a_ret x) allinfo_size))"
  define t3 where "t3 = t2 @ [Did (File (Read (a_ret x) allinfo_size)) a]"
  define z where "z = E t3 (File (CloseFd (a_ret x)))"
  define b where "b = poke (replicate allinfo_size 0) 0 (take allinfo_size (a_data a))"
  note run = assms [unfolded showSnLicense_def call_eqs read_fd_def x_def [symmetric] Let_def prod.case t1_def [symmetric]
    y_def [symmetric] t2_def [symmetric] a_def [symmetric] t3_def [symmetric] z_def [symmetric]]
  consider (shut) "a_ret x < 0" | (bad) "0 \<le> a_ret x" "a_ret a < 0" | (got) "0 \<le> a_ret x" "0 \<le> a_ret a" by linarith
  then show ?thesis
  proof cases
    case shut
    then show ?thesis using run by (intro exI [of _ "[Did (File (Open MTD_FILE O_RDONLY)) x]"] exI [of _ None])
        (auto simp: license_read_def t1_def)
  next
    case bad
    let ?fl = "[Did (File (Open MTD_FILE O_RDONLY)) x, Did (File (Lseek (a_ret x) LICENSE_OFFSET)) y,
      Did (File (Read (a_ret x) allinfo_size)) a, Did (File (CloseFd (a_ret x))) z]"
    show ?thesis by (intro exI [of _ ?fl] exI [of _ None]) (use run bad in \<open>auto simp: license_read_def t1_def t2_def t3_def z_def\<close>)
  next
    case got
    let ?fl = "[Did (File (Open MTD_FILE O_RDONLY)) x, Did (File (Lseek (a_ret x) LICENSE_OFFSET)) y,
      Did (File (Read (a_ret x) allinfo_size)) a, Did (File (CloseFd (a_ret x))) z]"
    have "license_read ?fl (Some b)" using got by (simp add: license_read_def b_def)
    moreover have "tr' = tr @ ?fl" using run got by (auto simp: t1_def t2_def t3_def z_def split: if_splits)
    moreover have "if license_ok b then r = 0 \<and> info = b else r \<noteq> 0"
      using run got by (auto simp: license_ok_def b_def [symmetric] split: if_splits)
    ultimately show ?thesis by (intro exI [of _ ?fl] exI [of _ "Some b"]) simp
  qed
qed

text \<open>Unless a value did not fit its field, the information block keeps its size.\<close>

definition block_kept :: "trace \<Rightarrow> bytes \<Rightarrow> trace \<Rightarrow> bytes \<Rightarrow> bool" where
  "block_kept tr d tr' d' = (\<exists>fs. faults tr' = faults tr @ fs \<and>
     (fs = [] \<longrightarrow> length d = dinfo_size \<longrightarrow> length d' = dinfo_size))"

lemma block_kept_trans: "block_kept tr d t1 d1 \<Longrightarrow> block_kept t1 d1 t2 d2 \<Longrightarrow> block_kept tr d t2 d2"
  by (fastforce simp: block_kept_def)

lemma firm_line_kept: "firm_line line dinfo tr = (d', tr') \<Longrightarrow> block_kept tr dinfo tr' d'"
  by (auto simp: block_kept_def firm_line_def set_field_def Let_def fault_if_def length_poke strcpy_def
      split: if_splits)

lemma firm_lines_kept: "firm_lines E fp dinfo tr = Some y \<Longrightarrow> block_kept tr dinfo (snd y) (fst y)"
proof (induct rule: firm_lines.raw_induct [rotated, consumes 1, case_names step])
  case (step loop E fp dinfo tr y)
  define a where "a = E tr (File (Fgets fp 256))"
  define tr1 where "tr1 = tr @ [Did (File (Fgets fp 256)) a]"
  obtain d' tr2 where fl: "firm_line (take 255 (a_data a)) dinfo tr1 = (d', tr2)" by fastforce
  have k1: "block_kept tr dinfo tr1 dinfo" by (simp add: block_kept_def tr1_def)
  have body: "(if a_num a = 0 then Some (dinfo, tr1) else loop E fp d' tr2) = Some y"
    using step.hyps(2) fl unfolding do_call_eq a_def [symmetric] tr1_def [symmetric]
    by (cases "a_num a = 0") simp_all
  show ?case
    using body k1 block_kept_trans [OF k1 block_kept_trans [OF firm_line_kept [OF fl]]] step.hyps(1)
    by (auto split: if_splits)
qed

lemma firm_line_extends: "\<exists>es. snd (firm_line line dinfo tr) = tr @ es"
  by (auto simp: firm_line_def set_field_def fault_if_def Let_def)

lemma firm_lines_extends: "firm_lines E fp dinfo tr = Some y \<Longrightarrow> \<exists>es. snd y = tr @ es"
proof (induct rule: firm_lines.raw_induct [rotated, consumes 1, case_names step])
  case (step loop E fp dinfo tr y)
  define a where "a = E tr (File (Fgets fp 256))"
  define tr1 where "tr1 = tr @ [Did (File (Fgets fp 256)) a]"
  obtain d' tr2 where fl: "firm_line (take 255 (a_data a)) dinfo tr1 = (d', tr2)" by fastforce
  have e2: "\<exists>es. tr2 = tr1 @ es" using firm_line_extends [of "take 255 (a_data a)" dinfo tr1] fl by simp
  have body: "(if a_num a = 0 then Some (dinfo, tr1) else loop E fp d' tr2) = Some y"
    using step.hyps(2) fl unfolding do_call_eq a_def [symmetric] tr1_def [symmetric]
    by (cases "a_num a = 0") simp_all
  show ?case
    using body e2 step.hyps(1) [of E fp d' tr2 y] by (auto simp: tr1_def split: if_splits)
qed

text \<open>
  The block the phone gets: 256 bytes, with a serial number and a license only when they were
  read with a correct CRC.
\<close>

lemma getinfo_ok:
  assumes run: "usFirmware_GetInfo E mem off bsize tr = Some (EUSTOR_OK, mem', used, tr')"
    and clean: "faults tr' = faults tr" and room: "off + nat bsize \<le> length mem"
  shows "used = Some 256 \<and> (\<exists>d. length d = dinfo_size \<and> mem' = poke mem off d \<and> cstr (peek d 128 8) = str ''1234567'' \<and>
    (\<exists>es fl blk. tr' = tr @ es @ fl \<and> license_read fl blk \<and> (case blk of
       None \<Rightarrow> peek d 64 32 = replicate 32 0 \<and> peek d 136 120 = replicate 120 0
     | Some info \<Rightarrow> if license_ok info
         then peek d 64 31 = strncpy (peek info 0 32) 31 \<and> peek d 136 119 = strncpy (peek info 32 256) 119
         else peek d 64 32 = replicate 32 0 \<and> peek d 136 120 = replicate 120 0)))"
proof -
  define a where "a = E tr (File (Fopen SYS_FIRMCONF))"
  define t1 where "t1 = tr @ [Did (File (Fopen SYS_FIRMCONF)) a]"
  have b: "\<not> bsize < int dinfo_size"
    using run by (auto simp: usFirmware_GetInfo_def split: if_splits)
  obtain d0 t2 where l: "firm_lines E (a_num a) (replicate dinfo_size 0) t1 = Some (d0, t2)"
    using run b unfolding usFirmware_GetInfo_def do_call_eq a_def [symmetric] t1_def [symmetric]
    by (auto simp: bind_eq_Some_conv split: if_splits)
  define t3 where "t3 = just_call E (File (Fclose (a_num a))) t2"
  obtain r sinfo t4 where sn: "showSnLicense E (replicate allinfo_size 0) t3 = (r, sinfo, t4)" by (metis prod_cases3)
  define d1 where "d1 = poke d0 128 (strcpy (str ''1234567''))"
  define d2 where "d2 = (if r = 0
    then poke (poke d1 64 (strncpy (peek sinfo 0 32) 31)) 136 (strncpy (peek sinfo 32 256) 119)
    else poke (poke d1 64 (replicate 32 0)) 136 (replicate 120 0))"
  obtain m t5 where mc: "memcpy mem off d2 t4 = (m, t5)" by fastforce
  have "r = 0 \<Longrightarrow> memcpy mem off (poke (poke d1 64 (strncpy (peek sinfo 0 32) 31)) 136 (strncpy (peek sinfo 32 256) 119)) t4 = (m, t5)"
    "r \<noteq> 0 \<Longrightarrow> memcpy mem off (poke (poke d1 64 (replicate 32 0)) 136 (replicate 120 0)) t4 = (m, t5)"
    using mc by (simp_all add: d2_def)
  then have res: "mem' = m" "used = Some 256" "tr' = t5"
    using run b unfolding usFirmware_GetInfo_def do_call_eq a_def [symmetric] t1_def [symmetric]
    by (auto simp: l Let_def t3_def [symmetric] sn d1_def [symmetric] split: if_splits)
  have f4: "faults t4 = faults t2"
    using sn by (auto simp: showSnLicense_def Let_def call_eqs read_fd_def t3_def split: if_splits)
  obtain fs where fs: "faults t2 = faults tr @ fs" "fs = [] \<longrightarrow> length d0 = dinfo_size"
    using firm_lines_kept [OF l] by (auto simp: block_kept_def t1_def)
  have f5: "m = poke mem off d2 \<and> t5 = t4 \<or> m = mem \<and> t5 = t4 @ [Fault OutOfBounds]"
    using mc by (auto simp: memcpy_def split: if_splits)
  have "fs = []" "t5 = t4" using f5 fs f4 clean res by auto
  then have l0: "length d0 = 256" and m: "m = poke mem off d2" using fs f5 by auto
  have ls: "length (strcpy (str ''1234567'')) = 8" by (simp add: strcpy_def str_def cstr_def)
  have l1: "length d1 = 256" using l0 ls by (simp add: d1_def length_poke)
  have l2: "length d2 = 256" using l1 by (simp add: d2_def length_poke)
  have c: "peek d2 128 8 = strcpy (str ''1234567'')"
    using l1 l0 ls unfolding d2_def d1_def
    by (simp add: peek_poke_before peek_poke_after peek_poke_same length_poke)
  then have card: "cstr (peek d2 128 8) = str ''1234567''"
    by (simp add: cstr_id str_def)
  obtain es where es: "t3 = tr @ es"
    using firm_lines_extends [OF l] by (auto simp: t1_def t3_def just_call_eq)
  obtain fl blk where fl: "t4 = t3 @ fl" "license_read fl blk" "case blk of None \<Rightarrow> r \<noteq> 0
      | Some b \<Rightarrow> if license_ok b then r = 0 \<and> sinfo = b else r \<noteq> 0"
    using showSn_spec [OF sn] by blast
  have given: "peek d2 64 31 = strncpy (peek sinfo 0 32) 31 \<and> peek d2 136 119 = strncpy (peek sinfo 32 256) 119" if "r = 0"
    using that l1 by (simp add: d2_def peek_poke_before peek_poke_same length_poke)
  have none: "peek d2 64 32 = replicate 32 0 \<and> peek d2 136 120 = replicate 120 0" if "r \<noteq> 0"
    using that l1 by (simp add: d2_def peek_poke_before peek_poke_same length_poke)
  have "tr' = tr @ es @ fl" using res \<open>t5 = t4\<close> fl(1) es by simp
  moreover have "case blk of
       None \<Rightarrow> peek d2 64 32 = replicate 32 0 \<and> peek d2 136 120 = replicate 120 0
     | Some info \<Rightarrow> if license_ok info
         then peek d2 64 31 = strncpy (peek info 0 32) 31 \<and> peek d2 136 119 = strncpy (peek info 32 256) 119
         else peek d2 64 32 = replicate 32 0 \<and> peek d2 136 120 = replicate 120 0"
    using fl(3) given none by (auto split: option.splits if_splits)
  ultimately show ?thesis using res m l2 card fl(2) by blast
qed

end
