(* ===== verification/Ustor_Usb.thy ===== *)
theory Ustor_Usb
  imports Ustor_Proto
begin

text \<open>
  usUsb.c: the layer over libusb. \<open>usbInfo\<close> identifies the claimed interface; a packet is
  received by one bulk transfer and sent by as many as it takes. The send loop ends only
  when everything was accepted or a transfer failed, so it is a partial function: it does
  not return when the device goes on accepting nothing without an error.
\<close>

section \<open>State\<close>

record usbInfo =
  ui_bus :: u8
  ui_address :: u8
  ui_vid :: u16
  ui_pid :: u16
  ui_interface :: u8
  ui_ep_in :: u8
  ui_ep_out :: u8
  ui_wMaxPacketSize :: int
  ui_osPriv :: ptr

definition usbInfo0 :: usbInfo where
  "usbInfo0 = \<lparr>ui_bus = 0, ui_address = 0, ui_vid = 0, ui_pid = 0, ui_interface = 0,
     ui_ep_in = 0, ui_ep_out = 0, ui_wMaxPacketSize = 0, ui_osPriv = 0\<rparr>"

section \<open>Operations\<close>

text \<open>The static flag \<open>usbinit\<close> is read and, in the code, never written.\<close>

definition usUsb_Init :: "os \<Rightarrow> u8 \<Rightarrow> trace \<Rightarrow> int \<times> u8 \<times> trace" where
  "usUsb_Init E usbinit tr =
     (if usbinit = 1 then (EUSTOR_OK, usbinit, tr)
      else let (res, tr) = ret_call E (Usb UsbInit) tr in
        if res \<noteq> 0 then (EUSTOR_USB_INIT, usbinit, tr) else (EUSTOR_OK, usbinit, tr))"

definition usUsb_releaseInterface :: "os \<Rightarrow> usbInfo option \<Rightarrow> trace \<Rightarrow> int \<times> trace" where
  "usUsb_releaseInterface E usbDev tr =
     (case usbDev of None \<Rightarrow> (EUSTOR_ARG, tr)
      | Some d \<Rightarrow>
        let tr = just_call E (Usb (ReleaseInterface (ui_osPriv d) (ui_interface d))) tr;
            tr = just_call E (Usb (CloseDevice (ui_osPriv d))) tr
        in (EUSTOR_OK, tr))"

text \<open>The result of the transfer is stored in an \<open>int8_t\<close> before it is tested.\<close>

definition usUsb_SendControlRequest ::
    "os \<Rightarrow> ptr \<Rightarrow> u8 \<Rightarrow> u8 \<Rightarrow> u16 \<Rightarrow> u16 \<Rightarrow> bytes \<Rightarrow> trace \<Rightarrow> int \<times> trace" where
  "usUsb_SendControlRequest E osPriv bmRequestType bRequest wValue wIndex data tr =
     (let (r, tr) = ret_call E (Usb (ControlOut osPriv bmRequestType bRequest wValue wIndex data)) tr;
          rc = sint (word_of_int r :: u8)
      in (if rc < 0 then EUSTOR_USB_CONTROL else EUSTOR_OK, tr))"

definition usUsb_GetDeviceDescriptor :: "os \<Rightarrow> ptr \<Rightarrow> trace \<Rightarrow> int \<times> dev_desc option \<times> trace" where
  "usUsb_GetDeviceDescriptor E osPriv tr =
     (if osPriv = 0 then (EUSTOR_ARG, None, tr)
      else let (a, tr) = do_call E (Usb (GetDeviceDescriptor osPriv)) tr in
        if a_ret a \<noteq> 0 then (EUSTOR_USB_GETDEVDES, None, tr)
        else (EUSTOR_OK, Some (a_desc a), tr))"

definition usUsb_SetDeviceConfigDescriptor :: "os \<Rightarrow> ptr \<Rightarrow> u8 \<Rightarrow> trace \<Rightarrow> int \<times> trace" where
  "usUsb_SetDeviceConfigDescriptor E osPriv cfgindex tr =
     (if osPriv = 0 then (EUSTOR_ARG, tr)
      else let (rc, tr) = ret_call E (Usb (SetConfiguration osPriv (uint cfgindex))) tr in
        if rc \<noteq> 0 then (EUSTOR_USB_SETDEVDES, tr) else (EUSTOR_OK, tr))"

text \<open>The error of a bulk transfer, in the order both routines test it.\<close>

definition bulk_error :: "int \<Rightarrow> int" where
  "bulk_error rc =
     (if rc = LIBUSB_ERROR_TIMEOUT then EUSTOR_USB_TIMEOUT
      else if rc = LIBUSB_ERROR_NO_DEVICE then EUSTOR_USB_OFFLINE
      else if rc = LIBUSB_ERROR_OVERFLOW then EUSTOR_USB_OVERFLOW
      else if rc < 0 then EUSTOR_USB_BULKERR
      else EUSTOR_OK)"

text \<open>
  \<open>usUsb_BlukPacketReceive\<close> stores the received bytes at the start of the buffer of
  \<open>length\<close> bytes: the model returns them, the caller stores them. On an error nothing is
  reported (\<open>*aLength\<close> is not written); what the transfer may have stored is not modelled.
\<close>

definition usUsb_BlukPacketReceive ::
    "os \<Rightarrow> usbInfo \<Rightarrow> nat \<Rightarrow> int \<Rightarrow> trace \<Rightarrow> int \<times> bytes \<times> trace" where
  "usUsb_BlukPacketReceive E usbDev len timeout tr =
     (if ui_osPriv usbDev = 0 then (EUSTOR_ARG, [], tr)
      else let (rc, data, tr) = bulk_in E (ui_osPriv usbDev) (ui_ep_in usbDev) len timeout tr in
        if bulk_error rc \<noteq> EUSTOR_OK then (bulk_error rc, [], tr)
        else (EUSTOR_OK, data, tr))"

partial_function (option) bulk_send_loop ::
    "os \<Rightarrow> usbInfo \<Rightarrow> bytes \<Rightarrow> int \<Rightarrow> nat \<Rightarrow> trace \<Rightarrow> (int \<times> trace) option" where
  "bulk_send_loop E usbDev data timeout already tr =
     (let (rc, transferred, tr) =
        bulk_out E (ui_osPriv usbDev) (ui_ep_out usbDev) (drop already data) timeout tr
      in if bulk_error rc \<noteq> EUSTOR_OK then Some (bulk_error rc, tr)
         else let already = already + transferred in
           if already < length data then bulk_send_loop E usbDev data timeout already tr
           else Some (EUSTOR_OK, tr))"

declare bulk_send_loop.simps [code]

text \<open>The packet is the \<open>length\<close> bytes at \<open>buffer\<close>; an empty one is a zero-length packet.\<close>

definition usUsb_BlukPacketSend ::
    "os \<Rightarrow> usbInfo \<Rightarrow> bytes \<Rightarrow> int \<Rightarrow> trace \<Rightarrow> (int \<times> trace) option" where
  "usUsb_BlukPacketSend E usbDev data timeout tr =
     (if ui_osPriv usbDev = 0 then Some (EUSTOR_ARG, tr)
      else bulk_send_loop E usbDev data timeout 0 tr)"

section \<open>What a send does\<close>

text \<open>
  The law of libusb that termination needs: a transfer of a non-empty buffer that reports
  success accepted at least one byte.
\<close>

definition bulk_progress :: "os \<Rightarrow> bool" where
  "bulk_progress E = (\<forall>tr h ep data t.
     data \<noteq> [] \<longrightarrow> 0 \<le> a_ret (E tr (Usb (BulkOut h ep data t))) \<longrightarrow>
     0 < a_num (E tr (Usb (BulkOut h ep data t))))"

lemma bulk_error_range: "bulk_error rc \<noteq> EUSTOR_ARG" "bulk_error rc \<noteq> EUSTOR_PRO_REFUSE"
  by (auto simp: bulk_error_def)

lemma bulk_error_ok: "bulk_error rc = EUSTOR_OK \<longleftrightarrow> 0 \<le> rc"
  by (auto simp: bulk_error_def)

lemma bulk_send_loop_wrote:
  "bulk_send_loop E d data t already tr = Some y \<Longrightarrow> already \<le> length data \<Longrightarrow>
   \<exists>n. already + n \<le> length data \<and>
     wrote (ui_osPriv d) (ui_ep_out d) tr (snd y) (take n (drop already data)) \<and>
     (fst y = EUSTOR_OK \<longrightarrow> already + n = length data)"
proof (induct rule: bulk_send_loop.raw_induct [rotated, consumes 1, case_names step])
  case (step loop E d data t already tr y)
  obtain rc k tr1 where out:
    "bulk_out E (ui_osPriv d) (ui_ep_out d) (drop already data) t tr = (rc, k, tr1)"
    by (cases "bulk_out E (ui_osPriv d) (ui_ep_out d) (drop already data) t tr") auto
  have k: "already + k \<le> length data"
    and w: "wrote (ui_osPriv d) (ui_ep_out d) tr tr1 (take k (drop already data))"
    using wrote_bulk_out [OF out] step.prems by auto
  show ?case
  proof (cases "bulk_error rc = EUSTOR_OK \<and> already + k < length data")
    case True
    then have "loop E d data t (already + k) tr1 = Some y"
      using step.hyps(2) out by (simp add: Let_def)
    from step.hyps(1) [OF this] k obtain n where n: "already + k + n \<le> length data"
      "wrote (ui_osPriv d) (ui_ep_out d) tr1 (snd y) (take n (drop (already + k) data))"
      "fst y = EUSTOR_OK \<longrightarrow> already + k + n = length data" by auto
    have "wrote (ui_osPriv d) (ui_ep_out d) tr (snd y) (take (k + n) (drop already data))"
      using wrote_trans [OF w n(2)] by (simp add: take_add add.commute)
    then show ?thesis using n by (intro exI [of _ "k + n"]) (simp add: add.assoc)
  next
    case False
    then show ?thesis using step.hyps(2) out k w
      by (intro exI [of _ k]) (auto simp: Let_def split: if_splits)
  qed
qed

lemma bulk_send_loop_got:
  "bulk_send_loop E d data t already tr = Some y \<Longrightarrow> got h ep (snd y) = got h ep tr"
  by (induct rule: bulk_send_loop.raw_induct [rotated, consumes 1, case_names step])
    (auto simp: Let_def bulk_out_def do_call_eq split: prod.splits if_splits)

text \<open>
  What a sender promises: it wrote a prefix of the packet on its endpoint and nothing else,
  all of it when it returned \<open>EUSTOR_OK\<close>, and it consumed no input.
\<close>

definition delivers :: "usbInfo \<Rightarrow> bytes \<Rightarrow> trace \<Rightarrow> int \<Rightarrow> trace \<Rightarrow> bool" where
  "delivers d data tr r tr' = ((\<exists>n \<le> length data.
     wrote (ui_osPriv d) (ui_ep_out d) tr tr' (take n data) \<and> (r = EUSTOR_OK \<longrightarrow> n = length data)) \<and>
     (\<forall>h ep. got h ep tr' = got h ep tr))"

lemma send_delivers:
  assumes "usUsb_BlukPacketSend E d data t tr = Some (r, tr')"
  shows "delivers d data tr r tr'"
proof (cases "ui_osPriv d = 0")
  case True
  then show ?thesis
    using assms by (auto simp: usUsb_BlukPacketSend_def delivers_def intro: exI [of _ "0::nat"])
next
  case False
  then have "bulk_send_loop E d data t 0 tr = Some (r, tr')"
    using assms by (simp add: usUsb_BlukPacketSend_def)
  from bulk_send_loop_wrote [OF this] bulk_send_loop_got [OF this]
  show ?thesis by (auto simp: delivers_def)
qed

lemma delivers_got: "delivers d data tr r tr' \<Longrightarrow> got h ep tr' = got h ep tr"
  by (simp add: delivers_def)

lemma delivers_clean: "delivers d data tr r tr' \<Longrightarrow> clean tr tr'"
  by (auto simp: delivers_def dest: wrote_clean)

lemma delivers_ok: "delivers d data tr EUSTOR_OK tr' \<Longrightarrow>
    wrote (ui_osPriv d) (ui_ep_out d) tr tr' data"
  by (auto simp: delivers_def)

lemma bulk_send_loop_result:
  "bulk_send_loop E d data t already tr = Some y \<Longrightarrow>
   fst y \<in> {EUSTOR_OK, EUSTOR_USB_TIMEOUT, EUSTOR_USB_OFFLINE, EUSTOR_USB_OVERFLOW, EUSTOR_USB_BULKERR}"
  by (induct rule: bulk_send_loop.raw_induct [rotated, consumes 1, case_names step])
    (auto simp: Let_def bulk_error_def split: prod.splits if_splits)

lemma send_not_refused:
  "usUsb_BlukPacketSend E d data t tr = Some (r, tr') \<Longrightarrow> r \<noteq> EUSTOR_PRO_REFUSE"
  using bulk_send_loop_result [of E d data t 0 tr "(r, tr')"]
  by (auto simp: usUsb_BlukPacketSend_def split: if_splits)

lemma bulk_send_loop_total:
  "bulk_progress E \<Longrightarrow> \<exists>y. bulk_send_loop E d data t already tr = Some y"
proof (induct "length data - already" arbitrary: already tr rule: less_induct)
  case less
  obtain rc k tr1 where out:
    "bulk_out E (ui_osPriv d) (ui_ep_out d) (drop already data) t tr = (rc, k, tr1)"
    by (cases "bulk_out E (ui_osPriv d) (ui_ep_out d) (drop already data) t tr") auto
  show ?case
  proof (cases "bulk_error rc = EUSTOR_OK \<and> already + k < length data")
    case True
    then have "0 \<le> rc" "drop already data \<noteq> []" by (auto simp: bulk_error_ok)
    with less.prems out have "0 < k"
      by (auto simp: bulk_progress_def bulk_out_def do_call_eq)
    with True have "length data - (already + k) < length data - already" by linarith
    from less.hyps [OF this less.prems] show ?thesis
      using True out by (subst bulk_send_loop.simps) (simp add: Let_def)
  next
    case False
    then show ?thesis using out by (subst bulk_send_loop.simps) (auto simp: Let_def)
  qed
qed

lemma send_total:
  "bulk_progress E \<Longrightarrow> \<exists>r tr'. usUsb_BlukPacketSend E d data t tr = Some (r, tr')"
  using bulk_send_loop_total [of E d data t 0 tr] by (auto simp: usUsb_BlukPacketSend_def)

lemma send_no_device: "ui_osPriv d = 0 \<Longrightarrow> usUsb_BlukPacketSend E d data t tr = Some (EUSTOR_ARG, tr)"
  by (simp add: usUsb_BlukPacketSend_def)

section \<open>What a receive does\<close>

lemma receive_clean:
  "usUsb_BlukPacketReceive E d len t tr = (r, data, tr') \<Longrightarrow>
   length data \<le> len \<and> wrote h ep tr tr' [] \<and> (r \<noteq> EUSTOR_OK \<longrightarrow> data = [])"
  by (auto simp: usUsb_BlukPacketReceive_def Let_def dest: wrote_bulk_in split: prod.splits if_splits)

lemma receive_got:
  "usUsb_BlukPacketReceive E d len t tr = (r, data, tr') \<Longrightarrow>
   got (ui_osPriv d) (ui_ep_in d) tr' = got (ui_osPriv d) (ui_ep_in d) tr @ data"
  by (auto simp: usUsb_BlukPacketReceive_def bulk_in_def do_call_eq Let_def bulk_error_ok
      split: prod.splits if_splits)

lemma receive_not_refused:
  "usUsb_BlukPacketReceive E d len t tr = (r, data, tr') \<Longrightarrow> r \<noteq> EUSTOR_PRO_REFUSE"
  using bulk_error_range(2)
  by (auto simp: usUsb_BlukPacketReceive_def Let_def split: prod.splits if_splits)

end
