(* ===== verification/Ustor_Itunes.thy ===== *)
theory Ustor_Itunes
  imports Ustor_Usb
begin

text \<open>
  The iPhone side of usProtocol.c: the usbmux framing, the TCP-like connection over it
  (version exchange, SYN handshake, windows, acknowledgements) and the two data operations,
  \<open>itunes_SendProPackage\<close> and \<open>itunes_RecvProPackage\<close>. The state is \<open>mux_itunes\<close>. A buffer of
  the caller is a memory image and an offset into it, because the sender writes the packet
  header in front of the payload it is given, over bytes already sent.
\<close>

section \<open>State and headers\<close>

abbreviation IOS_INTERBUF_SIZE :: nat where "IOS_INTERBUF_SIZE \<equiv> 49152"
abbreviation IOS_MAX_PACKET :: nat where "IOS_MAX_PACKET \<equiv> 32764"
abbreviation IOS_WIN_SIZE :: u32 where "IOS_WIN_SIZE \<equiv> 131072"
abbreviation PACKAGE_TIMEOUT :: int where "PACKAGE_TIMEOUT \<equiv> 5000"
abbreviation PACKAGE_TIMEOUT_SND :: int where "PACKAGE_TIMEOUT_SND \<equiv> 3000"

abbreviation TH_SYN :: u8 where "TH_SYN \<equiv> 0x02"
abbreviation TH_RST :: u8 where "TH_RST \<equiv> 0x04"
abbreviation TH_ACK :: u8 where "TH_ACK \<equiv> 0x10"

datatype mux_protocol = MUX_PROTO_VERSION | MUX_PROTO_CONTROL | MUX_PROTO_SETUP | MUX_PROTO_TCP

fun proto_num :: "mux_protocol \<Rightarrow> u32" where
  "proto_num MUX_PROTO_VERSION = 0"
| "proto_num MUX_PROTO_CONTROL = 1"
| "proto_num MUX_PROTO_SETUP = 2"
| "proto_num MUX_PROTO_TCP = 6"

record mux_itunes =
  mx_version :: u8
  mx_irx_seq :: u16
  mx_itx_seq :: u16
  mx_sport :: u16
  mx_dport :: u16
  mx_tx_seq :: u32
  mx_tx_ack :: u32
  mx_tx_acked :: u32
  mx_tx_win :: u32
  mx_rx_seq :: u32
  mx_rx_recvd :: u32
  mx_rx_ack :: u32
  mx_rx_win :: u32
  mx_flags :: u32
  mx_usbIOS :: usbInfo
  mx_interBuf :: bytes

text \<open>
  \<open>struct mux_header\<close>, as it lies in memory (its fields are big-endian). Before version 2 only
  its first 8 bytes exist on the wire.
\<close>

record mux_header =
  mh_protocol :: u32
  mh_length :: u32
  mh_magic :: u32
  mh_tx_seq :: u16
  mh_rx_seq :: u16

definition mux_header_size :: "u8 \<Rightarrow> nat" where
  "mux_header_size version = (if version < 2 then 8 else 16)"

definition enc_mux_header :: "u8 \<Rightarrow> mux_header \<Rightarrow> bytes" where
  "enc_mux_header version h = put32 (mh_protocol h) @ put32 (mh_length h) @
     (if version < 2 then [] else put32 (mh_magic h) @ put16 (mh_tx_seq h) @ put16 (mh_rx_seq h))"

definition dec_mux_header :: "bytes \<Rightarrow> mux_header" where
  "dec_mux_header m = \<lparr>mh_protocol = get32 m 0, mh_length = get32 m 4, mh_magic = get32 m 8,
     mh_tx_seq = get16 m 12, mh_rx_seq = get16 m 14\<rparr>"

text \<open>\<open>struct tcphdr\<close>; the two 4-bit fields \<open>th_x2\<close> (low) and \<open>th_off\<close> (high) are one byte.\<close>

record tcphdr =
  th_sport :: u16
  th_dport :: u16
  th_seq :: u32
  th_ack :: u32
  th_x2_off :: u8
  th_flags :: u8
  th_win :: u16
  th_sum :: u16
  th_urp :: u16

abbreviation tcphdr_size :: nat where "tcphdr_size \<equiv> 20"

definition enc_tcphdr :: "tcphdr \<Rightarrow> bytes" where
  "enc_tcphdr h = put16 (th_sport h) @ put16 (th_dport h) @ put32 (th_seq h) @ put32 (th_ack h) @
     [th_x2_off h, th_flags h] @ put16 (th_win h) @ put16 (th_sum h) @ put16 (th_urp h)"

definition dec_tcphdr :: "bytes \<Rightarrow> tcphdr" where
  "dec_tcphdr m = \<lparr>th_sport = get16 m 0, th_dport = get16 m 2, th_seq = get32 m 4,
     th_ack = get32 m 8, th_x2_off = get8 m 12, th_flags = get8 m 13, th_win = get16 m 14,
     th_sum = get16 m 16, th_urp = get16 m 18\<rparr>"

interpretation tcp_hd: packed_struct enc_tcphdr dec_tcphdr tcphdr_size "\<lambda>_. True"
  by unfold_locales (simp_all add: enc_tcphdr_def dec_tcphdr_def codec_simps)

interpretation mux_hd: packed_struct "enc_mux_header 2" dec_mux_header 16 "\<lambda>_. True"
  by unfold_locales (simp_all add: enc_mux_header_def dec_mux_header_def codec_simps)

text \<open>The headers an outgoing packet of \<open>tlen\<close> bytes gets from the state of the connection.\<close>

definition mux_of :: "mux_itunes \<Rightarrow> mux_protocol \<Rightarrow> nat \<Rightarrow> mux_header" where
  "mux_of dev proto tlen = \<lparr>mh_protocol = htonl (proto_num proto), mh_length = htonl (of_nat tlen),
     mh_magic = htonl 0xfeedface, mh_tx_seq = htons (mx_itx_seq dev), mh_rx_seq = htons (mx_irx_seq dev)\<rparr>"

definition tcp_of :: "mux_itunes \<Rightarrow> u8 \<Rightarrow> tcphdr" where
  "tcp_of dev flags = \<lparr>th_sport = htons (mx_sport dev), th_dport = htons (mx_dport dev),
     th_seq = htonl (mx_tx_seq dev), th_ack = htonl (mx_tx_ack dev), th_x2_off = 0x50,
     th_flags = flags, th_win = htons (ucast (drop_bit 8 (mx_tx_win dev))), th_sum = 0, th_urp = 0\<rparr>"

definition bump_itx :: "mux_itunes \<Rightarrow> mux_itunes" where
  "bump_itx dev = (if mx_version dev < 2 then dev else dev\<lparr>mx_itx_seq := mx_itx_seq dev + 1\<rparr>)"

section \<open>Sending packets\<close>

definition find_sport :: "u16 \<Rightarrow> u16 \<times> u16" where
  "find_sport tcport = (let tcport = (if tcport = 0xFFFF then 0 else tcport) in (tcport + 1, tcport + 1))"

fun proto_hdrlen :: "mux_protocol \<Rightarrow> nat option" where
  "proto_hdrlen MUX_PROTO_VERSION = Some 12"
| "proto_hdrlen MUX_PROTO_SETUP = Some 0"
| "proto_hdrlen MUX_PROTO_TCP = Some tcphdr_size"
| "proto_hdrlen MUX_PROTO_CONTROL = None"

text \<open>The packet and, when it fills its last USB packet, a zero-length packet after it.\<close>

definition send_whole ::
    "os \<Rightarrow> mux_itunes \<Rightarrow> bytes \<Rightarrow> trace \<Rightarrow> (int \<times> mux_itunes \<times> trace) option" where
  "send_whole E dev pkt tr = do {
     (res, tr) \<leftarrow> usUsb_BlukPacketSend E (mx_usbIOS dev) pkt PACKAGE_TIMEOUT_SND tr;
     if res \<noteq> EUSTOR_OK then Some (res, dev, tr)
     else if length pkt mod 512 = 0 then do {
       (_, tr) \<leftarrow> usUsb_BlukPacketSend E (mx_usbIOS dev) [] PACKAGE_TIMEOUT_SND tr;
       Some (EUSTOR_OK, dev, tr)
     }
     else Some (EUSTOR_OK, dev, tr)
   }"

text \<open>\<open>header\<close> is the \<open>hdrlen\<close> bytes at the pointer, \<open>data\<close> the \<open>length\<close> bytes at the other.\<close>

definition itunes_InterMemSendPacket ::
    "os \<Rightarrow> mux_itunes \<Rightarrow> mux_protocol \<Rightarrow> bytes \<Rightarrow> bytes \<Rightarrow> trace \<Rightarrow> (int \<times> mux_itunes \<times> trace) option" where
  "itunes_InterMemSendPacket E dev proto header data tr =
     (case proto_hdrlen proto of
        None \<Rightarrow> Some (EUSTOR_PRO_PGEPRO, dev, tr)
      | Some hdrlen \<Rightarrow>
        let mhs = mux_header_size (mx_version dev); tlen = mhs + hdrlen + length data in
        if tlen > IOS_INTERBUF_SIZE then Some (EUSTOR_MEM, dev, tr)
        else
          let dev = (if 2 \<le> mx_version dev \<and> proto = MUX_PROTO_SETUP
                     then dev\<lparr>mx_itx_seq := 0, mx_irx_seq := 0xFFFF\<rparr> else dev);
              buf = poke (mx_interBuf dev) 0 (enc_mux_header (mx_version dev) (mux_of dev proto tlen));
              buf = poke buf mhs header;
              buf = poke buf (mhs + hdrlen) data;
              dev = (bump_itx dev)\<lparr>mx_interBuf := buf\<rparr>
          in send_whole E dev (take tlen buf) tr)"

text \<open>
  The end of \<open>itunes_SendTCP\<close>: the remaining packet, \<open>tx_acked\<close>, and a zero-length packet when
  the packet filled its last USB packet.
\<close>

definition send_tail ::
    "os \<Rightarrow> mux_itunes \<Rightarrow> bytes \<Rightarrow> trace \<Rightarrow> (int \<times> mux_itunes \<times> trace) option" where
  "send_tail E dev pkt tr = do {
     (res, tr) \<leftarrow> (if pkt \<noteq> [] then usUsb_BlukPacketSend E (mx_usbIOS dev) pkt PACKAGE_TIMEOUT_SND tr
                   else Some (EUSTOR_OK, tr));
     if res \<noteq> EUSTOR_OK then Some (res, dev, tr)
     else
       let dev = dev\<lparr>mx_tx_acked := mx_tx_ack dev\<rparr> in
       if pkt \<noteq> [] \<and> length pkt mod 512 = 0 then do {
         (_, tr) \<leftarrow> usUsb_BlukPacketSend E (mx_usbIOS dev) [] PACKAGE_TIMEOUT_SND tr;
         Some (EUSTOR_OK, dev, tr)
       }
       else Some (EUSTOR_OK, dev, tr)
   }"

text \<open>
  \<open>mem\<close> is the object both pointers point into, \<open>iosHeaderAddress\<close> and \<open>payload\<close> are offsets
  in it (\<open>None\<close> is NULL). Without a header address the packet is built in \<open>interBuf\<close>.
\<close>

definition itunes_SendTCP ::
    "os \<Rightarrow> mux_itunes \<Rightarrow> u8 \<Rightarrow> bytes \<Rightarrow> nat option \<Rightarrow> nat option \<Rightarrow> nat \<Rightarrow> trace \<Rightarrow>
     (int \<times> mux_itunes \<times> bytes \<times> trace) option" where
  "itunes_SendTCP E dev flags mem iosHeaderAddress payload len tr =
     (let mhs = mux_header_size (mx_version dev); tlen = mhs + tcphdr_size + len;
          headers = enc_mux_header (mx_version dev) (mux_of dev MUX_PROTO_TCP tlen)
            @ enc_tcphdr (tcp_of dev flags)
      in case iosHeaderAddress of
        None \<Rightarrow>
          if tlen > IOS_INTERBUF_SIZE then Some (EUSTOR_MEM, dev, mem, tr)
          else
            let buf = poke (mx_interBuf dev) 0 headers in
            if len \<noteq> 0 \<and> payload \<noteq> None then
              let tr = fault_if (the payload + len > length mem) OutOfBounds tr;
                  buf = poke buf (mhs + tcphdr_size) (peek mem (the payload) len);
                  dev = (bump_itx dev)\<lparr>mx_interBuf := buf\<rparr>
              in do {
                (res, dev, tr) \<leftarrow> send_tail E dev (take tlen buf) tr;
                Some (res, dev, mem, tr)
              }
            else
              let dev = (bump_itx dev)\<lparr>mx_interBuf := buf\<rparr> in do {
                (res, tr) \<leftarrow> usUsb_BlukPacketSend E (mx_usbIOS dev) (take tlen buf) PACKAGE_TIMEOUT_SND tr;
                if res \<noteq> EUSTOR_OK then Some (res, dev, mem, tr)
                else do {
                  (res, dev, tr) \<leftarrow> send_tail E dev [] (fault_if (len \<noteq> 0) NullPtr tr);
                  Some (res, dev, mem, tr)
                }
              }
      | Some at \<Rightarrow>
          let (mem, tr) = memcpy mem at headers tr;
              dev = bump_itx dev
          in if payload = Some (at + mhs + tcphdr_size) then do {
               (res, dev, tr) \<leftarrow>
                  send_tail E dev (peek mem at tlen) (fault_if (at + tlen > length mem) OutOfBounds tr);
               Some (res, dev, mem, tr)
             }
             else do {
               (res, tr) \<leftarrow> usUsb_BlukPacketSend E (mx_usbIOS dev) (peek mem at tlen) PACKAGE_TIMEOUT_SND
                  (fault_if (at + tlen > length mem) OutOfBounds tr);
               if res \<noteq> EUSTOR_OK then Some (res, dev, mem, tr)
               else
                 let pkt = (case payload of None \<Rightarrow> [] | Some p \<Rightarrow> peek mem p len);
                     tr = fault_if (length pkt \<noteq> len) (if payload = None then NullPtr else OutOfBounds) tr
                 in do {
                   (res, dev, tr) \<leftarrow> send_tail E dev pkt tr;
                   Some (res, dev, mem, tr)
                 }
             })"

text \<open>
  \<open>itunes_SendPacket\<close> sends a packet of any protocol with the given header behind the multiplexer's, with the
  payload and addresses of \<open>itunes_SendTCP\<close>.
\<close>

definition send_rest ::
    "os \<Rightarrow> mux_itunes \<Rightarrow> bytes \<Rightarrow> trace \<Rightarrow> (int \<times> mux_itunes \<times> trace) option" where
  "send_rest E dev pkt tr =
     (if pkt = [] then Some (EUSTOR_OK, dev, tr) else send_whole E dev pkt tr)"

definition itunes_SendPacket ::
    "os \<Rightarrow> mux_itunes \<Rightarrow> mux_protocol \<Rightarrow> bytes \<Rightarrow> bytes \<Rightarrow> nat option \<Rightarrow> nat option \<Rightarrow> nat \<Rightarrow> trace \<Rightarrow>
     (int \<times> mux_itunes \<times> bytes \<times> trace) option" where
  "itunes_SendPacket E dev proto header mem iosHeaderAddress payload len tr =
     (case proto_hdrlen proto of
        None \<Rightarrow> Some (EUSTOR_PRO_PGEPRO, dev, mem, tr)
      | Some hdrlen \<Rightarrow>
        let mhs = mux_header_size (mx_version dev); tlen = mhs + hdrlen + len in
        if iosHeaderAddress = None \<and> tlen > IOS_INTERBUF_SIZE then Some (EUSTOR_MEM, dev, mem, tr)
        else
          let dev = (if 2 \<le> mx_version dev \<and> proto = MUX_PROTO_SETUP
                     then dev\<lparr>mx_itx_seq := 0, mx_irx_seq := 0xFFFF\<rparr> else dev);
              headers = enc_mux_header (mx_version dev) (mux_of dev proto tlen) @ header
          in case iosHeaderAddress of
            None \<Rightarrow>
              let buf = poke (mx_interBuf dev) 0 headers in
              if len \<noteq> 0 \<and> payload \<noteq> None then
                let tr = fault_if (the payload + len > length mem) OutOfBounds tr;
                    buf = poke buf (mhs + hdrlen) (peek mem (the payload) len);
                    dev = (bump_itx dev)\<lparr>mx_interBuf := buf\<rparr>
                in do {
                  (res, dev, tr) \<leftarrow> send_rest E dev (take tlen buf) tr;
                  Some (res, dev, mem, tr)
                }
              else
                let dev = (bump_itx dev)\<lparr>mx_interBuf := buf\<rparr> in do {
                  (res, tr) \<leftarrow> usUsb_BlukPacketSend E (mx_usbIOS dev) (take tlen buf) PACKAGE_TIMEOUT_SND tr;
                  if res \<noteq> EUSTOR_OK then Some (res, dev, mem, tr)
                  else do {
                    (res, dev, tr) \<leftarrow> send_rest E dev [] (fault_if (len \<noteq> 0) NullPtr tr);
                    Some (res, dev, mem, tr)
                  }
                }
          | Some at \<Rightarrow>
              let (mem, tr) = memcpy mem at headers tr;
                  dev = bump_itx dev
              in if payload = Some (at + mhs + hdrlen) then do {
                   (res, dev, tr) \<leftarrow>
                      send_rest E dev (peek mem at tlen) (fault_if (at + tlen > length mem) OutOfBounds tr);
                   Some (res, dev, mem, tr)
                 }
                 else do {
                   (res, tr) \<leftarrow> usUsb_BlukPacketSend E (mx_usbIOS dev) (peek mem at tlen) PACKAGE_TIMEOUT_SND
                      (fault_if (at + tlen > length mem) OutOfBounds tr);
                   if res \<noteq> EUSTOR_OK then Some (res, dev, mem, tr)
                   else
                     let pkt = (case payload of None \<Rightarrow> [] | Some p \<Rightarrow> peek mem p len);
                         tr = fault_if (length pkt \<noteq> len) (if payload = None then NullPtr else OutOfBounds) tr
                     in do {
                       (res, dev, tr) \<leftarrow> send_rest E dev pkt tr;
                       Some (res, dev, mem, tr)
                     }
                 })"

text \<open>
  With the protocol TCP and the header of a segment it does what \<open>itunes_SendTCP\<close> does, which also notes what
  was acknowledged when it succeeds.
\<close>

definition note_acked :: "int \<times> mux_itunes \<times> 'a \<Rightarrow> int \<times> mux_itunes \<times> 'a" where
  "note_acked = (\<lambda>(res, dev, x). (res, if res = EUSTOR_OK then dev\<lparr>mx_tx_acked := mx_tx_ack dev\<rparr> else dev, x))"

lemma send_tail_rest: "send_tail E dev pkt tr = map_option note_acked (send_rest E dev pkt tr)"
  by (auto simp: send_tail_def send_rest_def send_whole_def note_acked_def bind_eq_None_conv
      split: Option.bind_splits)

lemma SendTCP_is_SendPacket:
  "itunes_SendTCP E dev flags mem at payload len tr =
   map_option note_acked (itunes_SendPacket E dev MUX_PROTO_TCP (enc_tcphdr (tcp_of dev flags)) mem at payload len tr)"
  by (cases at) (auto simp: itunes_SendTCP_def itunes_SendPacket_def send_tail_rest Let_def note_acked_def case_prod_beta
      split: Option.bind_splits)

definition itunes_SendTCPAck ::
    "os \<Rightarrow> mux_itunes \<Rightarrow> trace \<Rightarrow> (int \<times> mux_itunes \<times> trace) option" where
  "itunes_SendTCPAck E dev tr = do {
     (res, dev, mem, tr) \<leftarrow> itunes_SendTCP E dev TH_ACK [] None None 0 tr;
     Some (res, dev, tr)
   }"

section \<open>Receiving packets\<close>

text \<open>The three fields every received TCP header updates; the window is kept in bytes.\<close>

definition rx_update :: "tcphdr \<Rightarrow> mux_itunes \<Rightarrow> mux_itunes" where
  "rx_update th dev = dev\<lparr>mx_rx_seq := ntohl (th_seq th), mx_rx_ack := ntohl (th_ack th),
     mx_rx_win := push_bit 8 (ucast (ntohs (th_win th)))\<rparr>"

definition irx_update :: "mux_header \<Rightarrow> mux_itunes \<Rightarrow> mux_itunes" where
  "irx_update mh dev =
     (if mx_version dev < 2 then dev else dev\<lparr>mx_irx_seq := ntohs (mh_rx_seq mh)\<rparr>)"

definition reset_seqs :: "mux_itunes \<Rightarrow> mux_itunes" where
  "reset_seqs dev = dev\<lparr>mx_tx_seq := 0, mx_tx_ack := 0, mx_tx_acked := 0,
     mx_rx_seq := 0, mx_rx_ack := 0, mx_rx_recvd := 0, mx_rx_win := 0\<rparr>"

text \<open>
  \<open>itunes_ControlPackage\<close> only prints the message; what matters is what it reads: the first
  byte of the payload, and the \<open>payload_length - 1\<close> bytes after it (an \<open>int\<close>, so nothing when
  the subtraction wrapped around).
\<close>

definition itunes_ControlPackage :: "bytes \<Rightarrow> nat \<Rightarrow> u32 \<Rightarrow> trace \<Rightarrow> trace" where
  "itunes_ControlPackage mem payload payload_length tr =
     (if 0 < payload_length then
        let tr = fault_if (length mem \<le> payload) OutOfBounds tr;
            printed = nat (sint (payload_length - 1))
        in if get8 mem payload \<in> {3, 7} \<and> payload_length \<le> 1 then tr
           else fault_if (0 < printed \<and> length mem < payload + 1 + printed) OutOfBounds tr
      else tr)"

definition itunes_ReceiveAck :: "os \<Rightarrow> mux_itunes \<Rightarrow> trace \<Rightarrow> int \<times> mux_itunes \<times> trace" where
  "itunes_ReceiveAck E dev tr =
     (let (res, data, tr) = usUsb_BlukPacketReceive E (mx_usbIOS dev) 512 1000 tr in
      if res \<noteq> EUSTOR_OK then (res, dev, tr)
      else
        let buffer = poke (zeros 512) 0 data; mh = dec_mux_header buffer;
            mhs = mux_header_size (mx_version dev); dev = irx_update mh dev
        in if ntohl (mh_protocol mh) = proto_num MUX_PROTO_CONTROL
           then (EUSTOR_PRO_REVACK, dev,
             itunes_ControlPackage buffer 16 (of_nat (length data) - of_nat mhs) tr)
           else if ntohl (mh_protocol mh) = proto_num MUX_PROTO_VERSION
           then (EUSTOR_PRO_REVACK, dev, tr)
           else if length data \<noteq> mhs + tcphdr_size then (EUSTOR_PRO_REVACK, dev, tr)
           else (EUSTOR_OK, rx_update (dec_tcphdr (drop mhs buffer)) dev, tr))"

text \<open>The loop of \<open>itunes_ResetReceive\<close>: until the peer acknowledged all, or a receive fails.\<close>

partial_function (option) reset_receive_loop ::
    "os \<Rightarrow> mux_itunes \<Rightarrow> trace \<Rightarrow> (mux_itunes \<times> trace) option" where
  "reset_receive_loop E dev tr =
     (if mx_rx_ack dev \<noteq> mx_tx_seq dev then
        let (rc, data, tr) = usUsb_BlukPacketReceive E (mx_usbIOS dev) 512 1000 tr in
        if rc \<noteq> EUSTOR_OK then Some (dev, tr)
        else
          let rstbuf = poke (zeros 512) 0 data; mhs = mux_header_size (mx_version dev);
              dev = irx_update (dec_mux_header rstbuf) dev
          in if length data < mhs + tcphdr_size then reset_receive_loop E dev tr
             else reset_receive_loop E (rx_update (dec_tcphdr (drop mhs rstbuf)) dev) tr
      else Some (dev, tr))"

declare reset_receive_loop.simps [code]

definition itunes_ResetReceive :: "os \<Rightarrow> mux_itunes \<Rightarrow> trace \<Rightarrow> (mux_itunes \<times> trace) option" where
  "itunes_ResetReceive E dev tr = do {
     (dev, tr) \<leftarrow> reset_receive_loop E dev tr;
     Some (reset_seqs dev, tr)
   }"

section \<open>The data operations\<close>

text \<open>
  The loop of \<open>itunes_SendProPackage\<close>: \<open>mem\<close> holds the payload at \<open>off\<close>; \<open>rx_win\<close> is what is left
  of the peer's window. A packet's header goes in front of its payload, \<open>headOffset\<close> bytes
  before it. The loop does not return while the peer acknowledges without opening its window.
\<close>

partial_function (option) itunes_send_loop ::
    "os \<Rightarrow> mux_itunes \<Rightarrow> bytes \<Rightarrow> nat \<Rightarrow> nat \<Rightarrow> nat \<Rightarrow> nat \<Rightarrow> trace \<Rightarrow>
     (int \<times> mux_itunes \<times> bytes \<times> trace) option" where
  "itunes_send_loop E dev mem off psize curSize rx_win tr =
     (if curSize < psize then
        let (res, dev, tr) = (if rx_win = 0 then itunes_ReceiveAck E dev tr else (EUSTOR_OK, dev, tr)) in
        if res \<noteq> EUSTOR_OK then Some (res, dev, mem, tr)
        else
          let rx_win = (if rx_win = 0 then unat (mx_rx_win dev) else rx_win);
              sndSize = (if psize - curSize \<ge> IOS_MAX_PACKET then IOS_MAX_PACKET else psize - curSize);
              sndSize = min sndSize rx_win;
              rx_win = rx_win - sndSize;
              headOffset = mux_header_size (mx_version dev) + tcphdr_size;
              tr = fault_if (off + curSize < headOffset) OutOfBounds tr
          in do {
            (res, dev, mem, tr) \<leftarrow> itunes_SendTCP E dev TH_ACK mem (Some (off + curSize - headOffset))
               (Some (off + curSize)) sndSize tr;
            if res \<noteq> EUSTOR_OK then Some (res, dev, mem, tr)
            else itunes_send_loop E (dev\<lparr>mx_tx_seq := mx_tx_seq dev + of_nat sndSize\<rparr>)
                   mem off psize (curSize + sndSize) rx_win tr
          }
      else Some (EUSTOR_OK, dev, mem, tr))"

declare itunes_send_loop.simps [code]

definition itunes_SendProPackage ::
    "os \<Rightarrow> mux_itunes \<Rightarrow> bytes \<Rightarrow> nat \<Rightarrow> nat \<Rightarrow> trace \<Rightarrow>
     (int \<times> mux_itunes \<times> bytes \<times> trace) option" where
  "itunes_SendProPackage E dev mem off psize tr =
     (if psize = 0 then Some (EUSTOR_ARG, dev, mem, tr)
      else itunes_send_loop E dev mem off psize 0 (unat (mx_rx_win dev)) tr)"

text \<open>
  The receive loop of \<open>itunes_RecvProPackage\<close>; the bytes it may take, \<open>avalen\<close>, are what is left
  of \<open>interBuf\<close>. It does not return when the device keeps sending empty packets.
\<close>

partial_function (option) itunes_recv_loop ::
    "os \<Rightarrow> mux_itunes \<Rightarrow> nat \<Rightarrow> nat \<Rightarrow> nat \<Rightarrow> trace \<Rightarrow> (int \<times> mux_itunes \<times> trace) option" where
  "itunes_recv_loop E dev avalen packageCurrent packageTotal tr =
     (if packageCurrent < packageTotal then
        let (rc, data, tr) = usUsb_BlukPacketReceive E (mx_usbIOS dev) avalen PACKAGE_TIMEOUT tr in
        if rc \<noteq> EUSTOR_OK then Some (rc, dev, tr)
        else itunes_recv_loop E (dev\<lparr>mx_interBuf := poke (mx_interBuf dev) packageCurrent data\<rparr>)
               (avalen - length data) (packageCurrent + length data) packageTotal tr
      else Some (EUSTOR_OK, dev, tr))"

declare itunes_recv_loop.simps [code]

text \<open>
  The end of \<open>itunes_RecvProPackage\<close>, once the packet of \<open>packageTotal\<close> bytes is in \<open>interBuf\<close>: the
  TCP header, a reset of the connection, the acknowledgement and the copy to the caller.
\<close>

definition itunes_recv_finish ::
    "os \<Rightarrow> mux_itunes \<Rightarrow> bytes \<Rightarrow> nat \<Rightarrow> nat \<Rightarrow> trace \<Rightarrow>
     (int \<times> mux_itunes \<times> bytes \<times> u32 option \<times> trace) option" where
  "itunes_recv_finish E dev mem off packageTotal tr =
     (let mhs = mux_header_size (mx_version dev);
          th = dec_tcphdr (drop mhs (mx_interBuf dev));
          dev = rx_update th dev;
          payload_length = of_nat packageTotal - of_nat mhs - of_nat tcphdr_size :: u32
      in if th_flags th AND TH_RST \<noteq> 0 \<or> th_flags th \<noteq> TH_ACK then do {
           (dev, tr) \<leftarrow> itunes_ResetReceive E dev tr;
           Some (EUSTOR_PRO_REFUSE, dev, mem, None, tr)
         }
         else if payload_length \<noteq> 0 then do {
           (_, dev, _, tr) \<leftarrow> itunes_SendTCP E dev TH_ACK (zeros 512) (Some 0) None 0 tr;
           let n = unat payload_length;
               tr = fault_if (length (mx_interBuf dev) < mhs + tcphdr_size + n) OutOfBounds tr;
               (mem, tr) = memcpy mem off (peek (mx_interBuf dev) (mhs + tcphdr_size) n) tr
           in Some (EUSTOR_OK, dev\<lparr>mx_tx_ack := mx_tx_ack dev + payload_length\<rparr>, mem,
                Some payload_length, tr)
         }
         else Some (EUSTOR_OK, dev, mem, Some 0, tr))"

text \<open>
  \<open>buffer\<close> is the rest of \<open>mem\<close> from \<open>off\<close>; its size \<open>tsize\<close> is a parameter the code does not look
  at. The result carries \<open>*rsize\<close> when it was written.
\<close>

definition itunes_RecvProPackage ::
    "os \<Rightarrow> mux_itunes \<Rightarrow> bytes \<Rightarrow> nat \<Rightarrow> nat \<Rightarrow> trace \<Rightarrow>
     (int \<times> mux_itunes \<times> bytes \<times> u32 option \<times> trace) option" where
  "itunes_RecvProPackage E dev mem off tsize tr =
     (let (rc, data, tr) =
        usUsb_BlukPacketReceive E (mx_usbIOS dev) IOS_INTERBUF_SIZE PACKAGE_TIMEOUT tr in
      if rc \<noteq> EUSTOR_OK then Some (rc, dev, mem, None, tr)
      else
        let dev = dev\<lparr>mx_interBuf := poke (mx_interBuf dev) 0 data\<rparr>;
            mhs = mux_header_size (mx_version dev); mh = dec_mux_header (mx_interBuf dev);
            dev = irx_update mh dev; packageTotal = unat (ntohl (mh_length mh))
        in if ntohl (mh_protocol mh) = proto_num MUX_PROTO_CONTROL
           then Some (EUSTOR_PRO_PACKAGE, dev, mem, None,
             itunes_ControlPackage (mx_interBuf dev) 16 (of_nat (length data) - of_nat mhs) tr)
           else if ntohl (mh_protocol mh) = proto_num MUX_PROTO_VERSION
           then Some (EUSTOR_PRO_PACKAGE, dev, mem, None, tr)
           else if length data < mhs then Some (EUSTOR_PRO_PACKAGE, dev, mem, None, tr)
           else if packageTotal > IOS_INTERBUF_SIZE then Some (EUSTOR_PRO_PACKAGE, dev, mem, None, tr)
           else do {
             (rc, dev, tr) \<leftarrow> itunes_recv_loop E dev (IOS_INTERBUF_SIZE - length data) (length data)
                packageTotal tr;
             if rc \<noteq> EUSTOR_OK then Some (rc, dev, mem, None, tr)
             else itunes_recv_finish E dev mem off packageTotal tr
           })"

section \<open>Connecting\<close>

text \<open>
  The reply to the version request is read from a zeroed buffer of 512 bytes; until it is
  there the version is 0 and the mux header has 8 bytes. A version 2 peer gets a setup packet.
\<close>

definition version_reply :: "os \<Rightarrow> mux_itunes \<Rightarrow> trace \<Rightarrow> (int \<times> mux_itunes \<times> trace) option" where
  "version_reply E dev tr =
     (let (res, data, tr) = usUsb_BlukPacketReceive E (mx_usbIOS dev) 512 PACKAGE_TIMEOUT tr in
      if res \<noteq> EUSTOR_OK then Some (res, dev, tr)
      else
        let major = ntohl (get32 (poke (zeros 512) 0 data) (mux_header_size (mx_version dev)))
        in if major \<noteq> 2 \<and> major \<noteq> 1 then Some (EUSTOR_PRO_PROVER, dev, tr)
           else
             let dev = dev\<lparr>mx_version := ucast major\<rparr> in
             if 2 \<le> mx_version dev then itunes_InterMemSendPacket E dev MUX_PROTO_SETUP [] [7] tr
             else Some (EUSTOR_OK, dev, tr))"

text \<open>\<open>tcport\<close> is the static counter of \<open>find_sport\<close>, \<open>iosPort\<close> the configured port.\<close>

definition fresh_conn :: "u16 \<Rightarrow> u16 \<Rightarrow> mux_itunes \<Rightarrow> mux_itunes" where
  "fresh_conn sport dport dev =
     (reset_seqs (dev\<lparr>mx_version := 0, mx_itx_seq := 0, mx_irx_seq := 0\<rparr>))
       \<lparr>mx_sport := sport, mx_dport := dport, mx_tx_win := IOS_WIN_SIZE\<rparr>"

definition itunes_getIOSProVersion ::
    "os \<Rightarrow> u16 \<Rightarrow> u16 \<Rightarrow> mux_itunes \<Rightarrow> trace \<Rightarrow> (int \<times> u16 \<times> mux_itunes \<times> trace) option" where
  "itunes_getIOSProVersion E tcport iosPort dev tr =
     (if mx_version dev = 1 \<or> mx_version dev = 2 then Some (EUSTOR_OK, tcport, dev, tr)
      else
        let (sport, tcport) = find_sport tcport; dev = fresh_conn sport iosPort dev
        in do {
          (res, dev, tr) \<leftarrow> itunes_InterMemSendPacket E dev MUX_PROTO_VERSION
             (put32 (htonl 2) @ put32 (htonl 0) @ put32 0) [] tr;
          (res, dev, tr) \<leftarrow> (if res \<noteq> EUSTOR_OK then Some (res, dev, tr) else version_reply E dev tr);
          Some (res, tcport, dev, tr)
        })"

text \<open>What the SYN reply in \<open>cbuffer\<close> leads to (the \<open>MUX_PROTO_TCP\<close> case).\<close>

definition connect_reply ::
    "os \<Rightarrow> mux_itunes \<Rightarrow> bytes \<Rightarrow> trace \<Rightarrow> (int \<times> mux_itunes \<times> trace) option" where
  "connect_reply E dev cbuffer tr =
     (let th = dec_tcphdr (drop (mux_header_size (mx_version dev)) cbuffer);
          dev = rx_update th dev
      in if th_flags th \<noteq> TH_SYN OR TH_ACK
         then Some (EUSTOR_PRO_CONNECT, if th_flags th AND TH_RST \<noteq> 0 then reset_seqs dev else dev, tr)
         else
           let dev = dev\<lparr>mx_tx_seq := mx_tx_seq dev + 1, mx_tx_ack := mx_tx_ack dev + 1,
             mx_rx_recvd := mx_rx_seq dev\<rparr>
           in do {
             (res, dev, _, tr) \<leftarrow> itunes_SendTCP E dev TH_ACK [] None None 0 tr;
             Some (res, dev, tr)
           })"

definition LINUX_ConnectIOSPhone ::
    "os \<Rightarrow> u16 \<Rightarrow> u16 \<Rightarrow> mux_itunes \<Rightarrow> trace \<Rightarrow> (int \<times> u16 \<times> mux_itunes \<times> trace) option" where
  "LINUX_ConnectIOSPhone E tcport iosPort dev tr = do {
     (res, tcport, dev, tr) \<leftarrow> itunes_getIOSProVersion E tcport iosPort dev tr;
     if res \<noteq> EUSTOR_OK then Some (res, tcport, dev, tr)
     else do {
       (res, dev, _, tr) \<leftarrow> itunes_SendTCP E dev TH_SYN [] None None 0 tr;
       if res \<noteq> EUSTOR_OK then Some (res, tcport, dev, tr)
       else
         let (res, data, tr) = usUsb_BlukPacketReceive E (mx_usbIOS dev) 512 PACKAGE_TIMEOUT tr in
         if res \<noteq> EUSTOR_OK then Some (res, tcport, dev, tr)
         else
           let cbuffer = poke (zeros 512) 0 data; mh = dec_mux_header cbuffer in
           if 512 < ntohl (mh_length mh) then Some (EUSTOR_PRO_CONNECT, tcport, dev, tr)
           else if ntohl (mh_protocol mh) = proto_num MUX_PROTO_CONTROL then
             let (res, data, tr) = usUsb_BlukPacketReceive E (mx_usbIOS dev) 512 PACKAGE_TIMEOUT tr in
             if res \<noteq> EUSTOR_OK then Some (EUSTOR_PRO_CONNECT, tcport, dev, tr)
             else do {
               (res, dev, tr) \<leftarrow> connect_reply E dev (poke cbuffer 0 data) tr;
               Some (res, tcport, dev, tr)
             }
           else if ntohl (mh_protocol mh) = proto_num MUX_PROTO_TCP then do {
             (res, dev, tr) \<leftarrow> connect_reply E dev cbuffer tr;
             Some (res, tcport, dev, tr)
           }
           else Some (EUSTOR_PRO_CONNECT, tcport, dev, tr)
     }
   }"

end
