(* ===== verification/Ustor_Mux.thy ===== *)
theory Ustor_Mux
  imports Ustor_Itunes
begin

text \<open>
  What the iPhone connection of Ustor_Itunes achieves, stated from the peer's side: the bytes
  on the wire, cut into packets by a reference demultiplexer, carry the payload in sequence.
\<close>

section \<open>The peer's view\<close>

text \<open>
  The reference demultiplexer cuts a byte stream into the TCP headers and payloads of its mux
  packets, and stops at the first thing that is not a complete TCP packet.
\<close>

function demux :: "u8 \<Rightarrow> bytes \<Rightarrow> (tcphdr \<times> bytes) list" where
  "demux v bs =
     (let hl = mux_header_size v + tcphdr_size; n = unat (ntohl (mh_length (dec_mux_header bs))) in
      if ntohl (mh_protocol (dec_mux_header bs)) = proto_num MUX_PROTO_TCP \<and> hl \<le> n \<and> n \<le> length bs
      then (dec_tcphdr (drop (mux_header_size v) bs), drop hl (take n bs)) # demux v (drop n bs)
      else [])"
  by pat_completeness auto
termination
  by (relation "measure (\<lambda>(v, bs). length bs)") auto

declare demux.simps [simp del]

fun in_sequence :: "u32 \<Rightarrow> (tcphdr \<times> bytes) list \<Rightarrow> bool" where
  "in_sequence s [] = True"
| "in_sequence s ((th, p) # segs) =
     (ntohl (th_seq th) = s \<and> in_sequence (s + of_nat (length p)) segs)"

definition tcp_frame :: "mux_itunes \<Rightarrow> u8 \<Rightarrow> bytes \<Rightarrow> bytes" where
  "tcp_frame dev flags p =
     enc_mux_header (mx_version dev)
       (mux_of dev MUX_PROTO_TCP (mux_header_size (mx_version dev) + tcphdr_size + length p))
     @ enc_tcphdr (tcp_of dev flags) @ p"

abbreviation head_size :: "mux_itunes \<Rightarrow> nat" where
  "head_size dev \<equiv> mux_header_size (mx_version dev) + tcphdr_size"

lemma length_enc_mux_header [simp]: "length (enc_mux_header v h) = mux_header_size v"
  by (simp add: enc_mux_header_def mux_header_size_def)

lemma length_enc_tcphdr [simp]: "length (enc_tcphdr h) = tcphdr_size"
  by (simp add: tcp_hd.length_enc)

lemma length_tcp_frame [simp]: "length (tcp_frame dev flags p) = head_size dev + length p"
  by (simp add: tcp_frame_def)

lemma mux_header_size_le: "8 \<le> mux_header_size v" "mux_header_size v \<le> 16"
  by (simp_all add: mux_header_size_def)

lemma dec_mux_fields [simp]:
  "mh_protocol (dec_mux_header (enc_mux_header v h @ r)) = mh_protocol h"
  "mh_length (dec_mux_header (enc_mux_header v h @ r)) = mh_length h"
  by (simp_all add: enc_mux_header_def dec_mux_header_def codec_simps)

lemma demux_frame:
  assumes "length p < 2 ^ 31"
  shows "demux (mx_version dev) (tcp_frame dev flags p @ rest) =
    (tcp_of dev flags, p) # demux (mx_version dev) rest"
proof -
  let ?v = "mx_version dev" and ?n = "head_size dev + length p"
  let ?bs = "tcp_frame dev flags p @ rest"
  have n: "unat (of_nat ?n :: u32) = ?n"
    using assms mux_header_size_le(2) [of ?v] by (intro unat_of_nat_small) simp
  have len: "unat (ntohl (mh_length (dec_mux_header ?bs))) = ?n"
    using n by (simp add: tcp_frame_def mux_of_def)
  have proto: "ntohl (mh_protocol (dec_mux_header ?bs)) = proto_num MUX_PROTO_TCP"
    by (simp add: tcp_frame_def mux_of_def)
  have th: "dec_tcphdr (drop (mux_header_size ?v) ?bs) = tcp_of dev flags"
    unfolding tcp_frame_def by (simp add: tcp_hd.dec_enc_append)
  have pl: "drop (head_size dev) (take ?n ?bs) = p"
    unfolding tcp_frame_def by simp
  have "length (tcp_frame dev flags p) = ?n" by simp
  then have "drop ?n ?bs = rest" by (simp del: length_tcp_frame)
  moreover have "head_size dev \<le> ?n" "?n \<le> length ?bs" by simp_all
  ultimately show ?thesis
    by (subst demux.simps) (simp only: Let_def len proto th pl if_True conj_absorb simp_thms)
qed

section \<open>Packets\<close>

lemma bump_itx_fields [simp]:
  "mx_version (bump_itx dev) = mx_version dev" "mx_usbIOS (bump_itx dev) = mx_usbIOS dev"
  "mx_tx_seq (bump_itx dev) = mx_tx_seq dev" "mx_tx_ack (bump_itx dev) = mx_tx_ack dev"
  "mx_rx_win (bump_itx dev) = mx_rx_win dev" "mx_interBuf (bump_itx dev) = mx_interBuf dev"
  "mx_rx_seq (bump_itx dev) = mx_rx_seq dev" "mx_rx_ack (bump_itx dev) = mx_rx_ack dev"
  "mx_sport (bump_itx dev) = mx_sport dev" "mx_dport (bump_itx dev) = mx_dport dev"
  by (simp_all add: bump_itx_def)

text \<open>The state after a packet: the mux sequence number, and \<open>tx_acked\<close> when it went out.\<close>

definition after_send :: "int \<Rightarrow> mux_itunes \<Rightarrow> mux_itunes" where
  "after_send r dev = (if r = EUSTOR_OK then dev\<lparr>mx_tx_acked := mx_tx_ack dev\<rparr> else dev)"

lemma after_send_fields [simp]:
  "mx_version (after_send r dev) = mx_version dev" "mx_usbIOS (after_send r dev) = mx_usbIOS dev"
  "mx_tx_seq (after_send r dev) = mx_tx_seq dev" "mx_tx_ack (after_send r dev) = mx_tx_ack dev"
  "mx_rx_win (after_send r dev) = mx_rx_win dev" "mx_interBuf (after_send r dev) = mx_interBuf dev"
  "mx_rx_seq (after_send r dev) = mx_rx_seq dev" "mx_rx_ack (after_send r dev) = mx_rx_ack dev"
  "mx_sport (after_send r dev) = mx_sport dev" "mx_dport (after_send r dev) = mx_dport dev"
  by (simp_all add: after_send_def)

lemma delivers_then_zlp:
  assumes "delivers d data tr EUSTOR_OK tr1" "usUsb_BlukPacketSend E d [] t tr1 = Some (r, tr2)"
  shows "delivers d data tr EUSTOR_OK tr2"
proof -
  have "wrote (ui_osPriv d) (ui_ep_out d) tr1 tr2 []"
    using send_delivers [OF assms(2)] by (simp add: delivers_def)
  with delivers_ok [OF assms(1)] have "wrote (ui_osPriv d) (ui_ep_out d) tr tr2 data"
    using wrote_trans by fastforce
  then show ?thesis
    using delivers_got [OF assms(1)] delivers_got [OF send_delivers [OF assms(2)]]
    by (auto simp: delivers_def)
qed

lemma delivers_Nil [simp]: "delivers d [] tr EUSTOR_OK tr"
  by (simp add: delivers_def)

lemma send_tail_delivers:
  assumes "send_tail E dev pkt tr = Some (r, dev', tr')"
  shows "delivers (mx_usbIOS dev) pkt tr r tr'" "dev' = after_send r dev" "r \<noteq> EUSTOR_PRO_REFUSE"
proof -
  obtain r1 tr1 where s: "(if pkt \<noteq> [] then usUsb_BlukPacketSend E (mx_usbIOS dev) pkt PACKAGE_TIMEOUT_SND tr
      else Some (EUSTOR_OK, tr)) = Some (r1, tr1)"
    using assms by (auto simp: send_tail_def bind_eq_Some_conv simp del: not_None_eq)
  have d: "delivers (mx_usbIOS dev) pkt tr r1 tr1"
    using s send_delivers [of E "mx_usbIOS dev" pkt PACKAGE_TIMEOUT_SND tr r1 tr1]
    by (cases "pkt = []") simp_all
  have nr: "r1 \<noteq> EUSTOR_PRO_REFUSE"
    using s send_not_refused [of E "mx_usbIOS dev" pkt PACKAGE_TIMEOUT_SND tr r1 tr1]
    by (cases "pkt = []") auto
  show "delivers (mx_usbIOS dev) pkt tr r tr'" "dev' = after_send r dev" "r \<noteq> EUSTOR_PRO_REFUSE"
    using assms s d nr
    by (auto simp: send_tail_def after_send_def Let_def bind_eq_Some_conv
        split: if_splits intro: delivers_then_zlp)
qed

lemma send_tail_Nil: "send_tail E dev [] tr = Some (EUSTOR_OK, after_send EUSTOR_OK dev, tr)"
  by (simp add: send_tail_def after_send_def)

text \<open>The payload already lies behind the place of its header.\<close>

lemma sendtcp_in_place:
  assumes "itunes_SendTCP E dev flags mem (Some at) (Some (at + head_size dev)) len tr
      = Some (r, dev', mem', tr')"
    and room: "at + head_size dev + len \<le> length mem"
  shows "delivers (mx_usbIOS dev) (tcp_frame dev flags (peek mem (at + head_size dev) len)) tr r tr'"
    and "dev' = after_send r (bump_itx dev)" and "r \<noteq> EUSTOR_PRO_REFUSE"
    and "\<exists>hb. length hb = head_size dev \<and> mem' = poke mem at hb"
proof -
  let ?h = "enc_mux_header (mx_version dev) (mux_of dev MUX_PROTO_TCP (head_size dev + len)) @
    enc_tcphdr (tcp_of dev flags)"
  let ?p = "peek mem (at + head_size dev) len" and ?m = "poke mem at ?h"
  have lh: "length ?h = head_size dev" by simp
  have "length ?p = len" using room by simp
  moreover have "peek ?m at (head_size dev + len) = ?h @ ?p"
    using peek_poke_over [of at ?h len mem] room by (simp only: lh)
  ultimately have pkt: "peek ?m at (head_size dev + len) = tcp_frame dev flags ?p"
    unfolding tcp_frame_def by simp
  have lm: "length ?m = length mem"
    by (rule length_poke) (use room in simp)
  have mc: "memcpy mem at ?h tr = (?m, tr)"
    unfolding memcpy_def lh using room by simp
  have eq: "itunes_SendTCP E dev flags mem (Some at) (Some (at + head_size dev)) len tr = do {
      (res, d, tr) \<leftarrow> send_tail E (bump_itx dev) (tcp_frame dev flags ?p) tr;
      Some (res, d, ?m, tr)}"
    using room by (simp add: itunes_SendTCP_def Let_def fault_if_def mc pkt lm)
  from assms(1) [unfolded eq] obtain dev1 where
    st: "send_tail E (bump_itx dev) (tcp_frame dev flags ?p) tr = Some (r, dev1, tr')"
    and e: "dev' = dev1" "mem' = ?m"
    by (auto simp: bind_eq_Some_conv)
  from send_tail_delivers [OF st] e
  show "delivers (mx_usbIOS dev) (tcp_frame dev flags ?p) tr r tr'"
    "dev' = after_send r (bump_itx dev)" "r \<noteq> EUSTOR_PRO_REFUSE"
    by simp_all
  show "\<exists>hb. length hb = head_size dev \<and> mem' = poke mem at hb"
    by (rule exI [of _ ?h]) (use e lh in blast)
qed

text \<open>A packet without payload, built in \<open>interBuf\<close> or in a buffer of its own.\<close>

lemma sendtcp_empty:
  assumes s: "usUsb_BlukPacketSend E (mx_usbIOS dev) pkt PACKAGE_TIMEOUT_SND tr = Some (r1, tr1)"
    and "(if r1 \<noteq> EUSTOR_OK then Some (r1, dev1, mem, tr1)
      else do {(res, d, tr) \<leftarrow> send_tail E dev1 [] tr1; Some (res, d, mem, tr)}) = Some (r, dev', mem', tr')"
  shows "delivers (mx_usbIOS dev) pkt tr r tr'" "dev' = after_send r dev1" "mem' = mem"
    "r \<noteq> EUSTOR_PRO_REFUSE"
  using assms send_delivers [OF s] send_not_refused [OF s]
  by (auto simp: send_tail_Nil after_send_def split: if_splits)

lemma take_poke_start: "length hb \<le> length m \<Longrightarrow> n = length hb \<Longrightarrow> take n (poke m 0 hb) = hb"
  by (simp add: poke_def)

lemma sendtcp_plain:
  assumes "itunes_SendTCP E dev flags mem None None 0 tr = Some (r, dev', mem', tr')"
    and buf: "length (mx_interBuf dev) = IOS_INTERBUF_SIZE"
  shows "delivers (mx_usbIOS dev) (tcp_frame dev flags []) tr r tr'"
    and "\<exists>b. length b = IOS_INTERBUF_SIZE \<and> dev' = after_send r ((bump_itx dev)\<lparr>mx_interBuf := b\<rparr>)"
    and "mem' = mem" and "r \<noteq> EUSTOR_PRO_REFUSE"
proof -
  let ?f = "tcp_frame dev flags []"
  have lf: "length ?f = head_size dev" "head_size dev \<le> IOS_INTERBUF_SIZE"
    using mux_header_size_le(2) [of "mx_version dev"] by simp_all
  let ?b = "poke (mx_interBuf dev) 0 ?f" and ?d = "(bump_itx dev)\<lparr>mx_interBuf := poke (mx_interBuf dev) 0 ?f\<rparr>"
  have tk: "take (head_size dev) ?b = ?f"
    by (rule take_poke_start) (use lf buf in simp_all)
  have f: "enc_mux_header (mx_version dev) (mux_of dev MUX_PROTO_TCP (head_size dev)) @
      enc_tcphdr (tcp_of dev flags) = ?f"
    by (simp add: tcp_frame_def)
  have eq: "itunes_SendTCP E dev flags mem None None 0 tr = do {
      (r1, tr1) \<leftarrow> usUsb_BlukPacketSend E (mx_usbIOS ?d) ?f PACKAGE_TIMEOUT_SND tr;
      if r1 \<noteq> EUSTOR_OK then Some (r1, ?d, mem, tr1)
      else do {(res, d, tr) \<leftarrow> send_tail E ?d [] tr1; Some (res, d, mem, tr)}}"
    using lf(2) tk by (simp add: itunes_SendTCP_def Let_def fault_if_def f cong: if_cong)
  from assms(1) [unfolded eq] obtain r1 tr1 where
    s: "usUsb_BlukPacketSend E (mx_usbIOS ?d) ?f PACKAGE_TIMEOUT_SND tr = Some (r1, tr1)" and
    rest: "(if r1 \<noteq> EUSTOR_OK then Some (r1, ?d, mem, tr1)
      else do {(res, d, tr) \<leftarrow> send_tail E ?d [] tr1; Some (res, d, mem, tr)}) = Some (r, dev', mem', tr')"
    by (auto simp: bind_eq_Some_conv)
  have lb: "length ?b = IOS_INTERBUF_SIZE"
    by (subst length_poke) (use buf lf in simp_all)
  from sendtcp_empty [OF s rest] lb
  show "delivers (mx_usbIOS dev) (tcp_frame dev flags []) tr r tr'"
    and "\<exists>b. length b = IOS_INTERBUF_SIZE \<and> dev' = after_send r ((bump_itx dev)\<lparr>mx_interBuf := b\<rparr>)"
    and "mem' = mem" and "r \<noteq> EUSTOR_PRO_REFUSE"
    by auto
qed

lemma length_zeros [simp]: "length (zeros n) = n"
  by (simp add: zeros_def)

lemma sendtcp_ack:
  assumes "itunes_SendTCP E dev flags (zeros 512) (Some 0) None 0 tr = Some (r, dev', mem', tr')"
  shows "delivers (mx_usbIOS dev) (tcp_frame dev flags []) tr r tr'"
    and "dev' = after_send r (bump_itx dev)" and "r \<noteq> EUSTOR_PRO_REFUSE"
proof -
  let ?f = "tcp_frame dev flags []"
  have lf: "length ?f = head_size dev" "head_size dev \<le> 512"
    using mux_header_size_le(2) [of "mx_version dev"] by simp_all
  have tk: "peek (poke (zeros 512) 0 ?f) 0 (head_size dev) = ?f"
    using lf by (simp add: peek_poke_same)
  have lm: "length (poke (zeros 512) 0 ?f) = 512"
    by (subst length_poke) (use lf in simp_all)
  have f: "enc_mux_header (mx_version dev) (mux_of dev MUX_PROTO_TCP (head_size dev)) @
      enc_tcphdr (tcp_of dev flags) = ?f"
    by (simp add: tcp_frame_def)
  have mc: "memcpy (zeros 512) 0 ?f tr = (poke (zeros 512) 0 ?f, tr)"
    using lf by (simp add: memcpy_def)
  have eq: "itunes_SendTCP E dev flags (zeros 512) (Some 0) None 0 tr = do {
      (r1, tr1) \<leftarrow> usUsb_BlukPacketSend E (mx_usbIOS (bump_itx dev)) ?f PACKAGE_TIMEOUT_SND tr;
      if r1 \<noteq> EUSTOR_OK then Some (r1, bump_itx dev, poke (zeros 512) 0 ?f, tr1)
      else do {(res, d, tr) \<leftarrow> send_tail E (bump_itx dev) [] tr1;
        Some (res, d, poke (zeros 512) 0 ?f, tr)}}"
    using lf(2) tk lm by (simp add: itunes_SendTCP_def Let_def fault_if_def f mc cong: if_cong)
  from assms(1) [unfolded eq] obtain r1 tr1 where
    s: "usUsb_BlukPacketSend E (mx_usbIOS (bump_itx dev)) ?f PACKAGE_TIMEOUT_SND tr = Some (r1, tr1)" and
    rest: "(if r1 \<noteq> EUSTOR_OK then Some (r1, bump_itx dev, poke (zeros 512) 0 ?f, tr1)
      else do {(res, d, tr) \<leftarrow> send_tail E (bump_itx dev) [] tr1;
        Some (res, d, poke (zeros 512) 0 ?f, tr)}) = Some (r, dev', mem', tr')"
    by (auto simp: bind_eq_Some_conv)
  from sendtcp_empty [OF s rest]
  show "delivers (mx_usbIOS dev) (tcp_frame dev flags []) tr r tr'"
    and "dev' = after_send r (bump_itx dev)" and "r \<noteq> EUSTOR_PRO_REFUSE"
    by auto
qed

section \<open>Receiving an acknowledgement\<close>

text \<open>What no receive changes.\<close>

definition same_conn :: "mux_itunes \<Rightarrow> mux_itunes \<Rightarrow> bool" where
  "same_conn d d' = (mx_version d' = mx_version d \<and> mx_usbIOS d' = mx_usbIOS d \<and>
     mx_sport d' = mx_sport d \<and> mx_dport d' = mx_dport d \<and>
     length (mx_interBuf d') = length (mx_interBuf d))"

lemma same_conn_refl [simp, intro]: "same_conn d d"
  by (simp add: same_conn_def)

lemma same_conn_trans: "same_conn a b \<Longrightarrow> same_conn b c \<Longrightarrow> same_conn a c"
  by (simp add: same_conn_def)

lemma same_conn_updates [simp]:
  "same_conn d (irx_update mh e) = same_conn d e" "same_conn d (rx_update th e) = same_conn d e"
  "same_conn d (bump_itx e) = same_conn d e" "same_conn d (after_send r e) = same_conn d e"
  "same_conn d (reset_seqs e) = same_conn d e" "same_conn d (e\<lparr>mx_tx_seq := s\<rparr>) = same_conn d e"
  "same_conn d (e\<lparr>mx_tx_ack := s\<rparr>) = same_conn d e"
  by (simp_all add: same_conn_def irx_update_def rx_update_def after_send_def reset_seqs_def bump_itx_def)

text \<open>A window is a 16-bit number of blocks of 256 bytes.\<close>

lemma window_blocks: "unat (push_bit 8 (ucast (w :: u16)) :: u32) mod 256 = 0"
proof -
  have "unat w < 65536" using unsigned_less [of w] by simp
  then have "unat (push_bit 8 (ucast w) :: u32) = unat w * 256"
    by (simp add: push_bit_eq_mult unat_word_ariths unsigned_ucast_eq take_bit_nat_eq_self)
  then show ?thesis by simp
qed

lemma receive_ack:
  assumes "itunes_ReceiveAck E dev tr = (r, dev', tr')"
  shows "same_conn dev dev'" "mx_tx_seq dev' = mx_tx_seq dev" "r \<noteq> EUSTOR_PRO_REFUSE"
    and "r = EUSTOR_OK \<Longrightarrow> wrote h ep tr tr' []"
    and "r = EUSTOR_OK \<Longrightarrow> unat (mx_rx_win dev') mod 256 = 0"
proof -
  obtain r1 data tr1 where rcv: "usUsb_BlukPacketReceive E (mx_usbIOS dev) 512 1000 tr = (r1, data, tr1)"
    by (cases "usUsb_BlukPacketReceive E (mx_usbIOS dev) 512 1000 tr") auto
  note facts = receive_clean [OF rcv, of h ep] receive_not_refused [OF rcv]
  show "same_conn dev dev'" "r \<noteq> EUSTOR_PRO_REFUSE"
    using assms rcv facts
    by (auto simp: itunes_ReceiveAck_def Let_def split: if_splits intro: same_conn_trans)
  show "mx_tx_seq dev' = mx_tx_seq dev"
    using assms rcv
    by (auto simp: itunes_ReceiveAck_def Let_def irx_update_def rx_update_def split: if_splits)
  show "r = EUSTOR_OK \<Longrightarrow> wrote h ep tr tr' []"
    using assms rcv facts by (auto simp: itunes_ReceiveAck_def Let_def split: if_splits)
  show "r = EUSTOR_OK \<Longrightarrow> unat (mx_rx_win dev') mod 256 = 0"
    using assms rcv window_blocks
    by (auto simp: itunes_ReceiveAck_def Let_def rx_update_def split: if_splits)
qed

section \<open>Sending data\<close>

text \<open>
  A byte stream carries \<open>data\<close> from sequence number \<open>s\<close> on: it is a sequence of TCP packets and
  nothing else, their payloads are \<open>data\<close>, each packet's sequence number is that of the first
  byte of its payload, and every one is a plain ACK packet.
\<close>

definition carries :: "u8 \<Rightarrow> u32 \<Rightarrow> bytes \<Rightarrow> bytes \<Rightarrow> bool" where
  "carries v s bs data =
     (concat (map snd (demux v bs)) = data \<and> in_sequence s (demux v bs) \<and>
      list_all (\<lambda>(th, p). th_flags th = TH_ACK) (demux v bs) \<and>
      length bs = sum_list (map (\<lambda>(th, p). mux_header_size v + tcphdr_size + length p) (demux v bs)))"

lemma demux_Nil [simp]: "demux v [] = []"
  by (subst demux.simps) (simp add: Let_def mux_header_size_def)

lemma carries_Nil [simp]: "carries v s [] []"
  by (simp add: carries_def)

lemma carries_frame:
  assumes "carries (mx_version dev) (mx_tx_seq dev + of_nat (length p)) bs data" "length p < 2 ^ 31"
  shows "carries (mx_version dev) (mx_tx_seq dev) (tcp_frame dev TH_ACK p @ bs) (p @ data)"
  using assms by (simp add: carries_def demux_frame tcp_of_def)

definition sends_from ::
    "mux_itunes \<Rightarrow> bytes \<Rightarrow> nat \<Rightarrow> nat \<Rightarrow> trace \<Rightarrow> int \<times> mux_itunes \<times> bytes \<times> trace \<Rightarrow> bool" where
  "sends_from dev mem a n tr y = (case y of (r, dev', mem', tr') \<Rightarrow>
     same_conn dev dev' \<and> length mem' = length mem \<and> r \<noteq> EUSTOR_PRO_REFUSE \<and>
     (r = EUSTOR_OK \<longrightarrow> mx_tx_seq dev' = mx_tx_seq dev + of_nat n \<and>
       (\<exists>bs. wrote (ui_osPriv (mx_usbIOS dev)) (ui_ep_out (mx_usbIOS dev)) tr tr' bs \<and>
          carries (mx_version dev) (mx_tx_seq dev) bs (peek mem a n))))"

lemma sends_from_packet:
  assumes ack: "same_conn dev dev0" "mx_tx_seq dev0 = mx_tx_seq dev"
    "wrote (ui_osPriv (mx_usbIOS dev)) (ui_ep_out (mx_usbIOS dev)) tr tr0 []"
    and pkt: "delivers (mx_usbIOS dev0) (tcp_frame dev0 TH_ACK (peek mem a k)) tr0 EUSTOR_OK tr1"
    and rest: "sends_from ((after_send EUSTOR_OK (bump_itx dev0))\<lparr>mx_tx_seq := mx_tx_seq dev + of_nat k\<rparr>)
        mem1 (a + k) n tr1 y"
    and mem1: "length mem1 = length mem" "peek mem1 (a + k) n = peek mem (a + k) n"
    and k: "k < 2 ^ 31" "a + k + n \<le> length mem"
  shows "sends_from dev mem a (k + n) tr y"
proof -
  let ?h = "ui_osPriv (mx_usbIOS dev)" and ?ep = "ui_ep_out (mx_usbIOS dev)"
  obtain r dev' mem' tr' where y: "y = (r, dev', mem', tr')" by (cases y) auto
  have usb: "mx_usbIOS dev0 = mx_usbIOS dev" "mx_version dev0 = mx_version dev"
    using ack(1) by (simp_all add: same_conn_def)
  have len: "length (peek mem a k) = k" using k by simp
  have conn: "same_conn dev dev'" "length mem' = length mem" "r \<noteq> EUSTOR_PRO_REFUSE"
    using rest ack(1) mem1 by (auto simp: sends_from_def y same_conn_def bump_itx_def after_send_def)
  {
    assume "r = EUSTOR_OK"
    with rest usb mem1 obtain bs where
      w: "wrote ?h ?ep tr1 tr' bs"
      and c: "carries (mx_version dev0) (mx_tx_seq dev0 + of_nat k) bs (peek mem (a + k) n)"
      and s: "mx_tx_seq dev' = mx_tx_seq dev + of_nat k + of_nat n"
      by (auto simp: sends_from_def y ack(2))
    have "wrote ?h ?ep tr0 tr1 (tcp_frame dev0 TH_ACK (peek mem a k))"
      using delivers_ok [OF pkt] usb by simp
    from wrote_trans [OF wrote_trans [OF ack(3) this] w]
    have "wrote ?h ?ep tr tr' (tcp_frame dev0 TH_ACK (peek mem a k) @ bs)" by simp
    moreover have "carries (mx_version dev0) (mx_tx_seq dev0)
        (tcp_frame dev0 TH_ACK (peek mem a k) @ bs) (peek mem a k @ peek mem (a + k) n)"
      by (rule carries_frame) (use c len k in simp_all)
    ultimately have "mx_tx_seq dev' = mx_tx_seq dev + of_nat (k + n) \<and>
      (\<exists>bs. wrote ?h ?ep tr tr' bs \<and> carries (mx_version dev) (mx_tx_seq dev) bs (peek mem a (k + n)))"
      using s usb by (auto simp: peek_split ack(2) add.assoc)
  }
  with conn show ?thesis by (simp add: sends_from_def y)
qed

text \<open>One round of the send loop, with the rest of the loop as \<open>k\<close>.\<close>

lemma send_round:
  assumes round: "(let (res, dev, tr) = (if win = 0 then itunes_ReceiveAck E dev tr else (EUSTOR_OK, dev, tr)) in
        if res \<noteq> EUSTOR_OK then Some (res, dev, mem, tr)
        else
          let rx_win = (if win = 0 then unat (mx_rx_win dev) else win);
              sndSize = (if n \<ge> IOS_MAX_PACKET then IOS_MAX_PACKET else n);
              sndSize = min sndSize rx_win;
              rx_win = rx_win - sndSize;
              headOffset = mux_header_size (mx_version dev) + tcphdr_size;
              tr = fault_if (a < headOffset) OutOfBounds tr
          in do {
            (res, dev, mem, tr) \<leftarrow> itunes_SendTCP E dev TH_ACK mem (Some (a - headOffset))
               (Some a) sndSize tr;
            if res \<noteq> EUSTOR_OK then Some (res, dev, mem, tr)
            else k (dev\<lparr>mx_tx_seq := mx_tx_seq dev + of_nat sndSize\<rparr>) mem sndSize rx_win tr
          }) = Some y"
    and room: "head_size dev \<le> a" "a + n \<le> length mem"
  obtains (failed) r dev' mem' tr' where "y = (r, dev', mem', tr')" "r \<noteq> EUSTOR_OK"
      "r \<noteq> EUSTOR_PRO_REFUSE" "same_conn dev dev'" "length mem' = length mem"
      "\<And>b m. a \<le> b \<Longrightarrow> peek mem' b m = peek mem b m"
      "\<And>b m. b + m \<le> a - head_size dev \<Longrightarrow> peek mem' b m = peek mem b m"
    | (sent) dev0 tr0 snd_size dev1 mem1 tr1 rx_win where "same_conn dev dev0" "mx_tx_seq dev0 = mx_tx_seq dev"
      "wrote (ui_osPriv (mx_usbIOS dev)) (ui_ep_out (mx_usbIOS dev)) tr tr0 []"
      "delivers (mx_usbIOS dev0) (tcp_frame dev0 TH_ACK (peek mem a snd_size)) tr0 EUSTOR_OK tr1"
      "dev1 = (after_send EUSTOR_OK (bump_itx dev0))\<lparr>mx_tx_seq := mx_tx_seq dev + of_nat snd_size\<rparr>"
      "length mem1 = length mem" "\<And>b m. a \<le> b \<Longrightarrow> peek mem1 b m = peek mem b m"
      "\<And>b m. b + m \<le> a - head_size dev \<Longrightarrow> peek mem1 b m = peek mem b m"
      "snd_size \<le> IOS_MAX_PACKET" "snd_size \<le> n"
      "rx_win = (if win = 0 then unat (mx_rx_win dev0) else win) - snd_size"
      "snd_size = min (if n \<ge> IOS_MAX_PACKET then IOS_MAX_PACKET else n)
        (if win = 0 then unat (mx_rx_win dev0) else win)"
      "win = 0 \<Longrightarrow> unat (mx_rx_win dev0) mod 256 = 0" "win \<noteq> 0 \<Longrightarrow> dev0 = dev"
      "k dev1 mem1 snd_size rx_win tr1 = Some y"
proof -
  obtain ra dev0 tr0 where
    ra: "(if win = 0 then itunes_ReceiveAck E dev tr else (EUSTOR_OK, dev, tr)) = (ra, dev0, tr0)"
    by (cases "if win = 0 then itunes_ReceiveAck E dev tr else (EUSTOR_OK, dev, tr)") auto
  have ack: "same_conn dev dev0" "mx_tx_seq dev0 = mx_tx_seq dev" "ra \<noteq> EUSTOR_PRO_REFUSE"
    "ra = EUSTOR_OK \<Longrightarrow> wrote (ui_osPriv (mx_usbIOS dev)) (ui_ep_out (mx_usbIOS dev)) tr tr0 []"
    "ra = EUSTOR_OK \<Longrightarrow> win = 0 \<Longrightarrow> unat (mx_rx_win dev0) mod 256 = 0" "win \<noteq> 0 \<Longrightarrow> dev0 = dev"
    using ra receive_ack [of E dev tr ra dev0 tr0] by (auto split: if_splits)
  show thesis
  proof (cases "ra = EUSTOR_OK")
    case False
    then show thesis using failed [of ra dev0 mem tr0] round ra ack by (simp add: Let_def)
  next
    case True
    define w where "w = (if win = 0 then unat (mx_rx_win dev0) else win)"
    define s where "s = min (if n \<ge> IOS_MAX_PACKET then IOS_MAX_PACKET else n) w"
    define at where "at = a - head_size dev"
    have hs: "head_size dev0 = head_size dev" using ack(1) by (simp add: same_conn_def)
    have a: "a = at + head_size dev0" "\<not> a < head_size dev0" using room hs by (auto simp: at_def)
    have s: "s \<le> IOS_MAX_PACKET" "s \<le> n" by (auto simp: s_def)
    have "do {
        (res, d, m, t) \<leftarrow> itunes_SendTCP E dev0 TH_ACK mem (Some at) (Some a) s tr0;
        if res \<noteq> EUSTOR_OK then Some (res, d, m, t)
        else k (d\<lparr>mx_tx_seq := mx_tx_seq d + of_nat s\<rparr>) m s (w - s) t
      } = Some y"
      unfolding s_def w_def at_def
      using round True a(2) hs by (simp add: ra Let_def fault_if_def)
    then obtain r1 d1 m1 t1 where
      snd: "itunes_SendTCP E dev0 TH_ACK mem (Some at) (Some a) s tr0 = Some (r1, d1, m1, t1)" and
      rest: "(if r1 \<noteq> EUSTOR_OK then Some (r1, d1, m1, t1)
        else k (d1\<lparr>mx_tx_seq := mx_tx_seq d1 + of_nat s\<rparr>) m1 s (w - s) t1) = Some y"
      by (auto simp: bind_eq_Some_conv)
    have "at + head_size dev0 + s \<le> length mem" using room(2) s(2) a(1) by simp
    note p = sendtcp_in_place [OF snd [unfolded a(1)] this, folded a(1)]
    obtain hb where hb: "length hb = head_size dev0" "m1 = poke mem at hb" using p(4) by auto
    have at: "at + length hb = a" "at + length hb \<le> length mem"
      using hb(1) a(1) room(2) by simp_all
    have m1: "length m1 = length mem" "\<And>b m. a \<le> b \<Longrightarrow> peek m1 b m = peek mem b m"
      "\<And>b m. b + m \<le> a - head_size dev \<Longrightarrow> peek m1 b m = peek mem b m"
      using at peek_poke_after [of at hb _ mem] peek_poke_before [of _ _ at mem hb]
      by (simp_all add: hb(2) length_poke at_def)
    show thesis
    proof (cases "r1 = EUSTOR_OK")
      case False
      then show thesis
        using failed [of r1 d1 m1 t1] rest p(2,3) m1 ack(1) by simp
    next
      case r1: True
      show thesis
        by (rule sent [of dev0 tr0 s t1 _ m1 "w - s"])
          (use r1 rest p(1,2) ack True m1 s in \<open>auto simp: w_def s_def\<close>)
    qed
  qed
qed

lemma send_loop_sends:
  "itunes_send_loop E dev mem off psize cur win tr = Some y \<Longrightarrow> cur \<le> psize \<Longrightarrow>
   head_size dev \<le> off \<Longrightarrow> off + psize \<le> length mem \<Longrightarrow>
   sends_from dev mem (off + cur) (psize - cur) tr y"
proof (induct rule: itunes_send_loop.raw_induct [rotated, consumes 1, case_names step])
  case (step loop E dev mem off psize cur win tr y)
  show ?case
  proof (cases "cur < psize")
    case False
    then have "y = (EUSTOR_OK, dev, mem, tr)" "cur = psize" using step by auto
    then show ?thesis by (auto simp: sends_from_def peek_def intro!: exI [of _ "[]"])
  next
    case True
    have room: "head_size dev \<le> off + cur" "off + cur + (psize - cur) \<le> length mem"
      using step.prems by auto
    note round = step.hyps(2) [simplified True if_True]
    show ?thesis
    proof (rule send_round [where k = "\<lambda>d m s w. loop E d m off psize (cur + s) w", OF round room])
      fix r dev' mem' tr'
      assume "y = (r, dev', mem', tr')" "r \<noteq> EUSTOR_OK" "r \<noteq> EUSTOR_PRO_REFUSE"
        "same_conn dev dev'" "length mem' = length mem"
      then show ?thesis by (simp add: sends_from_def)
    next
      fix dev0 tr0 s dev1 mem1 tr1 w
      assume a: "same_conn dev dev0" "mx_tx_seq dev0 = mx_tx_seq dev"
        "wrote (ui_osPriv (mx_usbIOS dev)) (ui_ep_out (mx_usbIOS dev)) tr tr0 []"
        "delivers (mx_usbIOS dev0) (tcp_frame dev0 TH_ACK (peek mem (off + cur) s)) tr0 EUSTOR_OK tr1"
        and d: "dev1 = (after_send EUSTOR_OK (bump_itx dev0))\<lparr>mx_tx_seq := mx_tx_seq dev + of_nat s\<rparr>"
        and m: "length mem1 = length mem" "\<And>b m. off + cur \<le> b \<Longrightarrow> peek mem1 b m = peek mem b m"
        and s: "s \<le> IOS_MAX_PACKET" "s \<le> psize - cur"
        and rest: "loop E dev1 mem1 off psize (cur + s) w tr1 = Some y"
      have "head_size dev1 \<le> off" using step.prems(2) a(1) by (simp add: d same_conn_def)
      from step.hyps(1) [OF rest _ this] step.prems s m(1)
      have rest: "sends_from dev1 mem1 (off + cur + s) (psize - cur - s) tr1 y"
        by (simp add: add.assoc)
      have "sends_from dev mem (off + cur) (s + (psize - cur - s)) tr y"
        by (rule sends_from_packet [OF a rest [unfolded d] m(1) m(2)]) (use s room in simp_all)
      moreover have "s + (psize - cur - s) = psize - cur" using s(2) by simp
      ultimately show ?thesis by (simp only:)
    qed
  qed
qed

lemma send_loop_keeps_front:
  "itunes_send_loop E dev mem off psize cur win tr = Some y \<Longrightarrow> cur \<le> psize \<Longrightarrow>
   head_size dev \<le> off \<Longrightarrow> off + psize \<le> length mem \<Longrightarrow>
   cur = psize \<or> 60 \<le> cur \<or> cur = 0 \<and> win mod 256 = 0 \<Longrightarrow>
   peek (fst (snd (snd y))) off 24 = peek mem off 24"
proof (induct rule: itunes_send_loop.raw_induct [rotated, consumes 1, case_names step])
  case (step loop E dev mem off psize cur win tr y)
  have head: "head_size dev \<le> 36" using mux_header_size_le(2) [of "mx_version dev"] by simp
  show ?case
  proof (cases "cur < psize")
    case False
    then show ?thesis using step by auto
  next
    case True
    have room: "head_size dev \<le> off + cur" "off + cur + (psize - cur) \<le> length mem"
      using step.prems by auto
    have front: "off + 24 \<le> off + cur - head_size dev \<or> cur = 0" using step.prems(4) head True by auto
    note round = step.hyps(2) [simplified True if_True]
    show ?thesis
    proof (rule send_round [where k = "\<lambda>d m s w. loop E d m off psize (cur + s) w", OF round room])
      fix r dev' mem' tr'
      assume "y = (r, dev', mem', tr')"
        "\<And>b m. off + cur \<le> b \<Longrightarrow> peek mem' b m = peek mem b m"
        "\<And>b m. b + m \<le> off + cur - head_size dev \<Longrightarrow> peek mem' b m = peek mem b m"
      then show ?thesis using front by auto
    next
      fix dev0 tr0 s dev1 mem1 tr1 w
      assume conn: "same_conn dev dev0"
        and d: "dev1 = (after_send EUSTOR_OK (bump_itx dev0))\<lparr>mx_tx_seq := mx_tx_seq dev + of_nat s\<rparr>"
        and m: "length mem1 = length mem" "\<And>b m. off + cur \<le> b \<Longrightarrow> peek mem1 b m = peek mem b m"
          "\<And>b m. b + m \<le> off + cur - head_size dev \<Longrightarrow> peek mem1 b m = peek mem b m"
        and s: "s \<le> psize - cur" "s = min (if IOS_MAX_PACKET \<le> psize - cur then IOS_MAX_PACKET
            else psize - cur) (if win = 0 then unat (mx_rx_win dev0) else win)"
        and w: "w = (if win = 0 then unat (mx_rx_win dev0) else win) - s"
        and blocks: "win = 0 \<Longrightarrow> unat (mx_rx_win dev0) mod 256 = 0"
        and rest: "loop E dev1 mem1 off psize (cur + s) w tr1 = Some y"
      have h: "head_size dev1 \<le> off" using step.prems(2) conn by (simp add: d same_conn_def)
      have "cur + s = psize \<or> 60 \<le> cur + s \<or> cur + s = 0 \<and> w mod 256 = 0"
      proof (cases "cur = 0")
        case cur: True
        define v where "v = (if win = 0 then unat (mx_rx_win dev0) else win)"
        have v: "v mod 256 = 0" using cur True step.prems(4) blocks by (auto simp: v_def)
        consider "v = 0" | "256 \<le> v" using v by (metis mod_less not_less)
        then show ?thesis
        proof cases
          case 1
          then show ?thesis using cur w s(2) by (simp flip: v_def)
        next
          case 2
          then show ?thesis using cur s(2) by (auto simp flip: v_def)
        qed
      next
        case False
        then show ?thesis using step.prems(4) True by auto
      qed
      from step.hyps(1) [OF rest _ h _ this] step.prems s(1) m(1)
      have "peek (fst (snd (snd y))) off 24 = peek mem1 off 24" by simp
      then show ?thesis using front m by auto
    qed
  qed
qed

section \<open>Receiving data\<close>

text \<open>The receive loop appends what arrives to the packet in \<open>interBuf\<close>.\<close>

lemma recv_loop_appends:
  "itunes_recv_loop E dev avalen cur tot tr = Some y \<Longrightarrow>
   length (mx_interBuf dev) = IOS_INTERBUF_SIZE \<Longrightarrow> cur + avalen = IOS_INTERBUF_SIZE \<Longrightarrow>
   \<exists>r g buf tr'. y = (r, dev\<lparr>mx_interBuf := buf\<rparr>, tr') \<and> r \<noteq> EUSTOR_PRO_REFUSE \<and> wrote h ep tr tr' [] \<and>
     got (ui_osPriv (mx_usbIOS dev)) (ui_ep_in (mx_usbIOS dev)) tr' =
       got (ui_osPriv (mx_usbIOS dev)) (ui_ep_in (mx_usbIOS dev)) tr @ g \<and>
     length buf = IOS_INTERBUF_SIZE \<and> cur + length g \<le> IOS_INTERBUF_SIZE \<and>
     take (cur + length g) buf = take cur (mx_interBuf dev) @ g \<and> (r = EUSTOR_OK \<longrightarrow> tot \<le> cur + length g)"
proof (induct rule: itunes_recv_loop.raw_induct [rotated, consumes 1, case_names step])
  case (step loop E dev avalen cur tot tr y)
  let ?got = "got (ui_osPriv (mx_usbIOS dev)) (ui_ep_in (mx_usbIOS dev))"
  show ?case
  proof (cases "cur < tot")
    case False
    then have y: "y = (EUSTOR_OK, dev, tr)" using step.hyps(2) by simp
    show ?thesis
      by (rule exI [of _ EUSTOR_OK], rule exI [of _ "[]"], rule exI [of _ "mx_interBuf dev"],
          rule exI [of _ tr]) (use y step.prems False in simp)
  next
    case True
    obtain r1 data tr1 where
      rcv: "usUsb_BlukPacketReceive E (mx_usbIOS dev) avalen PACKAGE_TIMEOUT tr = (r1, data, tr1)"
      by (cases "usUsb_BlukPacketReceive E (mx_usbIOS dev) avalen PACKAGE_TIMEOUT tr") auto
    note rf = receive_clean [OF rcv, of h ep] receive_got [OF rcv] receive_not_refused [OF rcv]
    show ?thesis
    proof (cases "r1 = EUSTOR_OK")
      case False
      then have y: "y = (r1, dev, tr1)" using step.hyps(2) True rcv by simp
      show ?thesis
        by (rule exI [of _ r1], rule exI [of _ "[]"], rule exI [of _ "mx_interBuf dev"],
            rule exI [of _ tr1]) (use y step.prems False rf in simp)
    next
      case ok: True
      let ?buf = "poke (mx_interBuf dev) cur data"
      have l: "length ?buf = IOS_INTERBUF_SIZE" "cur + length data \<le> IOS_INTERBUF_SIZE"
        using rf step.prems by (simp_all add: length_poke)
      have tk: "take (cur + length data) ?buf = take cur (mx_interBuf dev) @ data"
        using l step.prems by (simp add: poke_def)
      have "loop E (dev\<lparr>mx_interBuf := ?buf\<rparr>) (avalen - length data) (cur + length data) tot tr1 = Some y"
        using step.hyps(2) True rcv ok by (simp add: Let_def)
      from step.hyps(1) [OF this] l rf step.prems obtain r g buf tr' where
        y: "y = (r, dev\<lparr>mx_interBuf := buf\<rparr>, tr')" "r \<noteq> EUSTOR_PRO_REFUSE" "wrote h ep tr1 tr' []"
        "?got tr' = ?got tr1 @ g" "length buf = IOS_INTERBUF_SIZE"
        "cur + length data + length g \<le> IOS_INTERBUF_SIZE"
        "take (cur + length data + length g) buf = take (cur + length data) ?buf @ g"
        "r = EUSTOR_OK \<longrightarrow> tot \<le> cur + length data + length g"
        by auto
      have "wrote h ep tr tr' []" using wrote_trans [OF _ y(3)] rf by fastforce
      then show ?thesis
        by (intro exI [of _ r] exI [of _ "data @ g"] exI [of _ buf] exI [of _ tr'])
          (use y tk rf in \<open>simp add: add.assoc\<close>)
    qed
  qed
qed

lemma demux_ConsD:
  assumes "demux v g = (th, p) # rest"
  shows "ntohl (mh_protocol (dec_mux_header g)) = proto_num MUX_PROTO_TCP"
    and "mux_header_size v + tcphdr_size \<le> unat (ntohl (mh_length (dec_mux_header g)))"
    and "unat (ntohl (mh_length (dec_mux_header g))) \<le> length g"
    and "th = dec_tcphdr (drop (mux_header_size v) g)"
    and "p = drop (mux_header_size v + tcphdr_size) (take (unat (ntohl (mh_length (dec_mux_header g)))) g)"
  using assms by (subst (asm) demux.simps, simp add: Let_def split: if_splits)+

lemma dec_mux_prefix:
  "8 \<le> length g \<Longrightarrow> mh_protocol (dec_mux_header (g @ r)) = mh_protocol (dec_mux_header g)"
  "8 \<le> length g \<Longrightarrow> mh_length (dec_mux_header (g @ r)) = mh_length (dec_mux_header g)"
  by (simp_all add: dec_mux_header_def get_append_left)

lemma reset_receive_loop_same:
  "reset_receive_loop E dev tr = Some y \<Longrightarrow> same_conn dev (fst y)"
proof (induct rule: reset_receive_loop.raw_induct [rotated, consumes 1, case_names step])
  case (step loop E dev tr y)
  have "loop E d t = Some y \<Longrightarrow> same_conn dev d \<Longrightarrow> same_conn dev (fst y)" for d t
    using step.hyps(1) same_conn_trans by blast
  then show ?case
    using step.hyps(2) by (fastforce simp: Let_def split: if_splits prod.splits)
qed

text \<open>
  A receive that gets as far as the TCP header: what arrived, \<open>g\<close>, is the beginning of \<open>interBuf\<close>
  and holds the whole packet its header announces.
\<close>

lemma recv_arrived:
  assumes run: "itunes_RecvProPackage E dev mem off tsize tr = Some (r, dev', mem', n, tr')"
    and buf: "length (mx_interBuf dev) = IOS_INTERBUF_SIZE"
  obtains (early) "mem' = mem" "n = None" "r \<noteq> EUSTOR_OK" "r \<noteq> EUSTOR_PRO_REFUSE" "same_conn dev dev'"
    "mx_rx_win dev' = mx_rx_win dev"
  | (arrived) g ib mh tr2 tot where
    "got (ui_osPriv (mx_usbIOS dev)) (ui_ep_in (mx_usbIOS dev)) tr2 =
      got (ui_osPriv (mx_usbIOS dev)) (ui_ep_in (mx_usbIOS dev)) tr @ g"
    "wrote h ep tr tr2 []"
    "take (length g) ib = g" "length ib = IOS_INTERBUF_SIZE" "length g \<le> IOS_INTERBUF_SIZE"
    "mux_header_size (mx_version dev) \<le> length g"
    "tot = unat (ntohl (mh_length (dec_mux_header g)))" "tot \<le> length g"
    "ntohl (mh_protocol (dec_mux_header g)) \<notin> {proto_num MUX_PROTO_CONTROL, proto_num MUX_PROTO_VERSION}"
    "itunes_recv_finish E ((irx_update mh dev)\<lparr>mx_interBuf := ib\<rparr>) mem off tot tr2 =
      Some (r, dev', mem', n, tr')"
proof -
  obtain r0 data tr0 where
    rcv: "usUsb_BlukPacketReceive E (mx_usbIOS dev) IOS_INTERBUF_SIZE PACKAGE_TIMEOUT tr = (r0, data, tr0)"
    by (cases "usUsb_BlukPacketReceive E (mx_usbIOS dev) IOS_INTERBUF_SIZE PACKAGE_TIMEOUT tr") auto
  note rf = receive_clean [OF rcv, of h ep] receive_got [OF rcv] receive_not_refused [OF rcv]
  define b0 where "b0 = poke (mx_interBuf dev) 0 data"
  define mh where "mh = dec_mux_header b0"
  define d1 where "d1 = irx_update mh (dev\<lparr>mx_interBuf := b0\<rparr>)"
  define tot where "tot = unat (ntohl (mh_length mh))"
  have b0: "length b0 = IOS_INTERBUF_SIZE" "b0 = data @ drop (length data) (mx_interBuf dev)"
    using rf buf by (simp_all add: b0_def length_poke) (simp add: poke_def)
  have d1: "same_conn dev d1" "mx_interBuf d1 = b0" "mx_usbIOS d1 = mx_usbIOS dev" "mx_version d1 = mx_version dev"
    "mx_rx_win d1 = mx_rx_win dev"
    using b0 buf by (simp_all add: d1_def same_conn_def irx_update_def)
  show thesis
  proof (cases "r0 = EUSTOR_OK \<and> ntohl (mh_protocol mh) \<noteq> proto_num MUX_PROTO_CONTROL \<and>
      ntohl (mh_protocol mh) \<noteq> proto_num MUX_PROTO_VERSION \<and>
      \<not> length data < mux_header_size (mx_version dev) \<and> \<not> tot > IOS_INTERBUF_SIZE")
    case False
    then show thesis
      using run rcv d1 rf early
      by (auto simp: itunes_RecvProPackage_def Let_def b0_def mh_def d1_def tot_def split: if_splits)
  next
    case True
    have "do {(rc, dev, tr) \<leftarrow> itunes_recv_loop E d1 (IOS_INTERBUF_SIZE - length data) (length data) tot tr0;
        if rc \<noteq> EUSTOR_OK then Some (rc, dev, mem, None, tr)
        else itunes_recv_finish E dev mem off tot tr} = Some (r, dev', mem', n, tr')"
      using run True unfolding b0_def mh_def d1_def tot_def
      by (simp add: itunes_RecvProPackage_def Let_def rcv not_less cong: if_cong)
    then obtain rc d2 tr2 where
      loop: "itunes_recv_loop E d1 (IOS_INTERBUF_SIZE - length data) (length data) tot tr0 = Some (rc, d2, tr2)"
      and rest: "(if rc \<noteq> EUSTOR_OK then Some (rc, d2, mem, None, tr2)
        else itunes_recv_finish E d2 mem off tot tr2) = Some (r, dev', mem', n, tr')"
      by (auto simp: bind_eq_Some_conv)
    from recv_loop_appends [OF loop, of h ep] d1 b0 rf obtain g2 ib where
      l: "d2 = d1\<lparr>mx_interBuf := ib\<rparr>" "rc \<noteq> EUSTOR_PRO_REFUSE" "wrote h ep tr0 tr2 []"
      "got (ui_osPriv (mx_usbIOS dev)) (ui_ep_in (mx_usbIOS dev)) tr2 =
        got (ui_osPriv (mx_usbIOS dev)) (ui_ep_in (mx_usbIOS dev)) tr0 @ g2"
      "length ib = IOS_INTERBUF_SIZE" "length data + length g2 \<le> IOS_INTERBUF_SIZE"
      "take (length data + length g2) ib = take (length data) b0 @ g2"
      "rc = EUSTOR_OK \<longrightarrow> tot \<le> length data + length g2"
      by auto
    have ib: "take (length (data @ g2)) ib = data @ g2" using l(7) b0(2) by simp
    have data: "8 \<le> length data"
      using True mux_header_size_le(1) [of "mx_version dev"] by linarith
    have mh': "mh_protocol mh = mh_protocol (dec_mux_header (data @ g2))"
      "mh_length mh = mh_length (dec_mux_header (data @ g2))"
      using dec_mux_prefix [OF data] b0(2) by (simp_all add: mh_def)
    show thesis
    proof (cases "rc = EUSTOR_OK")
      case False
      then show thesis
        using early rest l(1,2,5) d1 buf by (auto simp: same_conn_def)
    next
      case rc: True
      have d2: "d2 = (irx_update mh dev)\<lparr>mx_interBuf := ib\<rparr>"
        by (simp add: l(1) d1_def irx_update_def)
      have "wrote h ep tr tr2 []" using wrote_trans [OF _ l(3)] rf by fastforce
      from arrived [OF _ this ib l(5), of tot mh] show thesis
        using rest rc l rf True mh' by (simp add: d2 tot_def)
    qed
  qed
qed

lemma peek_of_prefix:
  "take (length g) m = g \<Longrightarrow> a + n \<le> length g \<Longrightarrow> peek m a n = take n (drop a g)"
proof -
  assume "take (length g) m = g" and l: "a + n \<le> length g"
  then have "m = g @ drop (length g) m" by (metis append_take_drop_id)
  then have "peek m a n = peek g a n" using l by (metis peek_append_left)
  then show ?thesis by (simp add: peek_def)
qed

lemma word_diff_of_nat: "b \<le> a \<Longrightarrow> (of_nat a - of_nat b :: 'a::len word) = of_nat (a - b)"
  by simp

lemma recv_ok:
  assumes run: "itunes_RecvProPackage E dev mem off tsize tr = Some (EUSTOR_OK, dev', mem', n, tr')"
    and buf: "length (mx_interBuf dev) = IOS_INTERBUF_SIZE"
    and input: "got (ui_osPriv (mx_usbIOS dev)) (ui_ep_in (mx_usbIOS dev)) tr' =
      got (ui_osPriv (mx_usbIOS dev)) (ui_ep_in (mx_usbIOS dev)) tr @ g"
    and pkt: "demux (mx_version dev) g = (th, p) # rest"
    and room: "off + length p \<le> length mem"
  shows "th_flags th = TH_ACK \<and> n = Some (of_nat (length p)) \<and> mem' = poke mem off p \<and>
    same_conn dev dev' \<and> mx_tx_ack dev' = mx_tx_ack dev + of_nat (length p) \<and>
    mx_tx_seq dev' = mx_tx_seq dev \<and> mx_rx_seq dev' = ntohl (th_seq th) \<and>
    mx_rx_ack dev' = ntohl (th_ack th) \<and>
    (\<exists>i k. wrote (ui_osPriv (mx_usbIOS dev)) (ui_ep_out (mx_usbIOS dev)) tr tr'
       (if p = [] then [] else take k (tcp_frame (dev\<lparr>mx_irx_seq := i\<rparr>) TH_ACK [])))"
proof (rule recv_arrived [OF run buf, where h = "ui_osPriv (mx_usbIOS dev)" and ep = "ui_ep_out (mx_usbIOS dev)"])
  fix g' ib mh tr2 tot
  let ?got = "got (ui_osPriv (mx_usbIOS dev)) (ui_ep_in (mx_usbIOS dev))"
  let ?wr = "wrote (ui_osPriv (mx_usbIOS dev)) (ui_ep_out (mx_usbIOS dev))"
  assume g': "?got tr2 = ?got tr @ g'" and w2: "?wr tr tr2 []"
    and ib: "take (length g') ib = g'" "length ib = IOS_INTERBUF_SIZE" "length g' \<le> IOS_INTERBUF_SIZE"
    and tot: "tot = unat (ntohl (mh_length (dec_mux_header g')))" "tot \<le> length g'"
    and fin: "itunes_recv_finish E ((irx_update mh dev)\<lparr>mx_interBuf := ib\<rparr>) mem off tot tr2 =
      Some (EUSTOR_OK, dev', mem', n, tr')"
  define d0 where "d0 = (irx_update mh dev)\<lparr>mx_interBuf := ib\<rparr>"
  have d0: "mx_version d0 = mx_version dev" "mx_usbIOS d0 = mx_usbIOS dev" "same_conn dev d0"
      "mx_tx_ack d0 = mx_tx_ack dev" "mx_tx_seq d0 = mx_tx_seq dev" "mx_interBuf d0 = ib"
    using buf ib by (simp_all add: d0_def irx_update_def same_conn_def)
  let ?mhs = "mux_header_size (mx_version dev)"
  define th' where "th' = dec_tcphdr (drop ?mhs ib)"
  define d where "d = rx_update th' d0"
  define pl where "pl = (of_nat tot - of_nat ?mhs - of_nat tcphdr_size :: u32)"
  have d: "mx_version d = mx_version dev" "mx_usbIOS d = mx_usbIOS dev" "same_conn dev d"
      "mx_tx_ack d = mx_tx_ack dev" "mx_tx_seq d = mx_tx_seq dev" "mx_interBuf d = ib"
      "mx_rx_seq d = ntohl (th_seq th')" "mx_rx_ack d = ntohl (th_ack th')"
    using d0 by (simp_all add: d_def rx_update_def same_conn_def)
  have ackflag: "th_flags th' = TH_ACK" and
    rest: "(if pl \<noteq> 0 then do {
        (_, dev, _, tr) \<leftarrow> itunes_SendTCP E d TH_ACK (zeros 512) (Some 0) None 0 tr2;
        let n = unat pl;
            tr = fault_if (length (mx_interBuf dev) < ?mhs + tcphdr_size + n) OutOfBounds tr;
            (mem, tr) = memcpy mem off (peek (mx_interBuf dev) (?mhs + tcphdr_size) n) tr
        in Some (EUSTOR_OK, dev\<lparr>mx_tx_ack := mx_tx_ack dev + pl\<rparr>, mem, Some pl, tr)}
      else Some (EUSTOR_OK, d, mem, Some 0, tr2)) = Some (EUSTOR_OK, dev', mem', n, tr')"
    using fin unfolding d0_def [symmetric] itunes_recv_finish_def Let_def d0(1,6)
    by (auto simp: th'_def d_def pl_def d0(6) bind_eq_Some_conv split: if_splits)
  define tr3 where "tr3 = tr'"
  obtain tr1 x k where fin': "tr' = tr1 @ map Fault x" and
    w: "?wr tr tr1 (if pl = 0 then [] else take k (tcp_frame d TH_ACK []))" and
    gt: "?got tr1 = ?got tr2" and
    out: "n = Some pl" "same_conn dev dev'" "mx_tx_ack dev' = mx_tx_ack dev + pl"
      "mx_tx_seq dev' = mx_tx_seq dev" "mx_rx_seq dev' = ntohl (th_seq th')" "mx_rx_ack dev' = ntohl (th_ack th')"
    and mem: "?mhs + tcphdr_size + unat pl \<le> IOS_INTERBUF_SIZE \<Longrightarrow> off + unat pl \<le> length mem \<Longrightarrow>
      x = [] \<and> mem' = poke mem off (peek ib (?mhs + tcphdr_size) (unat pl))"
  proof (cases "pl = 0")
    case True
    then show thesis using that [of tr2 "[]"] rest w2 d by (simp add: peek_def)
  next
    case False
    then obtain r3 d3 m3 tr3 where
      snd: "itunes_SendTCP E d TH_ACK (zeros 512) (Some 0) None 0 tr2 = Some (r3, d3, m3, tr3)"
      and res: "(let n = unat pl;
            tr = fault_if (length (mx_interBuf d3) < ?mhs + tcphdr_size + n) OutOfBounds tr3;
            (mem, tr) = memcpy mem off (peek (mx_interBuf d3) (?mhs + tcphdr_size) n) tr
        in Some (EUSTOR_OK, d3\<lparr>mx_tx_ack := mx_tx_ack d3 + pl\<rparr>, mem, Some pl, tr)) =
          Some (EUSTOR_OK, dev', mem', n, tr')"
      using rest by (auto simp: bind_eq_Some_conv)
    note p = sendtcp_ack [OF snd]
    obtain k where k: "?wr tr2 tr3 (take k (tcp_frame d TH_ACK []))"
      using p(1) d(2) by (auto simp: delivers_def)
    have "?wr tr tr3 (take k (tcp_frame d TH_ACK []))" using wrote_trans [OF w2 k] by simp
    moreover have "?got tr3 = ?got tr2" using delivers_got [OF p(1)] .
    moreover define src where "src = peek ib (?mhs + tcphdr_size) (unat pl)"
    define x where "x = (if length ib < ?mhs + tcphdr_size + unat pl then [OutOfBounds] else []) @
      (if off + length src \<le> length mem then [] else [OutOfBounds])"
    have d3: "mx_interBuf d3 = ib" "mx_tx_ack d3 = mx_tx_ack dev" "mx_tx_seq d3 = mx_tx_seq dev"
      "mx_rx_seq d3 = ntohl (th_seq th')" "mx_rx_ack d3 = ntohl (th_ack th')" "same_conn dev d3"
      using p(2) d by simp_all
    have "tr' = tr3 @ map Fault x" "dev' = d3\<lparr>mx_tx_ack := mx_tx_ack d3 + pl\<rparr>" "n = Some pl"
      "mem' = (if off + length src \<le> length mem then poke mem off src else mem)"
      using res by (auto simp: Let_def fault_if_def memcpy_def d3(1) x_def src_def split: if_splits)
    moreover from this have "x = [] \<and> mem' = poke mem off (peek ib (?mhs + tcphdr_size) (unat pl))"
      if "?mhs + tcphdr_size + unat pl \<le> IOS_INTERBUF_SIZE" "off + unat pl \<le> length mem"
      using that ib(2) by (auto simp: x_def src_def)
    ultimately show thesis
      using that [of tr3 x k] d3 False by simp
  qed
  have "?got tr' = ?got tr1" unfolding fin' by (simp add: got_def comp_def)
  then have g: "g = g'" using input g' gt by simp
  note dm = demux_ConsD [OF pkt, unfolded g]
  have hl: "?mhs + tcphdr_size \<le> tot" using dm(2) tot by simp
  have p: "p = drop (?mhs + tcphdr_size) (take tot g')" using dm(5) tot by simp
  have lp: "length p = tot - (?mhs + tcphdr_size)" using p tot by simp
  have pl: "pl = of_nat (length p)" using hl by (simp add: pl_def lp)
  have "length p < 2 ^ LENGTH(32)" using lp tot ib(3) by simp
  then have upl: "unat pl = length p" unfolding pl by (rule unat_of_nat_small)
  have "peek ib (?mhs + tcphdr_size) (length p) = p"
    using peek_of_prefix [OF ib(1), of "?mhs + tcphdr_size" "length p"] hl tot lp
    by (simp add: p drop_take)
  moreover have "th' = th"
  proof -
    have "take tcphdr_size (drop ?mhs ib) = take tcphdr_size (drop ?mhs g')"
      using peek_of_prefix [OF ib(1), of ?mhs tcphdr_size] hl tot by (simp add: peek_def)
    then show ?thesis unfolding dm(4) th'_def by (metis tcp_hd.dec_take)
  qed
  moreover have "?mhs + tcphdr_size + length p \<le> IOS_INTERBUF_SIZE" using lp hl tot(2) ib(3) by simp
  ultimately have fin: "x = []" "mem' = poke mem off p" "th' = th"
    using mem room by (simp_all add: upl)
  have "pl = 0 \<longleftrightarrow> p = []" using upl pl by (cases "p = []") auto
  then have "?wr tr tr' (if p = [] then [] else take k (tcp_frame d TH_ACK []))"
    using w fin'  fin(1) by simp
  moreover have "tcp_frame d TH_ACK [] = tcp_frame (dev\<lparr>mx_irx_seq := mx_irx_seq d\<rparr>) TH_ACK []"
    by (simp add: d_def d0_def rx_update_def irx_update_def tcp_frame_def mux_of_def tcp_of_def)
  ultimately have ex: "\<exists>i k. ?wr tr tr' (if p = [] then [] else take k (tcp_frame (dev\<lparr>mx_irx_seq := i\<rparr>) TH_ACK []))"
    by metis
  show ?thesis
    by (intro conjI ex) (use out fin ackflag pl in simp_all)
qed simp_all

lemma reset_seqs_zero:
  "mx_tx_seq (reset_seqs d) = 0" "mx_tx_ack (reset_seqs d) = 0" "mx_rx_ack (reset_seqs d) = 0"
  "mx_rx_win (reset_seqs d) = 0" "mx_rx_seq (reset_seqs d) = 0"
  by (simp_all add: reset_seqs_def)

lemma recv_refused:
  assumes run: "itunes_RecvProPackage E dev mem off tsize tr = Some (r, dev', mem', n, tr')"
    and buf: "length (mx_interBuf dev) = IOS_INTERBUF_SIZE" and r: "r \<noteq> EUSTOR_OK"
  shows "mem' = mem \<and> n = None \<and>
    (r = EUSTOR_PRO_REFUSE \<longrightarrow> mx_tx_seq dev' = 0 \<and> mx_tx_ack dev' = 0 \<and> mx_rx_ack dev' = 0 \<and> mx_rx_win dev' = 0)"
proof (rule recv_arrived [OF run buf, where h = 0 and ep = 0])
  fix ib mh tot tr2
  assume "itunes_recv_finish E ((irx_update mh dev)\<lparr>mx_interBuf := ib\<rparr>) mem off tot tr2 =
      Some (r, dev', mem', n, tr')"
  then show ?thesis
    using r
    by (auto simp: itunes_recv_finish_def itunes_ResetReceive_def Let_def bind_eq_Some_conv reset_seqs_zero
        split: if_splits prod.splits)
qed simp_all

section \<open>Connecting\<close>

lemma send_whole_delivers:
  assumes "send_whole E dev pkt tr = Some (r, dev', tr')"
  shows "delivers (mx_usbIOS dev) pkt tr r tr' \<and> dev' = dev"
  using assms
  by (auto simp: send_whole_def bind_eq_Some_conv split: if_splits
      dest: send_delivers intro: delivers_then_zlp)

lemma intermem_delivers:
  assumes run: "itunes_InterMemSendPacket E dev proto header data tr = Some (r, dev', tr')"
    and buf: "length (mx_interBuf dev) = IOS_INTERBUF_SIZE"
    and hdr: "proto_hdrlen proto = Some (length header)" "length header + length data + 16 \<le> IOS_INTERBUF_SIZE"
  shows "\<exists>hb b. delivers (mx_usbIOS dev) (hb @ header @ data) tr r tr' \<and>
    length hb = mux_header_size (mx_version dev) \<and> length b = IOS_INTERBUF_SIZE \<and>
    mh_protocol (dec_mux_header hb) = htonl (proto_num proto) \<and>
    mh_length (dec_mux_header hb) = htonl (of_nat (length hb + length header + length data)) \<and>
    (\<exists>i j. dev' = dev\<lparr>mx_irx_seq := i, mx_itx_seq := j, mx_interBuf := b\<rparr>)"
proof -
  let ?mhs = "mux_header_size (mx_version dev)"
  define d1 where "d1 = (if 2 \<le> mx_version dev \<and> proto = MUX_PROTO_SETUP
                     then dev\<lparr>mx_itx_seq := 0, mx_irx_seq := 0xFFFF\<rparr> else dev)"
  define tot where "tot = ?mhs + length header + length data"
  define hb where "hb = enc_mux_header (mx_version dev) (mux_of d1 proto tot)"
  define b where "b = poke (poke (poke (mx_interBuf dev) 0 hb) ?mhs header) (?mhs + length header) data"
  define d2 where "d2 = (bump_itx d1)\<lparr>mx_interBuf := b\<rparr>"
  have tot: "tot \<le> IOS_INTERBUF_SIZE" using hdr(2) mux_header_size_le(2) [of "mx_version dev"] by (simp add: tot_def)
  have lhb: "length hb = ?mhs" by (simp add: hb_def)
  have lb: "length b = IOS_INTERBUF_SIZE"
    using tot lhb buf by (simp add: b_def tot_def length_poke)
  have tk: "take tot b = hb @ header @ data"
    using tot lhb buf by (simp add: b_def tot_def poke_def)
  have fields: "mx_version d1 = mx_version dev" "mx_usbIOS d1 = mx_usbIOS dev" "mx_interBuf d1 = mx_interBuf dev"
    by (simp_all add: d1_def)
  have "itunes_InterMemSendPacket E dev proto header data tr = send_whole E d2 (take tot b) tr"
    using tot fields unfolding d2_def b_def hb_def tot_def
    by (simp add: itunes_InterMemSendPacket_def hdr(1) Let_def not_less d1_def)
  then have "itunes_InterMemSendPacket E dev proto header data tr = send_whole E d2 (hb @ header @ data) tr"
    unfolding tk .
  with run have "send_whole E d2 (hb @ header @ data) tr = Some (r, dev', tr')" by simp
  from send_whole_delivers [OF this] fields
  have "delivers (mx_usbIOS dev) (hb @ header @ data) tr r tr' \<and> dev' = d2"
    by (simp add: d2_def)
  moreover have "\<exists>i j. d2 = dev\<lparr>mx_irx_seq := i, mx_itx_seq := j, mx_interBuf := b\<rparr>"
  proof -
    have "d2 = dev\<lparr>mx_irx_seq := mx_irx_seq d2, mx_itx_seq := mx_itx_seq d2, mx_interBuf := b\<rparr>"
      by (simp add: d2_def d1_def bump_itx_def)
    then show ?thesis by blast
  qed
  moreover have "mh_protocol (dec_mux_header hb) = htonl (proto_num proto)"
    "mh_length (dec_mux_header hb) = htonl (of_nat (length hb + length header + length data))"
    using dec_mux_fields [of "mx_version dev" "mux_of d1 proto tot" "[]"] lhb
    by (simp_all add: hb_def mux_of_def tot_def)
  ultimately show ?thesis using lhb lb by blast
qed

lemma version_reply_ok:
  assumes run: "version_reply E dev tr = Some (EUSTOR_OK, dev', tr')"
    and buf: "length (mx_interBuf dev) = IOS_INTERBUF_SIZE"
  shows "mx_version dev' \<in> {1, 2} \<and> same_conn (dev\<lparr>mx_version := mx_version dev'\<rparr>) dev' \<and>
    mx_tx_seq dev' = mx_tx_seq dev \<and> mx_tx_ack dev' = mx_tx_ack dev \<and>
    (\<exists>bs. wrote (ui_osPriv (mx_usbIOS dev)) (ui_ep_out (mx_usbIOS dev)) tr tr' bs)"
proof -
  let ?h = "ui_osPriv (mx_usbIOS dev)" and ?ep = "ui_ep_out (mx_usbIOS dev)"
  obtain r2 data tr2 where
    rcv: "usUsb_BlukPacketReceive E (mx_usbIOS dev) 512 PACKAGE_TIMEOUT tr = (r2, data, tr2)"
    by (cases "usUsb_BlukPacketReceive E (mx_usbIOS dev) 512 PACKAGE_TIMEOUT tr") auto
  define major where "major = ntohl (get32 (poke (zeros 512) 0 data) (mux_header_size (mx_version dev)))"
  define d2 where "d2 = dev\<lparr>mx_version := ucast major\<rparr>"
  have w2: "wrote ?h ?ep tr tr2 []" using receive_clean [OF rcv, of ?h ?ep] by simp
  have major: "major = 2 \<or> major = 1" and
    rest: "(if 2 \<le> mx_version d2 then itunes_InterMemSendPacket E d2 MUX_PROTO_SETUP [] [7] tr2
       else Some (EUSTOR_OK, d2, tr2)) = Some (EUSTOR_OK, dev', tr')"
    using run by (auto simp: version_reply_def rcv Let_def major_def d2_def split: if_splits)
  have v: "mx_version d2 \<in> {1, 2}" using major by (auto simp: d2_def)
  show ?thesis
  proof (cases "2 \<le> mx_version d2")
    case True
    then have s3: "itunes_InterMemSendPacket E d2 MUX_PROTO_SETUP [] [7] tr2 = Some (EUSTOR_OK, dev', tr')"
      using rest by simp
    have "length (mx_interBuf d2) = IOS_INTERBUF_SIZE" by (simp add: d2_def buf)
    from intermem_delivers [OF s3 this] obtain hb' b' i' j' where
      w3: "delivers (mx_usbIOS dev) (hb' @ [] @ [7]) tr2 EUSTOR_OK tr'"
      and d3: "dev' = d2\<lparr>mx_irx_seq := i', mx_itx_seq := j', mx_interBuf := b'\<rparr>" "length b' = IOS_INTERBUF_SIZE"
      by (auto simp: d2_def)
    have "wrote ?h ?ep tr tr' ([] @ hb' @ [] @ [7])"
      using wrote_trans [OF w2 delivers_ok [OF w3]] .
    then show ?thesis using v d3 buf by (auto simp: d2_def same_conn_def)
  next
    case False
    then have "dev' = d2" "tr' = tr2" using rest by auto
    then show ?thesis using w2 v by (auto simp: d2_def same_conn_def)
  qed
qed

lemma fresh_conn_fields [simp]:
  "mx_usbIOS (fresh_conn s p dev) = mx_usbIOS dev" "mx_interBuf (fresh_conn s p dev) = mx_interBuf dev"
  "mx_tx_seq (fresh_conn s p dev) = 0" "mx_tx_ack (fresh_conn s p dev) = 0"
  "mx_sport (fresh_conn s p dev) = s" "mx_dport (fresh_conn s p dev) = p"
  by (simp_all add: fresh_conn_def reset_seqs_def)

lemma version_ok:
  assumes run: "itunes_getIOSProVersion E tcport iosPort dev tr = Some (EUSTOR_OK, tcport', dev', tr')"
    and buf: "length (mx_interBuf dev) = IOS_INTERBUF_SIZE"
  shows "mx_version dev' \<in> {1, 2} \<and> mx_usbIOS dev' = mx_usbIOS dev \<and>
    length (mx_interBuf dev') = IOS_INTERBUF_SIZE \<and>
    (if mx_version dev \<in> {1, 2} then dev' = dev \<and> tr' = tr
     else mx_tx_seq dev' = 0 \<and> mx_tx_ack dev' = 0 \<and> mx_sport dev' = fst (find_sport tcport) \<and>
       mx_dport dev' = iosPort \<and>
       (\<exists>bs. wrote (ui_osPriv (mx_usbIOS dev)) (ui_ep_out (mx_usbIOS dev)) tr tr' bs))"
proof (cases "mx_version dev \<in> {1, 2}")
  case True
  then show ?thesis using run buf by (auto simp: itunes_getIOSProVersion_def)
next
  case False
  let ?rvh = "put32 (htonl 2) @ put32 (htonl 0) @ put32 0"
  define d where "d = fresh_conn (fst (find_sport tcport)) iosPort dev"
  have "do {
          (res, dev, tr) \<leftarrow> itunes_InterMemSendPacket E d MUX_PROTO_VERSION ?rvh [] tr;
          (res, dev, tr) \<leftarrow> (if res \<noteq> EUSTOR_OK then Some (res, dev, tr) else version_reply E dev tr);
          Some (res, snd (find_sport tcport), dev, tr)
        } = Some (EUSTOR_OK, tcport', dev', tr')"
    using run False by (simp add: itunes_getIOSProVersion_def d_def Let_def split_beta)
  then obtain d1 tr1 where
    s1: "itunes_InterMemSendPacket E d MUX_PROTO_VERSION ?rvh [] tr = Some (EUSTOR_OK, d1, tr1)" and
    rest: "version_reply E d1 tr1 = Some (EUSTOR_OK, dev', tr')"
    by (auto simp: bind_eq_Some_conv split: if_splits)
  have "length (mx_interBuf d) = IOS_INTERBUF_SIZE" by (simp add: d_def buf)
  from intermem_delivers [OF s1 this] obtain hb b i j where
    w1: "delivers (mx_usbIOS dev) (hb @ ?rvh @ []) tr EUSTOR_OK tr1"
    and d1: "d1 = d\<lparr>mx_irx_seq := i, mx_itx_seq := j, mx_interBuf := b\<rparr>" "length b = IOS_INTERBUF_SIZE"
    by (auto simp: d_def)
  have "length (mx_interBuf d1) = IOS_INTERBUF_SIZE" by (simp add: d1)
  from version_reply_ok [OF rest this] d1 obtain bs where
    v: "mx_version dev' \<in> {1, 2}" "same_conn (d1\<lparr>mx_version := mx_version dev'\<rparr>) dev'"
      "mx_tx_seq dev' = 0" "mx_tx_ack dev' = 0" and
    w: "wrote (ui_osPriv (mx_usbIOS dev)) (ui_ep_out (mx_usbIOS dev)) tr1 tr' bs"
    by (auto simp: d_def)
  from wrote_trans [OF delivers_ok [OF w1] w] v d1 False show ?thesis
    by (auto simp: same_conn_def d_def)
qed

text \<open>What the handshake put on the wire, for a connection that was at \<open>seq0\<close> and \<open>ack0\<close>.\<close>

definition handshake ::
    "mux_itunes \<Rightarrow> u32 \<Rightarrow> u32 \<Rightarrow> trace \<Rightarrow> trace \<Rightarrow> mux_itunes \<Rightarrow> bool" where
  "handshake dev seq0 ack0 tr tr' dev' = (\<exists>syn ack.
     wrote (ui_osPriv (mx_usbIOS dev)) (ui_ep_out (mx_usbIOS dev)) tr tr'
       (tcp_frame syn TH_SYN [] @ tcp_frame ack TH_ACK []) \<and>
     mx_version syn = mx_version dev' \<and> mx_tx_seq syn = seq0 \<and> mx_tx_ack syn = ack0 \<and>
     mx_version ack = mx_version dev' \<and> mx_tx_seq ack = seq0 + 1 \<and> mx_tx_ack ack = ack0 + 1 \<and>
     mx_tx_seq dev' = seq0 + 1 \<and> mx_tx_ack dev' = ack0 + 1 \<and> mx_rx_recvd dev' = mx_rx_seq dev')"

lemma connect_reply_ok:
  assumes run: "connect_reply E dev cb tr = Some (EUSTOR_OK, dev', tr')"
    and buf: "length (mx_interBuf dev) = IOS_INTERBUF_SIZE"
  shows "\<exists>ack. wrote (ui_osPriv (mx_usbIOS dev)) (ui_ep_out (mx_usbIOS dev)) tr tr' (tcp_frame ack TH_ACK []) \<and>
    mx_version ack = mx_version dev \<and> mx_tx_seq ack = mx_tx_seq dev + 1 \<and> mx_tx_ack ack = mx_tx_ack dev + 1 \<and>
    mx_version dev' = mx_version dev \<and> mx_tx_seq dev' = mx_tx_seq dev + 1 \<and>
    mx_tx_ack dev' = mx_tx_ack dev + 1 \<and> mx_rx_recvd dev' = mx_rx_seq dev' \<and>
    mx_usbIOS dev' = mx_usbIOS dev"
proof -
  define th where "th = dec_tcphdr (drop (mux_header_size (mx_version dev)) cb)"
  define d1 where "d1 = rx_update th dev"
  define d2 where "d2 = d1\<lparr>mx_tx_seq := mx_tx_seq d1 + 1, mx_tx_ack := mx_tx_ack d1 + 1,
     mx_rx_recvd := mx_rx_seq d1\<rparr>"
  obtain m where s: "itunes_SendTCP E d2 TH_ACK [] None None 0 tr = Some (EUSTOR_OK, dev', m, tr')"
    using run
    by (auto simp: connect_reply_def Let_def th_def d1_def d2_def bind_eq_Some_conv split: if_splits)
  have d2: "mx_usbIOS d2 = mx_usbIOS dev" "mx_version d2 = mx_version dev" "mx_interBuf d2 = mx_interBuf dev"
    "mx_tx_seq d2 = mx_tx_seq dev + 1" "mx_tx_ack d2 = mx_tx_ack dev + 1" "mx_rx_recvd d2 = mx_rx_seq d2"
    by (simp_all add: d2_def d1_def rx_update_def)
  have b: "length (mx_interBuf d2) = IOS_INTERBUF_SIZE" using buf d2 by simp
  note p = sendtcp_plain [OF s b]
  obtain b where "dev' = after_send EUSTOR_OK ((bump_itx d2)\<lparr>mx_interBuf := b\<rparr>)" using p(2) by auto
  then have "mx_version dev' = mx_version dev" "mx_tx_seq dev' = mx_tx_seq dev + 1"
    "mx_tx_ack dev' = mx_tx_ack dev + 1" "mx_rx_recvd dev' = mx_rx_seq dev'" "mx_usbIOS dev' = mx_usbIOS dev"
    using d2 by (simp_all add: after_send_def bump_itx_def)
  then show ?thesis using delivers_ok [OF p(1)] d2 by (intro exI [of _ d2]) simp
qed

lemma connect_ok:
  assumes run: "LINUX_ConnectIOSPhone E tcport iosPort dev tr = Some (EUSTOR_OK, tcport', dev', tr')"
    and buf: "length (mx_interBuf dev) = IOS_INTERBUF_SIZE"
  shows "\<exists>tr1. mx_version dev' \<in> {1, 2} \<and> clean tr tr1 \<and>
    (if mx_version dev \<in> {1, 2} then tr1 = tr \<and> handshake dev (mx_tx_seq dev) (mx_tx_ack dev) tr1 tr' dev'
     else handshake dev 0 0 tr1 tr' dev')"
proof -
  let ?wr = "wrote (ui_osPriv (mx_usbIOS dev)) (ui_ep_out (mx_usbIOS dev))"
  obtain t1 d1 tr1 d2 m tr2 where
    ver: "itunes_getIOSProVersion E tcport iosPort dev tr = Some (EUSTOR_OK, t1, d1, tr1)" and
    syn: "itunes_SendTCP E d1 TH_SYN [] None None 0 tr1 = Some (EUSTOR_OK, d2, m, tr2)"
    using run by (auto simp: LINUX_ConnectIOSPhone_def bind_eq_Some_conv split: if_splits)
  note v = version_ok [OF ver buf]
  have b1: "length (mx_interBuf d1) = IOS_INTERBUF_SIZE" using v by simp
  note p = sendtcp_plain [OF syn b1]
  obtain b where b: "length b = IOS_INTERBUF_SIZE"
    "d2 = after_send EUSTOR_OK ((bump_itx d1)\<lparr>mx_interBuf := b\<rparr>)" using p(2) by auto
  have usb: "mx_usbIOS d1 = mx_usbIOS dev" using v by simp
  have d2: "mx_usbIOS d2 = mx_usbIOS dev" "mx_version d2 = mx_version d1" "mx_tx_seq d2 = mx_tx_seq d1"
    "mx_tx_ack d2 = mx_tx_ack d1" "length (mx_interBuf d2) = IOS_INTERBUF_SIZE"
    using b usb by simp_all
  have w1: "?wr tr1 tr2 (tcp_frame d1 TH_SYN [])" using delivers_ok [OF p(1)] usb by simp
  obtain cb tr3 where w2: "?wr tr2 tr3 []" and
    rep: "connect_reply E d2 cb tr3 = Some (EUSTOR_OK, dev', tr')"
  proof -
    obtain r3 data tr3 where
      rcv: "usUsb_BlukPacketReceive E (mx_usbIOS d2) 512 PACKAGE_TIMEOUT tr2 = (r3, data, tr3)"
      by (cases "usUsb_BlukPacketReceive E (mx_usbIOS d2) 512 PACKAGE_TIMEOUT tr2") auto
    obtain r4 data' tr4 where
      rcv': "usUsb_BlukPacketReceive E (mx_usbIOS d2) 512 PACKAGE_TIMEOUT tr3 = (r4, data', tr4)"
      by (cases "usUsb_BlukPacketReceive E (mx_usbIOS d2) 512 PACKAGE_TIMEOUT tr3") auto
    have w: "?wr tr2 tr3 []" "?wr tr2 tr4 []"
      using receive_clean [OF rcv] receive_clean [OF rcv'] wrote_trans by fastforce+
    have "connect_reply E d2 (poke (zeros 512) 0 data) tr3 = Some (EUSTOR_OK, dev', tr') \<or>
      connect_reply E d2 (poke (poke (zeros 512) 0 data) 0 data') tr4 = Some (EUSTOR_OK, dev', tr')"
      using run by (auto simp: LINUX_ConnectIOSPhone_def ver syn rcv rcv' Let_def bind_eq_Some_conv
          split: if_splits)
    then show thesis using that w by blast
  qed
  from connect_reply_ok [OF rep d2(5)] d2 obtain ack where
    w3: "?wr tr3 tr' (tcp_frame ack TH_ACK [])" and
    ack: "mx_version ack = mx_version d1" "mx_tx_seq ack = mx_tx_seq d1 + 1"
    "mx_tx_ack ack = mx_tx_ack d1 + 1" "mx_version dev' = mx_version d1"
    "mx_tx_seq dev' = mx_tx_seq d1 + 1" "mx_tx_ack dev' = mx_tx_ack d1 + 1" "mx_rx_recvd dev' = mx_rx_seq dev'"
    by auto
  have "handshake dev (mx_tx_seq d1) (mx_tx_ack d1) tr1 tr' dev'"
    using wrote_trans [OF wrote_trans [OF w1 w2] w3] ack unfolding handshake_def
    by (intro exI [of _ d1] exI [of _ ack]) simp
  moreover have "clean tr tr1" using v wrote_clean by (auto split: if_splits)
  ultimately show ?thesis using v ack by (intro exI [of _ tr1]) (auto split: if_splits)
qed

section \<open>The invariant of a connection\<close>

text \<open>
  \<open>interBuf\<close> keeps its size, and the peer's window is a whole number of 256-byte blocks: every
  operation of the connection keeps both, whatever the peer sends and however it ends.
\<close>

definition mux_inv :: "mux_itunes \<Rightarrow> bool" where
  "mux_inv dev = (length (mx_interBuf dev) = IOS_INTERBUF_SIZE \<and> unat (mx_rx_win dev) mod 256 = 0)"

lemma mux_inv_updates [simp]:
  "mux_inv (irx_update mh dev) = mux_inv dev" "mux_inv (bump_itx dev) = mux_inv dev"
  "mux_inv (after_send r dev) = mux_inv dev" "mux_inv (dev\<lparr>mx_tx_seq := s\<rparr>) = mux_inv dev"
  "mux_inv (dev\<lparr>mx_tx_ack := s\<rparr>) = mux_inv dev"
  "mux_inv (rx_update th dev) = (length (mx_interBuf dev) = IOS_INTERBUF_SIZE)"
  "mux_inv (reset_seqs dev) = (length (mx_interBuf dev) = IOS_INTERBUF_SIZE)"
  "mux_inv (fresh_conn p q dev) = (length (mx_interBuf dev) = IOS_INTERBUF_SIZE)"
  "mux_inv (dev\<lparr>mx_version := v\<rparr>) = mux_inv dev"
  using window_blocks
  by (simp_all add: mux_inv_def irx_update_def rx_update_def reset_seqs_def fresh_conn_def after_send_def
      bump_itx_def)

lemma mux_inv_buf: "mux_inv dev \<Longrightarrow> length (mx_interBuf dev) = IOS_INTERBUF_SIZE"
  by (simp add: mux_inv_def)

lemma mux_inv_interBuf:
  "mux_inv dev \<Longrightarrow> length b = IOS_INTERBUF_SIZE \<Longrightarrow> mux_inv (dev\<lparr>mx_interBuf := b\<rparr>)"
  by (simp add: mux_inv_def)

abbreviation kept_by :: "mux_itunes \<Rightarrow> mux_itunes \<Rightarrow> bool" where
  "kept_by dev dev' \<equiv> mux_inv dev' \<and> mx_usbIOS dev' = mx_usbIOS dev"

lemma usb_updates [simp]:
  "mx_usbIOS (irx_update mh dev) = mx_usbIOS dev" "mx_usbIOS (bump_itx dev) = mx_usbIOS dev"
  "mx_usbIOS (after_send r dev) = mx_usbIOS dev" "mx_usbIOS (rx_update th dev) = mx_usbIOS dev"
  "mx_usbIOS (reset_seqs dev) = mx_usbIOS dev"
  by (simp_all add: irx_update_def bump_itx_def after_send_def rx_update_def reset_seqs_def)

lemma receive_ack_inv: "itunes_ReceiveAck E dev tr = (r, dev', tr') \<Longrightarrow> mux_inv dev \<Longrightarrow> kept_by dev dev'"
  by (auto simp: itunes_ReceiveAck_def Let_def mux_inv_buf split: prod.splits if_splits)

lemma length_memcpy [simp]: "length (fst (memcpy mem off bs tr)) = length mem"
  by (simp add: memcpy_def length_poke)

lemma sendtcp_header_dev:
  "itunes_SendTCP E dev fl mem (Some at) p len tr = Some (r, dev', mem', tr') \<Longrightarrow> mux_inv dev \<Longrightarrow>
   kept_by dev dev' \<and> length mem' = length mem"
  by (auto simp: itunes_SendTCP_def Let_def case_prod_beta bind_eq_Some_conv split: if_splits dest!: send_tail_delivers(2))

lemma send_loop_inv:
  "itunes_send_loop E dev mem off psize cur win tr = Some y \<Longrightarrow> mux_inv dev \<Longrightarrow>
   kept_by dev (fst (snd y)) \<and> length (fst (snd (snd y))) = length mem"
proof (induct rule: itunes_send_loop.raw_induct [rotated, consumes 1, case_names step])
  case (step loop E dev mem off psize cur win tr y)
  obtain ra dev0 tr0 where
    ra: "(if win = 0 then itunes_ReceiveAck E dev tr else (EUSTOR_OK, dev, tr)) = (ra, dev0, tr0)"
    by (cases "if win = 0 then itunes_ReceiveAck E dev tr else (EUSTOR_OK, dev, tr)") auto
  have inv0: "kept_by dev dev0" using ra step.prems receive_ack_inv by (auto split: if_splits)
  show ?case
  proof (cases "cur < psize \<and> ra = EUSTOR_OK")
    case False
    then show ?thesis using step.hyps(2) step.prems inv0 by (auto simp: ra split: if_splits)
  next
    case True
    define w where "w = (if win = 0 then unat (mx_rx_win dev0) else win)"
    define s where "s = min (if psize - cur \<ge> IOS_MAX_PACKET then IOS_MAX_PACKET else psize - cur) w"
    define t where "t = fault_if (off + cur < head_size dev0) OutOfBounds tr0"
    have "do {
        (res, d, m, t) \<leftarrow> itunes_SendTCP E dev0 TH_ACK mem (Some (off + cur - head_size dev0)) (Some (off + cur)) s t;
        if res \<noteq> EUSTOR_OK then Some (res, d, m, t)
        else loop E (d\<lparr>mx_tx_seq := mx_tx_seq d + of_nat s\<rparr>) m off psize (cur + s) (w - s) t
      } = Some y"
      unfolding s_def w_def t_def using step.hyps(2) True by (simp add: ra Let_def)
    then obtain r1 d1 m1 t1 where
      snd: "itunes_SendTCP E dev0 TH_ACK mem (Some (off + cur - head_size dev0)) (Some (off + cur)) s t =
        Some (r1, d1, m1, t1)" and
      rest: "(if r1 \<noteq> EUSTOR_OK then Some (r1, d1, m1, t1)
        else loop E (d1\<lparr>mx_tx_seq := mx_tx_seq d1 + of_nat s\<rparr>) m1 off psize (cur + s) (w - s) t1) = Some y"
      by (auto simp: bind_eq_Some_conv)
    have "kept_by dev0 d1 \<and> length m1 = length mem" by (rule sendtcp_header_dev [OF snd]) (use inv0 in simp)
    then show ?thesis using rest step.hyps(1) inv0 by (auto split: if_splits)
  qed
qed

lemma send_pro_inv:
  "itunes_SendProPackage E dev mem off n tr = Some (r, dev', mem', tr') \<Longrightarrow> mux_inv dev \<Longrightarrow>
   kept_by dev dev' \<and> length mem' = length mem"
  by (auto simp: itunes_SendProPackage_def split: if_splits dest!: send_loop_inv)

lemma reset_receive_inv:
  "reset_receive_loop E dev tr = Some y \<Longrightarrow> mux_inv dev \<Longrightarrow> kept_by dev (fst y)"
proof (induct rule: reset_receive_loop.raw_induct [rotated, consumes 1, case_names step])
  case (step loop E dev tr y)
  have "loop E d t = Some y \<Longrightarrow> mux_inv d \<Longrightarrow> kept_by d (fst y)" for d t
    using step.hyps(1) by blast
  then show ?case
    using step.hyps(2) step.prems
    by (auto simp: Let_def mux_inv_buf split: if_splits prod.splits)
qed

lemma recv_finish_inv:
  assumes run: "itunes_recv_finish E dev mem off tot tr = Some (r, dev', mem', n, tr')" and inv: "mux_inv dev"
  shows "kept_by dev dev' \<and> length mem' = length mem"
proof -
  define d where "d = rx_update (dec_tcphdr (drop (mux_header_size (mx_version dev)) (mx_interBuf dev))) dev"
  define pl where "pl = (of_nat tot - of_nat (mux_header_size (mx_version dev)) - of_nat tcphdr_size :: u32)"
  have d: "kept_by dev d" using inv by (simp add: d_def mux_inv_buf)
  have "length mem' = length mem"
    using run unfolding itunes_recv_finish_def Let_def
    by (auto simp: bind_eq_Some_conv memcpy_def length_poke split: if_splits)
  moreover consider "dev' = d" | d1 tr1 where "itunes_ResetReceive E d tr = Some (d1, tr1)" "dev' = d1"
    | r1 d1 m1 tr1 where "itunes_SendTCP E d TH_ACK (zeros 512) (Some 0) None 0 tr = Some (r1, d1, m1, tr1)"
      "dev' = d1\<lparr>mx_tx_ack := mx_tx_ack d1 + pl\<rparr>"
    using run unfolding itunes_recv_finish_def Let_def d_def [symmetric] pl_def [symmetric]
    by (auto simp: bind_eq_Some_conv memcpy_def split: if_splits)
  then have "kept_by dev dev'"
    by cases (use d sendtcp_header_dev in
      \<open>auto simp: itunes_ResetReceive_def bind_eq_Some_conv mux_inv_buf dest!: reset_receive_inv\<close>)
  ultimately show ?thesis by simp
qed

lemma recv_pro_inv:
  assumes run: "itunes_RecvProPackage E dev mem off tsize tr = Some (r, dev', mem', n, tr')" and inv: "mux_inv dev"
  shows "kept_by dev dev' \<and> length mem' = length mem"
proof (rule recv_arrived [OF run mux_inv_buf [OF inv], where h = 0 and ep = 0])
  assume "mem' = mem" "same_conn dev dev'" "mx_rx_win dev' = mx_rx_win dev"
  then show ?thesis using inv by (simp add: mux_inv_def same_conn_def)
next
  fix ib mh tot tr2
  assume ib: "length ib = IOS_INTERBUF_SIZE"
    and fin: "itunes_recv_finish E ((irx_update mh dev)\<lparr>mx_interBuf := ib\<rparr>) mem off tot tr2 =
      Some (r, dev', mem', n, tr')"
  show ?thesis
    using recv_finish_inv [OF fin] inv ib by (simp add: mux_inv_interBuf)
qed
text \<open>What a transport promises for a message at \<open>off\<close>, with its header in the first 24 bytes.\<close>

lemma send_pro_contract:
  assumes run: "itunes_SendProPackage E dev mem off n tr = Some (r, dev', mem', tr')"
    and inv: "mux_inv dev" and room: "36 \<le> off" "off + n \<le> length mem"
  shows "mux_inv dev' \<and> same_conn dev dev' \<and> length mem' = length mem \<and>
    peek mem' off 24 = peek mem off 24 \<and>
    (r = EUSTOR_OK \<longrightarrow> (\<exists>bs. wrote (ui_osPriv (mx_usbIOS dev)) (ui_ep_out (mx_usbIOS dev)) tr tr' bs \<and>
      carries (mx_version dev) (mx_tx_seq dev) bs (peek mem off n)) \<and>
      mx_tx_seq dev' = mx_tx_seq dev + of_nat n)"
proof (cases "n = 0")
  case True
  then show ?thesis using run inv by (auto simp: itunes_SendProPackage_def)
next
  case False
  have head: "head_size dev \<le> off"
    using mux_header_size_le(2) [of "mx_version dev"] room(1) by simp
  have loop: "itunes_send_loop E dev mem off n 0 (unat (mx_rx_win dev)) tr = Some (r, dev', mem', tr')"
    using run False by (simp add: itunes_SendProPackage_def)
  show ?thesis
    using send_loop_sends [OF loop _ head room(2)] send_loop_keeps_front [OF loop _ head room(2)]
      send_pro_inv [OF run inv] inv
    by (auto simp: sends_from_def mux_inv_def)
qed

text \<open>The other operations of the connection keep its invariant too.\<close>

lemma intermem_inv:
  assumes "itunes_InterMemSendPacket E dev proto header data tr = Some (r, dev', tr')" "mux_inv dev"
    "proto_hdrlen proto = Some (length header)" "length header + length data + 16 \<le> IOS_INTERBUF_SIZE"
  shows "mux_inv dev' \<and> mx_usbIOS dev' = mx_usbIOS dev"
  using intermem_delivers [OF assms(1) mux_inv_buf [OF assms(2)] assms(3,4)] assms(2)
  by (auto simp: mux_inv_def)

lemma sendtcp_plain_inv:
  assumes "itunes_SendTCP E dev fl mem None None 0 tr = Some (r, dev', mem', tr')" "mux_inv dev"
  shows "mux_inv dev' \<and> mx_usbIOS dev' = mx_usbIOS dev"
  using sendtcp_plain(2) [OF assms(1) mux_inv_buf [OF assms(2)]] assms(2)
  by (auto simp: mux_inv_def after_send_def bump_itx_def)

lemma version_reply_inv:
  assumes "version_reply E dev tr = Some (r, dev', tr')" "mux_inv dev"
  shows "mux_inv dev' \<and> mx_usbIOS dev' = mx_usbIOS dev"
proof -
  have "mux_inv d \<Longrightarrow> itunes_InterMemSendPacket E d MUX_PROTO_SETUP [] [7] t = Some (r, dev', tr') \<Longrightarrow>
      mux_inv dev' \<and> mx_usbIOS dev' = mx_usbIOS d" for d t
    using intermem_inv [of E d MUX_PROTO_SETUP "[]" "[7]" t r dev' tr'] by simp
  from this [of "dev\<lparr>mx_version := v\<rparr>" for v] show ?thesis
    using assms by (auto simp: version_reply_def Let_def split: prod.splits if_splits)
qed

lemma connect_inv:
  assumes run: "LINUX_ConnectIOSPhone E tcport iosPort dev tr = Some (r, tcport', dev', tr')" and inv: "mux_inv dev"
  shows "mux_inv dev' \<and> mx_usbIOS dev' = mx_usbIOS dev"
proof -
  obtain r1 t1 d1 tr1 where
    ver: "itunes_getIOSProVersion E tcport iosPort dev tr = Some (r1, t1, d1, tr1)"
    using run by (auto simp: LINUX_ConnectIOSPhone_def bind_eq_Some_conv)
  have v: "mux_inv d1 \<and> mx_usbIOS d1 = mx_usbIOS dev"
  proof (cases "mx_version dev \<in> {1, 2}")
    case True
    then show ?thesis using ver inv by (auto simp: itunes_getIOSProVersion_def)
  next
    case False
    let ?rvh = "put32 (htonl 2) @ put32 (htonl 0) @ put32 0"
    define d where "d = fresh_conn (fst (find_sport tcport)) iosPort dev"
    have d: "mux_inv d" "mx_usbIOS d = mx_usbIOS dev" using inv by (simp_all add: d_def mux_inv_buf)
    have "do {
            (res, dev, tr) \<leftarrow> itunes_InterMemSendPacket E d MUX_PROTO_VERSION ?rvh [] tr;
            (res, dev, tr) \<leftarrow> (if res \<noteq> EUSTOR_OK then Some (res, dev, tr) else version_reply E dev tr);
            Some (res, snd (find_sport tcport), dev, tr)
          } = Some (r1, t1, d1, tr1)"
      using ver False by (simp add: itunes_getIOSProVersion_def d_def Let_def split_beta)
    then obtain r2 d2 tr2 where
      s: "itunes_InterMemSendPacket E d MUX_PROTO_VERSION ?rvh [] tr = Some (r2, d2, tr2)" and
      rest: "(if r2 \<noteq> EUSTOR_OK then Some (r2, d2, tr2) else version_reply E d2 tr2) = Some (r1, d1, tr1)"
      by (auto simp: bind_eq_Some_conv)
    have "mux_inv d2 \<and> mx_usbIOS d2 = mx_usbIOS dev"
      using intermem_inv [OF s d(1)] d(2) by simp
    then show ?thesis using rest version_reply_inv [of E d2 tr2 r1 d1 tr1] by (auto split: if_splits)
  qed
  have reply: "mux_inv d' \<and> mx_usbIOS d' = mx_usbIOS d"
    if "connect_reply E d cb t = Some (q, d', t')" "mux_inv d" for d cb t q d' t'
    using that sendtcp_plain_inv
    by (fastforce simp: connect_reply_def Let_def bind_eq_Some_conv mux_inv_def rx_update_def reset_seqs_def
        window_blocks split: if_splits)
  show ?thesis
  proof (cases "r1 = EUSTOR_OK")
    case False
    then show ?thesis using run ver v by (auto simp: LINUX_ConnectIOSPhone_def)
  next
    case True
    obtain r2 d2 m tr2 where
      syn: "itunes_SendTCP E d1 TH_SYN [] None None 0 tr1 = Some (r2, d2, m, tr2)"
      using run ver True by (auto simp: LINUX_ConnectIOSPhone_def bind_eq_Some_conv)
    have "mux_inv d2 \<and> mx_usbIOS d2 = mx_usbIOS dev" using sendtcp_plain_inv [OF syn] v by simp
    then show ?thesis
      using run ver True syn reply [of d2]
      by (auto simp: LINUX_ConnectIOSPhone_def Let_def bind_eq_Some_conv split: if_splits prod.splits)
  qed
qed

end
