(* ===== verification/Ustor_Phone.thy ===== *)
theory Ustor_Phone
  imports Ustor_Mux "HOL-Library.Multiset"
begin

text \<open>
  The rest of usProtocol.c: the Android (AOA) transport, switching a device to accessory mode,
  detecting and releasing a phone, and the entry points that choose the transport.
\<close>

section \<open>State\<close>

record accessory_t =
  ac_manufacturer :: bytes
  ac_model :: bytes
  ac_description :: bytes
  ac_version :: bytes
  ac_url :: bytes
  ac_serial :: bytes

record usConfig =
  aoaConf :: accessory_t
  iosPort :: u16

definition globalConf0 :: usConfig where
  "globalConf0 = \<lparr>aoaConf = \<lparr>ac_manufacturer = str ''i4season'', ac_model = str ''U-Storage'',
     ac_description = str ''U-Storage'', ac_version = str ''1.0'',
     ac_url = str ''https://www.simicloud.com/download/index.html'',
     ac_serial = str ''0000000012345678''\<rparr>, iosPort = 5555\<rparr>"

abbreviation PRO_IOS :: u8 where "PRO_IOS \<equiv> 1"
abbreviation PRO_ANDROID :: u8 where "PRO_ANDROID \<equiv> 2"

text \<open>The union \<open>phoneInfo\<close> is two fields, of which \<open>phoneType\<close> selects the one in use.\<close>

record usPhoneinfo =
  phoneType :: u8
  phoneIOS :: mux_itunes
  phoneAndroid :: usbInfo

definition mux_itunes0 :: mux_itunes where
  "mux_itunes0 = \<lparr>mx_version = 0, mx_irx_seq = 0, mx_itx_seq = 0, mx_sport = 0, mx_dport = 0,
     mx_tx_seq = 0, mx_tx_ack = 0, mx_tx_acked = 0, mx_tx_win = 0, mx_rx_seq = 0, mx_rx_recvd = 0,
     mx_rx_ack = 0, mx_rx_win = 0, mx_flags = 0, mx_usbIOS = usbInfo0,
     mx_interBuf = zeros IOS_INTERBUF_SIZE\<rparr>"

definition usPhoneinfo0 :: usPhoneinfo where
  "usPhoneinfo0 = \<lparr>phoneType = 0, phoneIOS = mux_itunes0, phoneAndroid = usbInfo0\<rparr>"

section \<open>The Android transport\<close>

text \<open>
  A packet whose rest is a multiple of 512 bytes is cut one byte short, so that no transfer
  needs a zero-length packet. \<open>usUsb_BlukPacketSend\<close> reports the whole length it was given.
\<close>

partial_function (option) aoa_send_loop ::
    "os \<Rightarrow> usbInfo \<Rightarrow> bytes \<Rightarrow> nat \<Rightarrow> trace \<Rightarrow> (int \<times> trace) option" where
  "aoa_send_loop E dev data already tr =
     (if already < length data then
        let freeSize = length data - already;
            sndSize = (if freeSize mod 512 = 0 then freeSize - 1 else freeSize)
        in do {
          (rc, tr) \<leftarrow> usUsb_BlukPacketSend E dev (take sndSize (drop already data)) PACKAGE_TIMEOUT_SND tr;
          if rc \<noteq> EUSTOR_OK then Some (rc, tr)
          else aoa_send_loop E dev data (already + sndSize) tr
        }
      else Some (EUSTOR_OK, tr))"

declare aoa_send_loop.simps [code]

definition aoa_SendProPackage ::
    "os \<Rightarrow> usbInfo \<Rightarrow> bytes \<Rightarrow> trace \<Rightarrow> (int \<times> trace) option" where
  "aoa_SendProPackage E dev data tr =
     (if data = [] then Some (EUSTOR_ARG, tr) else aoa_send_loop E dev data 0 tr)"

definition aoa_RecvProPackage ::
    "os \<Rightarrow> usbInfo \<Rightarrow> bytes \<Rightarrow> nat \<Rightarrow> nat \<Rightarrow> trace \<Rightarrow> int \<times> bytes \<times> u32 option \<times> trace" where
  "aoa_RecvProPackage E dev mem off tsize tr =
     (let (rc, data, tr) = usUsb_BlukPacketReceive E dev tsize PACKAGE_TIMEOUT tr in
      if rc \<noteq> EUSTOR_OK then (rc, mem, None, tr)
      else let (mem, tr) = memcpy mem off data tr in (EUSTOR_OK, mem, Some (of_nat (length data)), tr))"

section \<open>Switching a device to accessory mode\<close>

abbreviation OCTL_DIS_USB_SW :: int where "OCTL_DIS_USB_SW \<equiv> 1"
abbreviation OCTL_ENABLE_USB_SW :: int where "OCTL_ENABLE_USB_SW \<equiv> 2"

definition USB_POWER_CONFIG :: bytes where "USB_POWER_CONFIG = str ''/dev/vs_control''"

definition LINUX_USBPowerControl :: "os \<Rightarrow> int \<Rightarrow> trace \<Rightarrow> int \<times> trace" where
  "LINUX_USBPowerControl E v tr =
     (let (r, tr) = ret_call E (File (Access USB_POWER_CONFIG)) tr in
      if r \<noteq> 0 then (EUSTOR_OK, tr)
      else
        let (a, tr) = do_call E (File (Open USB_POWER_CONFIG (O_RDWR + O_NONBLOCK))) tr;
            (fd, tr) = (if a_ret a < 0 \<and> a_errno a = EROFS
              then ret_call E (File (Open USB_POWER_CONFIG (O_RDONLY + O_NONBLOCK))) tr
              else (a_ret a, tr))
        in if fd < 0 then (EUSTOR_DISK_OPEN, tr)
           else
             let tr = just_call E (File (Ioctl fd v)) tr;
                 tr = just_call E (File (CloseFd fd)) tr
             in (EUSTOR_OK, tr))"

abbreviation AOA_GET_PROTOCOL :: u8 where "AOA_GET_PROTOCOL \<equiv> 51"
abbreviation AOA_SEND_IDENT :: u8 where "AOA_SEND_IDENT \<equiv> 52"
abbreviation AOA_START_ACCESSORY :: u8 where "AOA_START_ACCESSORY \<equiv> 53"
abbreviation VENDOR_IN :: u8 where "VENDOR_IN \<equiv> 0xC0"
abbreviation VENDOR_OUT :: u8 where "VENDOR_OUT \<equiv> 0x40"

text \<open>The identification strings in the order they are sent, with their ids.\<close>

definition idents :: "accessory_t \<Rightarrow> (u16 \<times> bytes) list" where
  "idents c = [(0, ac_manufacturer c), (1, ac_model c), (2, ac_description c), (3, ac_version c),
     (4, ac_url c), (5, ac_serial c)]"

fun send_idents :: "os \<Rightarrow> ptr \<Rightarrow> (u16 \<times> bytes) list \<Rightarrow> trace \<Rightarrow> bool \<times> trace" where
  "send_idents E h [] tr = (True, tr)"
| "send_idents E h ((i, s) # ids) tr =
     (let (r, tr) = ret_call E (Usb (ControlOut h VENDOR_OUT AOA_SEND_IDENT 0 i (cstr s @ [0]))) tr in
      if r < 0 then (False, tr) else send_idents E h ids tr)"

text \<open>
  The loop over the interfaces acts on the first one that is a candidate: it asks for the AOA
  version (only logged), sends the strings and starts accessory mode.
\<close>

definition aoa_candidate :: "intf_desc list \<Rightarrow> bool" where
  "aoa_candidate intfs = (\<exists>i \<in> set intfs. length intfs \<le> 1 \<or> bInterfaceClass i = 255)"

definition aoa_switch ::
    "os \<Rightarrow> ptr \<Rightarrow> accessory_t \<Rightarrow> intf_desc list \<Rightarrow> trace \<Rightarrow> int \<times> trace" where
  "aoa_switch E h conf intfs tr =
     (if aoa_candidate intfs then
        let (_, tr) = LINUX_USBPowerControl E OCTL_DIS_USB_SW tr;
            (r, tr) = ret_call E (Usb (ControlIn h VENDOR_IN AOA_GET_PROTOCOL 0 0 2)) tr
        in if r < 0 then (EUSTOR_USB_CONTROL, tr)
           else
             let (ok, tr) = send_idents E h (idents conf) tr in
             if \<not> ok then (EUSTOR_PRO_SETAOA, tr)
             else
               let (r, tr) = ret_call E (Usb (ControlOut h VENDOR_OUT AOA_START_ACCESSORY 0 0 [])) tr in
               (if r < 0 then EUSTOR_PRO_SETAOA else EUSTOR_OK, tr)
      else (EUSTOR_PRO_NOAOA, tr))"

definition LINUX_SwitchAOAMode :: "os \<Rightarrow> ptr \<Rightarrow> accessory_t \<Rightarrow> trace \<Rightarrow> int \<times> trace" where
  "LINUX_SwitchAOAMode E dev conf tr =
     (let (a, tr) = do_call E (Usb (OpenDevice dev)) tr in
      if a_ret a \<noteq> 0 then (EUSTOR_USB_CONTROL, tr)
      else
        let h = a_num a; (a, tr) = do_call E (Usb (GetActiveConfig dev)) tr in
        if a_ret a \<noteq> 0 then (EUSTOR_USB_CONTROL, just_call E (Usb (CloseDevice h)) tr)
        else
          let (res, tr) = aoa_switch E h conf (a_intfs a) tr;
              tr = just_call E (Usb FreeConfig) tr;
              tr = just_call E (Usb (CloseDevice h)) tr
          in (res, tr))"

section \<open>Detecting and releasing a phone\<close>

definition usProtocol_PhoneRelease :: "os \<Rightarrow> usPhoneinfo \<Rightarrow> trace \<Rightarrow> usPhoneinfo \<times> trace" where
  "usProtocol_PhoneRelease E phone tr =
     (if phoneType phone = PRO_ANDROID \<or> phoneType phone = PRO_IOS then
        let d = (if phoneType phone = PRO_ANDROID then phoneAndroid phone else mx_usbIOS (phoneIOS phone));
            tr = just_call E (Usb (ReleaseInterface (ui_osPriv d) (ui_interface d))) tr;
            tr = just_call E (Usb (CloseDevice (ui_osPriv d))) tr
        in (usPhoneinfo0, tr)
      else (usPhoneinfo0, tr))"

text \<open>Which phone a device is, from its vendor and product id.\<close>

definition phone_type :: "dev_desc \<Rightarrow> u8 option" where
  "phone_type desc =
     (if idVendor desc = 0x5ac \<and> 0x1290 \<le> idProduct desc \<and> idProduct desc \<le> 0x12af then Some PRO_IOS
      else if idVendor desc = 0x18D1 \<and> 0x2D00 \<le> idProduct desc \<and> idProduct desc \<le> 0x2D05
      then Some PRO_ANDROID else None)"

definition endpoint :: "intf_desc \<Rightarrow> nat \<Rightarrow> u8" where
  "endpoint i n = (if n < length (endpoints i) then endpoints i ! n else 0)"

definition is_out :: "u8 \<Rightarrow> bool" where "is_out e = (e AND 0x80 = 0)"

text \<open>The first interface that fits, with its number and its OUT and IN endpoints.\<close>

fun find_intf :: "u8 \<Rightarrow> intf_desc list \<Rightarrow> (u8 \<times> u8 \<times> u8) option" where
  "find_intf pt [] = None"
| "find_intf pt (i # is) =
     (if pt = PRO_IOS \<and>
         (bInterfaceClass i \<noteq> 0xff \<or> bInterfaceSubClass i \<noteq> 0xfe \<or> bInterfaceProtocol i \<noteq> 2)
      then find_intf pt is
      else if pt = PRO_ANDROID \<and> bInterfaceClass i \<noteq> 255 then find_intf pt is
      else if bNumEndpoints i \<noteq> 2 then find_intf pt is
      else if is_out (endpoint i 0) \<and> \<not> is_out (endpoint i 1)
      then Some (bInterfaceNumber i, endpoint i 0, endpoint i 1)
      else if is_out (endpoint i 1) \<and> \<not> is_out (endpoint i 0)
      then Some (bInterfaceNumber i, endpoint i 1, endpoint i 0)
      else find_intf pt is)"

fun detach_drivers :: "os \<Rightarrow> ptr \<Rightarrow> intf_desc list \<Rightarrow> trace \<Rightarrow> trace" where
  "detach_drivers E h [] tr = tr"
| "detach_drivers E h (i # is) tr =
     (let (res, tr) = ret_call E (Usb (KernelDriverActive h (bInterfaceNumber i))) tr;
          tr = (if res = 1 then just_call E (Usb (DetachKernelDriver h (bInterfaceNumber i))) tr else tr)
      in detach_drivers E h is tr)"

text \<open>Bringing the device into its last configuration; \<open>False\<close> when that failed.\<close>

definition set_config :: "os \<Rightarrow> ptr \<Rightarrow> ptr \<Rightarrow> nat \<Rightarrow> nat \<Rightarrow> trace \<Rightarrow> bool \<times> trace" where
  "set_config E dev h current wanted tr =
     (if current \<noteq> wanted then
        let (a, tr) = do_call E (Usb (GetActiveConfig dev)) tr;
            tr = (if a_ret a \<noteq> 0 then tr
                  else just_call E (Usb FreeConfig) (detach_drivers E h (a_intfs a) tr));
            (res, tr) = ret_call E (Usb (SetConfiguration h (int wanted))) tr
        in (res = 0, tr)
      else (True, tr))"

text \<open>
  One device of the list, after it was opened as \<open>h\<close>: the configuration, the interface, the claim.
  \<open>None\<close> is every \<open>continue\<close> of this part; the caller closes the handle then.
\<close>

definition claim_phone ::
    "os \<Rightarrow> u8 \<Rightarrow> dev_desc \<Rightarrow> ptr \<Rightarrow> ptr \<Rightarrow> trace \<Rightarrow> (u8 \<times> u8 \<times> u8) option \<times> trace" where
  "claim_phone E pt desc dev h tr =
     (let (a, tr) = do_call E (Usb (GetConfiguration h)) tr in
      if a_ret a \<noteq> 0 then (None, tr)
      else
        let (ok, tr) = set_config E dev h (a_num a) (unat (bNumConfigurations desc)) tr in
        if \<not> ok then (None, tr)
        else
          let (a, tr) = do_call E (Usb (GetActiveConfig dev)) tr in
          if a_ret a \<noteq> 0 then (None, tr)
          else
            let found = find_intf pt (a_intfs a); tr = just_call E (Usb FreeConfig) tr in
            case found of None \<Rightarrow> (None, tr)
            | Some (intf, ep_out, ep_in) \<Rightarrow>
                let (res, tr) = ret_call E (Usb (ClaimInterface h intf)) tr in
                (if res \<noteq> 0 then None else found, tr))"

definition try_device ::
    "os \<Rightarrow> usConfig \<Rightarrow> ptr \<Rightarrow> trace \<Rightarrow> (u8 \<times> usbInfo) option \<times> trace" where
  "try_device E conf dev tr =
     (let (b, tr) = do_call E (Usb (GetBus dev)) tr;
          (ad, tr) = do_call E (Usb (GetAddress dev)) tr;
          (a, tr) = do_call E (Usb (GetDeviceDescriptor dev)) tr in
      if a_ret a \<noteq> 0 then (None, tr)
      else case phone_type (a_desc a) of
        None \<Rightarrow> (None, snd (LINUX_SwitchAOAMode E dev (aoaConf conf) tr))
      | Some pt \<Rightarrow>
        let desc = a_desc a; (a, tr) = do_call E (Usb (OpenDevice dev)) tr in
        if a_ret a \<noteq> 0 then (None, tr)
        else
          let h = a_num a; (claimed, tr) = claim_phone E pt desc dev h tr in
          case claimed of
            None \<Rightarrow> (None, just_call E (Usb (CloseDevice h)) tr)
          | Some (intf, ep_out, ep_in) \<Rightarrow>
            let (m, tr) = ret_call E (Usb (GetMaxPacketSize dev ep_out)) tr in
            (Some (pt, \<lparr>ui_bus = of_nat (a_num b), ui_address = of_nat (a_num ad), ui_vid = idVendor desc,
               ui_pid = idProduct desc, ui_interface = intf, ui_ep_in = ep_in, ui_ep_out = ep_out,
               ui_wMaxPacketSize = (if m \<le> 0 then 64 else m), ui_osPriv = h\<rparr>), tr))"

fun try_devices ::
    "os \<Rightarrow> usConfig \<Rightarrow> ptr list \<Rightarrow> trace \<Rightarrow> (u8 \<times> usbInfo) option \<times> trace" where
  "try_devices E conf [] tr = (None, tr)"
| "try_devices E conf (dev # devs) tr =
     (let (r, tr) = try_device E conf dev tr in
      case r of None \<Rightarrow> try_devices E conf devs tr | Some p \<Rightarrow> (Some p, tr))"

definition usProtocol_PhoneDetect ::
    "os \<Rightarrow> usConfig \<Rightarrow> usPhoneinfo \<Rightarrow> trace \<Rightarrow> int \<times> usPhoneinfo \<times> trace" where
  "usProtocol_PhoneDetect E conf phone tr =
     (let (phone, tr) = usProtocol_PhoneRelease E phone tr;
          (a, tr) = do_call E (Usb GetDeviceList) tr in
      if a_ret a < 0 then (EUSTOR_PRO_LIST, usPhoneinfo0, tr)
      else
        let (r, tr) = try_devices E conf (take (nat (a_ret a)) (a_list a)) tr in
        case r of
          None \<Rightarrow> (EUSTOR_PRO_NODEVICE, usPhoneinfo0, just_call E (Usb FreeDeviceList) tr)
        | Some (pt, d) \<Rightarrow>
          let phone = usPhoneinfo0\<lparr>phoneType := pt\<rparr>;
              (phone, tr) =
                (if pt = PRO_ANDROID
                 then (phone\<lparr>phoneAndroid := d\<rparr>, snd (LINUX_USBPowerControl E OCTL_ENABLE_USB_SW tr))
                 else (phone\<lparr>phoneIOS := mux_itunes0\<lparr>mx_usbIOS := d\<rparr>\<rparr>, tr))
          in (EUSTOR_OK, phone, just_call E (Usb FreeDeviceList) tr))"

section \<open>The entry points\<close>

definition usProtocol_init :: "usConfig option \<Rightarrow> usConfig \<Rightarrow> int \<times> usConfig" where
  "usProtocol_init conf globalConf = (EUSTOR_OK, case conf of None \<Rightarrow> globalConf | Some c \<Rightarrow> c)"

definition usProtocol_ConnectPhone ::
    "os \<Rightarrow> usConfig \<Rightarrow> u16 \<Rightarrow> usPhoneinfo \<Rightarrow> trace \<Rightarrow> (int \<times> u16 \<times> usPhoneinfo \<times> trace) option" where
  "usProtocol_ConnectPhone E conf tcport phone tr =
     (if phoneType phone = PRO_ANDROID then Some (EUSTOR_OK, tcport, phone, tr)
      else do {
        (res, tcport, dev, tr) \<leftarrow> LINUX_ConnectIOSPhone E tcport (iosPort conf) (phoneIOS phone) tr;
        Some (res, tcport, phone\<lparr>phoneIOS := dev\<rparr>, tr)
      })"

text \<open>\<open>buffer\<close> is the place \<open>off\<close> in the object \<open>mem\<close>, which the iPhone transport may write to.\<close>

definition usProtocol_SendPackage ::
    "os \<Rightarrow> usPhoneinfo \<Rightarrow> bytes \<Rightarrow> nat \<Rightarrow> nat \<Rightarrow> trace \<Rightarrow> (int \<times> usPhoneinfo \<times> bytes \<times> trace) option" where
  "usProtocol_SendPackage E phone mem off n tr =
     (if phoneType phone = PRO_IOS then do {
        (res, dev, mem, tr) \<leftarrow> itunes_SendProPackage E (phoneIOS phone) mem off n tr;
        Some (res, phone\<lparr>phoneIOS := dev\<rparr>, mem, tr)
      }
      else if phoneType phone = PRO_ANDROID then do {
        (res, tr) \<leftarrow> aoa_SendProPackage E (phoneAndroid phone) (peek mem off n)
          (fault_if (length mem < off + n) OutOfBounds tr);
        Some (res, phone, mem, tr)
      }
      else Some (EUSTOR_ARG, phone, mem, tr))"

definition usProtocol_RecvPackage ::
    "os \<Rightarrow> usPhoneinfo \<Rightarrow> bytes \<Rightarrow> nat \<Rightarrow> nat \<Rightarrow> trace \<Rightarrow>
     (int \<times> usPhoneinfo \<times> bytes \<times> u32 option \<times> trace) option" where
  "usProtocol_RecvPackage E phone mem off tsize tr =
     (if phoneType phone = PRO_IOS then do {
        (res, dev, mem, rsize, tr) \<leftarrow> itunes_RecvProPackage E (phoneIOS phone) mem off tsize tr;
        Some (res, phone\<lparr>phoneIOS := dev\<rparr>, mem, rsize, tr)
      }
      else if phoneType phone = PRO_ANDROID then
        let (res, mem, rsize, tr) = aoa_RecvProPackage E (phoneAndroid phone) mem off tsize tr
        in Some (res, phone, mem, rsize, tr)
      else Some (EUSTOR_ARG, phone, mem, None, tr))"

section \<open>Sending on either transport\<close>

lemma delivers_append:
  assumes "delivers d (take k data) tr EUSTOR_OK tr1" "delivers d (drop k data) tr1 r tr2"
  shows "delivers d data tr r tr2"
proof -
  let ?h = "ui_osPriv d" and ?ep = "ui_ep_out d"
  obtain n where n: "n \<le> length (drop k data)" "wrote ?h ?ep tr1 tr2 (take n (drop k data))"
    "r = EUSTOR_OK \<longrightarrow> n = length (drop k data)"
    using assms(2) by (auto simp: delivers_def)
  have "wrote ?h ?ep tr tr2 (take k data @ take n (drop k data))"
    using wrote_trans [OF delivers_ok [OF assms(1)] n(2)] .
  also have "take k data @ take n (drop k data) = take (min (k + n) (length data)) data"
    using n(1) by (cases "k \<le> length data") (simp_all add: take_add min_def)
  finally have "wrote ?h ?ep tr tr2 (take (min (k + n) (length data)) data)" .
  moreover have "r = EUSTOR_OK \<longrightarrow> min (k + n) (length data) = length data" using n(3) by auto
  ultimately show ?thesis
    using assms by (auto simp: delivers_def intro!: exI [of _ "min (k + n) (length data)"])
qed

lemma delivers_take:
  assumes "delivers d (take k data) tr r tr'" "r \<noteq> EUSTOR_OK"
  shows "delivers d data tr r tr'"
proof -
  obtain n where "n \<le> length (take k data)" "wrote (ui_osPriv d) (ui_ep_out d) tr tr' (take n (take k data))"
    "\<forall>h ep. got h ep tr' = got h ep tr"
    using assms(1) unfolding delivers_def by blast
  then show ?thesis using assms(2) unfolding delivers_def by (intro conjI exI [of _ n]) auto
qed

lemma aoa_loop_delivers:
  "aoa_send_loop E d data already tr = Some y \<Longrightarrow>
   delivers d (drop already data) tr (fst y) (snd y) \<and> fst y \<noteq> EUSTOR_PRO_REFUSE"
proof (induct rule: aoa_send_loop.raw_induct [rotated, consumes 1, case_names step])
  case (step loop E d data already tr y)
  show ?case
  proof (cases "already < length data")
    case False
    then show ?thesis using step.hyps(2) by (auto simp: )
  next
    case True
    define k where "k = (if (length data - already) mod 512 = 0 then length data - already - 1
      else length data - already)"
    have "do {
        (rc, tr) \<leftarrow> usUsb_BlukPacketSend E d (take k (drop already data)) PACKAGE_TIMEOUT_SND tr;
        if rc \<noteq> EUSTOR_OK then Some (rc, tr) else loop E d data (already + k) tr} = Some y"
      unfolding k_def using step.hyps(2) True by (simp add: Let_def)
    then obtain rc tr1 where
      snd: "usUsb_BlukPacketSend E d (take k (drop already data)) PACKAGE_TIMEOUT_SND tr = Some (rc, tr1)" and
      rest: "(if rc \<noteq> EUSTOR_OK then Some (rc, tr1) else loop E d data (already + k) tr1) = Some y"
      by (auto simp: bind_eq_Some_conv)
    note p = send_delivers [OF snd] send_not_refused [OF snd]
    show ?thesis
    proof (cases "rc = EUSTOR_OK")
      case ok: True
      then have "delivers d (drop (already + k) data) tr1 (fst y) (snd y) \<and> fst y \<noteq> EUSTOR_PRO_REFUSE"
        using rest step.hyps(1) by simp
      then show ?thesis
        using delivers_append [of d k "drop already data" tr tr1] p(1) ok by (simp add: add.commute)
    next
      case False
      then have "delivers d (drop already data) tr rc tr1"
        using delivers_take [OF p(1)] by simp
      then show ?thesis using False rest p(2) by auto
    qed
  qed
qed

lemma aoa_send_delivers:
  "aoa_SendProPackage E d data tr = Some (r, tr') \<Longrightarrow> delivers d data tr r tr' \<and> r \<noteq> EUSTOR_PRO_REFUSE"
  using aoa_loop_delivers [of E d data 0 tr "(r, tr')"]
  by (auto simp: aoa_SendProPackage_def delivers_def split: if_splits)

lemma aoa_loop_total:
  "bulk_progress E \<Longrightarrow> \<exists>y. aoa_send_loop E d data already tr = Some y"
proof (induct "length data - already" arbitrary: already tr rule: less_induct)
  case less
  show ?case
  proof (cases "already < length data")
    case False
    then show ?thesis by (subst aoa_send_loop.simps) simp
  next
    case True
    define k where "k = (if (length data - already) mod 512 = 0 then length data - already - 1
      else length data - already)"
    obtain rc tr1 where
      snd: "usUsb_BlukPacketSend E d (take k (drop already data)) PACKAGE_TIMEOUT_SND tr = Some (rc, tr1)"
      using send_total [OF less.prems] by blast
    have "0 < k" using True by (auto simp: k_def dest!: dvd_imp_le)
    then have "\<exists>y. aoa_send_loop E d data (already + k) t = Some y" for t
      using True by (intro less.hyps less.prems) linarith
    then obtain y where y: "aoa_send_loop E d data (already + k) tr1 = Some y" by blast
    show ?thesis
      using True snd y unfolding k_def by (subst aoa_send_loop.simps) (simp add: Let_def)
  qed
qed

lemma aoa_send_total:
  "bulk_progress E \<Longrightarrow> \<exists>r tr'. aoa_SendProPackage E d data tr = Some (r, tr')"
  using aoa_loop_total [of E d data 0 tr] by (auto simp: aoa_SendProPackage_def)

text \<open>
  The interface the upper layers use to send a message: a message lies at \<open>off\<close> in a buffer with
  36 bytes of room before it; when the send reports success, the message was carried to the
  peer, and in any case its 24-byte header is still in the buffer and the sender is ready.
\<close>

locale transport =
  fixes send :: "'s \<Rightarrow> bytes \<Rightarrow> nat \<Rightarrow> nat \<Rightarrow> trace \<Rightarrow> (int \<times> 's \<times> bytes \<times> trace) option"
    and ready :: "'s \<Rightarrow> bool"
    and carried :: "'s \<Rightarrow> trace \<Rightarrow> trace \<Rightarrow> bytes \<Rightarrow> bool"
  assumes send_law: "send s mem off n tr = Some (r, s', mem', tr') \<Longrightarrow> ready s \<Longrightarrow> 36 \<le> off \<Longrightarrow>
    off + n \<le> length mem \<Longrightarrow>
    ready s' \<and> length mem' = length mem \<and> peek mem' off 24 = peek mem off 24 \<and>
    (r = EUSTOR_OK \<longrightarrow> carried s tr tr' (peek mem off n))"
begin

lemma header_kept:
  assumes "send s mem off n tr = Some (r, s', mem', tr')" "ready s" "36 \<le> off" "off + n \<le> length mem"
  shows "dec_fsOnDev (drop off mem') = dec_fsOnDev (drop off mem)"
  using send_law [OF assms] fs_on_dev.dec_peek [of mem off] fs_on_dev.dec_peek [of mem' off] by simp

lemma length_kept:
  assumes "send s mem off n tr = Some (r, s', mem', tr')" "ready s" "36 \<le> off" "off + n \<le> length mem"
  shows "length mem' = length mem"
  using send_law [OF assms] by simp

lemma ready_kept:
  assumes "send s mem off n tr = Some (r, s', mem', tr')" "ready s" "36 \<le> off" "off + n \<le> length mem"
  shows "ready s'"
  using send_law [OF assms] by simp

lemma response_carried:
  assumes "send s (poke mem off (enc_fsOnDev hdr)) off n tr = Some (EUSTOR_OK, s', mem', tr')"
    "ready s" "36 \<le> off" "24 \<le> n" "off + n \<le> length mem"
  shows "carried s tr tr' (enc_fsOnDev hdr @ peek mem (off + 24) (n - 24))"
proof -
  have l: "length (enc_fsOnDev hdr) = 24" by (simp add: fs_on_dev.length_enc)
  have "length (poke mem off (enc_fsOnDev hdr)) = length mem"
    using assms l by (simp add: length_poke)
  moreover have "peek (poke mem off (enc_fsOnDev hdr)) off (24 + (n - 24)) =
      enc_fsOnDev hdr @ peek mem (off + 24) (n - 24)"
    using peek_poke_over [of off "enc_fsOnDev hdr" "n - 24" mem] assms by (simp add: l)
  ultimately show ?thesis using send_law [OF assms(1)] assms by simp
qed

end

definition aoa_carried :: "usbInfo \<Rightarrow> trace \<Rightarrow> trace \<Rightarrow> bytes \<Rightarrow> bool" where
  "aoa_carried d tr tr' data = wrote (ui_osPriv d) (ui_ep_out d) tr tr' data"

definition itunes_carried :: "mux_itunes \<Rightarrow> trace \<Rightarrow> trace \<Rightarrow> bytes \<Rightarrow> bool" where
  "itunes_carried dev tr tr' data =
     (\<exists>bs. wrote (ui_osPriv (mx_usbIOS dev)) (ui_ep_out (mx_usbIOS dev)) tr tr' bs \<and>
        carries (mx_version dev) (mx_tx_seq dev) bs data)"

definition phone_ready :: "usPhoneinfo \<Rightarrow> bool" where
  "phone_ready p = mux_inv (phoneIOS p)"

definition phone_carried :: "usPhoneinfo \<Rightarrow> trace \<Rightarrow> trace \<Rightarrow> bytes \<Rightarrow> bool" where
  "phone_carried p tr tr' data =
     (if phoneType p = PRO_IOS then itunes_carried (phoneIOS p) tr tr' data
      else aoa_carried (phoneAndroid p) tr tr' data)"

interpretation itunes_tp: transport "itunes_SendProPackage E" mux_inv itunes_carried
  using send_pro_contract by unfold_locales (fastforce simp: itunes_carried_def)

interpretation phone_tp: transport "usProtocol_SendPackage E" phone_ready phone_carried
proof unfold_locales
  fix s mem off n tr r s' mem' tr'
  assume run: "usProtocol_SendPackage E s mem off n tr = Some (r, s', mem', tr')"
    and ready: "phone_ready s" and room: "36 \<le> off" "off + n \<le> length mem"
  show "phone_ready s' \<and> length mem' = length mem \<and> peek mem' off 24 = peek mem off 24 \<and>
    (r = EUSTOR_OK \<longrightarrow> phone_carried s tr tr' (peek mem off n))"
  proof (cases "phoneType s = PRO_IOS")
    case True
    then obtain dev where d: "itunes_SendProPackage E (phoneIOS s) mem off n tr = Some (r, dev, mem', tr')"
      "s' = s\<lparr>phoneIOS := dev\<rparr>"
      using run by (auto simp: usProtocol_SendPackage_def bind_eq_Some_conv)
    show ?thesis
      using itunes_tp.send_law [OF d(1)] ready room True
      by (auto simp: d(2) phone_ready_def phone_carried_def)
  next
    case False
    then show ?thesis
      using run ready room aoa_send_delivers [of E "phoneAndroid s" "peek mem off n" tr r tr']
      by (auto simp: usProtocol_SendPackage_def phone_ready_def phone_carried_def aoa_carried_def
          fault_if_def bind_eq_Some_conv dest!: delivers_ok split: if_splits)
  qed
qed

section \<open>What the phone operations keep\<close>

text \<open>
  The endpoint the program talks to: no operation but detection and release changes it, and each
  leaves the connection in a state the next one can start from.
\<close>

definition phone_usb :: "usPhoneinfo \<Rightarrow> usbInfo" where
  "phone_usb p = (if phoneType p = PRO_ANDROID then phoneAndroid p else mx_usbIOS (phoneIOS p))"

definition phone_kept :: "usPhoneinfo \<Rightarrow> usPhoneinfo \<Rightarrow> bool" where
  "phone_kept p p' = (phone_ready p' \<and> phoneType p' = phoneType p \<and> phone_usb p' = phone_usb p)"

lemma phone_kept_refl [simp]: "phone_kept p p = phone_ready p"
  by (simp add: phone_kept_def)

lemma phone_kept_trans [trans]: "phone_kept p q \<Longrightarrow> phone_kept q r \<Longrightarrow> phone_kept p r"
  by (simp add: phone_kept_def)

lemma phone_kept_ready: "phone_kept p q \<Longrightarrow> phone_ready q"
  by (simp add: phone_kept_def)

lemma phone_kept_ios: "mux_inv d \<Longrightarrow> mx_usbIOS d = mx_usbIOS (phoneIOS p) \<Longrightarrow> phone_kept p (p\<lparr>phoneIOS := d\<rparr>)"
  by (simp add: phone_kept_def phone_ready_def phone_usb_def)

lemma send_kept:
  "usProtocol_SendPackage E p mem off n tr = Some (r, p', mem', tr') \<Longrightarrow> phone_ready p \<Longrightarrow>
   phone_kept p p' \<and> length mem' = length mem"
  by (auto simp: usProtocol_SendPackage_def bind_eq_Some_conv phone_ready_def split: if_splits
      dest!: send_pro_inv intro: phone_kept_ios)

lemma recv_kept:
  "usProtocol_RecvPackage E p mem off n tr = Some (r, p', mem', k, tr') \<Longrightarrow> phone_ready p \<Longrightarrow>
   phone_kept p p' \<and> length mem' = length mem"
  by (auto simp: usProtocol_RecvPackage_def aoa_RecvProPackage_def bind_eq_Some_conv phone_ready_def case_prod_beta Let_def
      split: if_splits dest!: recv_pro_inv intro: phone_kept_ios)

lemma connect_kept:
  "usProtocol_ConnectPhone E conf port p tr = Some (r, port', p', tr') \<Longrightarrow> phone_ready p \<Longrightarrow> phone_kept p p'"
  by (auto simp: usProtocol_ConnectPhone_def bind_eq_Some_conv phone_ready_def split: if_splits
      dest!: connect_inv intro: phone_kept_ios)

section \<open>What is open\<close>

text \<open>
  The libusb resources a trace leaves behind: the open device handles, and how many
  configuration descriptors and device lists were got and not freed.
\<close>

fun ev_handles :: "event \<Rightarrow> ptr multiset \<Rightarrow> ptr multiset" where
  "ev_handles (Did (Usb (OpenDevice d)) a) M = (if a_ret a = 0 then add_mset (a_num a) M else M)"
| "ev_handles (Did (Usb (CloseDevice h)) a) M = M - {#h#}"
| "ev_handles _ M = M"

definition handles :: "trace \<Rightarrow> ptr multiset" where
  "handles tr = fold ev_handles tr {#}"

fun ev_descs :: "event \<Rightarrow> int" where
  "ev_descs (Did (Usb (GetActiveConfig d)) a) = (if a_ret a = 0 then 1 else 0)"
| "ev_descs (Did (Usb FreeConfig) a) = -1"
| "ev_descs (Did (Usb GetDeviceList) a) = (if a_ret a < 0 then 0 else 1)"
| "ev_descs (Did (Usb FreeDeviceList) a) = -1"
| "ev_descs _ = 0"

definition descs :: "trace \<Rightarrow> int" where
  "descs tr = sum_list (map ev_descs tr)"

text \<open>\<open>holds tr M n tr'\<close>: from \<open>tr\<close> to \<open>tr'\<close> the handles \<open>M\<close> were opened and kept, and \<open>n\<close> descriptors.\<close>

definition holds :: "trace \<Rightarrow> ptr multiset \<Rightarrow> int \<Rightarrow> trace \<Rightarrow> bool" where
  "holds tr M n tr' = (handles tr' = handles tr + M \<and> descs tr' = descs tr + n)"

lemma holds_refl [simp]: "holds tr {#} 0 tr"
  by (simp add: holds_def)

lemma holds_event:
  "holds tr M n (tr' @ [e]) \<longleftrightarrow>
     ev_handles e (handles tr') = handles tr + M \<and> descs tr' + ev_descs e = descs tr + n"
  by (simp add: holds_def handles_def descs_def)

lemma fold_neutral: "\<forall>e\<in>set es. ev_handles e = id \<Longrightarrow> fold ev_handles es M = M"
  by (induction es arbitrary: M) simp_all

lemma holds_step [simp]:
  "holds tr M n tr' \<Longrightarrow> \<forall>e\<in>set es. ev_handles e = id \<and> ev_descs e = 0 \<Longrightarrow> holds tr M n (tr' @ es)"
  by (induction es arbitrary: M rule: rev_induct)
    (simp_all add: holds_def handles_def descs_def fold_neutral)

lemma holds_trans: "holds a M m b \<Longrightarrow> holds b N n c \<Longrightarrow> holds a (M + N) (m + n) c"
  by (simp add: holds_def)

lemma neutral_events [simp]:
  "ev_handles (Did (File f) a) = id" "ev_handles (Did (Sys s) a) = id"
  "ev_handles (Did (Usb (GetBus d)) a) = id" "ev_handles (Did (Usb (GetAddress d)) a) = id"
  "ev_handles (Did (Usb (GetDeviceDescriptor d)) a) = id" "ev_handles (Did (Usb (GetConfiguration d)) a) = id"
  "ev_handles (Did (Usb (SetConfiguration d i)) a) = id" "ev_handles (Did (Usb (KernelDriverActive d k)) a) = id"
  "ev_handles (Did (Usb (DetachKernelDriver d k)) a) = id" "ev_handles (Did (Usb (ClaimInterface d k)) a) = id"
  "ev_handles (Did (Usb (ReleaseInterface d k)) a) = id" "ev_handles (Did (Usb (GetMaxPacketSize d k)) a) = id"
  "ev_handles (Did (Usb (ControlIn d rt rq v w n)) a) = id" "ev_handles (Did (Usb (ControlOut d rt rq v w bs)) a) = id"
  "ev_handles (Did (Usb (GetActiveConfig d)) a) = id" "ev_handles (Did (Usb FreeConfig) a) = id"
  "ev_handles (Did (Usb GetDeviceList) a) = id" "ev_handles (Did (Usb FreeDeviceList) a) = id"
  by (simp_all add: fun_eq_iff)

text \<open>The same at the level of calls, so that an operation is followed call by call.\<close>

lemma holds_calls [simp]:
  "holds tr M n t \<Longrightarrow> \<forall>a. ev_handles (Did c a) = id \<and> ev_descs (Did c a) = 0 \<Longrightarrow>
     holds tr M n (snd (ret_call E c t)) \<and> holds tr M n (just_call E c t) \<and> holds tr M n (snd (do_call E c t))"
  by (simp add: call_eqs)

lemma holds_if [simp]:
  "(b \<Longrightarrow> holds tr M n (snd x)) \<Longrightarrow> (\<not> b \<Longrightarrow> holds tr M n (snd y)) \<Longrightarrow> holds tr M n (snd (if b then x else y))"
  by simp

lemma holds_power [simp]: "holds tr M n t \<Longrightarrow> holds tr M n (snd (LINUX_USBPowerControl E v t))"
  by (simp add: LINUX_USBPowerControl_def Let_def split_beta)

lemma holds_idents [simp]: "holds tr M n t \<Longrightarrow> holds tr M n (snd (send_idents E h ids t))"
  by (induction ids arbitrary: t) (auto simp: Let_def split_beta)

lemma holds_detach [simp]: "holds tr M n t \<Longrightarrow> holds tr M n (detach_drivers E h is t)"
  by (induction "is" arbitrary: t) (simp_all add: Let_def split_beta)

lemma holds_aoa [simp]: "holds tr M n t \<Longrightarrow> holds tr M n (snd (aoa_switch E h conf is t))"
  by (simp add: aoa_switch_def Let_def split_beta)

lemma holds_config:
  "holds tr M n t \<Longrightarrow> do_call E (Usb (GetActiveConfig d)) t = (a, t') \<Longrightarrow>
     holds tr M (n + (if a_ret a = 0 then 1 else 0)) t'"
  "holds tr M n t \<Longrightarrow> holds tr M (n - 1) (just_call E (Usb FreeConfig) t)"
  by (auto simp: holds_event call_eqs) (auto simp: holds_def)

lemma holds_open:
  "holds tr M n t \<Longrightarrow> do_call E (Usb (OpenDevice d)) t = (a, t') \<Longrightarrow>
     holds tr (if a_ret a = 0 then add_mset (a_num a) M else M) n t'"
  "holds tr (add_mset h M) n t \<Longrightarrow> holds tr M n (just_call E (Usb (CloseDevice h)) t)"
  by (auto simp: holds_event call_eqs) (auto simp: holds_def)

lemma holds_switch: "holds tr M n t \<Longrightarrow> holds tr M n (snd (LINUX_SwitchAOAMode E dev conf t))"
proof -
  assume o0: "holds tr M n t"
  obtain a t1 where c1: "do_call E (Usb (OpenDevice dev)) t = (a, t1)" by fastforce
  obtain a2 t2 where c2: "do_call E (Usb (GetActiveConfig dev)) t1 = (a2, t2)" by fastforce
  note o1 = holds_open(1) [OF o0 c1]
  note o2 = holds_config(1) [OF o1 c2]
  show ?thesis
    using o1 o2 holds_open(2) holds_config(2)
    by (auto simp: LINUX_SwitchAOAMode_def c1 c2 Let_def split_beta split: if_splits)
       (metis (no_types) add_diff_cancel_right' holds_aoa holds_config(2) holds_open(2))
qed

lemma holds_release:
  assumes "phoneType phone = 0"
  shows "usProtocol_PhoneRelease E phone tr = (usPhoneinfo0, tr)"
  using assms by (simp add: usProtocol_PhoneRelease_def)

lemma holds_set_config: "holds tr M n t \<Longrightarrow> holds tr M n (snd (set_config E dev h c w t))"
proof -
  assume o0: "holds tr M n t"
  obtain a t1 where c1: "do_call E (Usb (GetActiveConfig dev)) t = (a, t1)" by fastforce
  note o1 = holds_config(1) [OF o0 c1]
  have "a_ret a = 0 \<Longrightarrow> holds tr M n (just_call E (Usb FreeConfig) (detach_drivers E h (a_intfs a) t1))"
    using holds_config(2) [OF holds_detach, of tr M "n + 1"] o1 by simp
  then show ?thesis
    using o0 o1 by (auto simp: set_config_def c1 Let_def split_beta)
qed

lemma holds_claim: "holds tr M n t \<Longrightarrow> holds tr M n (snd (claim_phone E pt desc dev h t))"
proof -
  assume o0: "holds tr M n t"
  obtain a t1 where c1: "do_call E (Usb (GetConfiguration h)) t = (a, t1)" by fastforce
  have o1: "holds tr M n t1" using o0 c1 by (auto simp: do_call_eq)
  obtain ok t2 where c2: "set_config E dev h (a_num a) (unat (bNumConfigurations desc)) t1 = (ok, t2)" by fastforce
  have o2: "holds tr M n t2" using holds_set_config [OF o1] c2 by (metis snd_conv)
  obtain a3 t3 where c3: "do_call E (Usb (GetActiveConfig dev)) t2 = (a3, t3)" by fastforce
  note o3 = holds_config(1) [OF o2 c3]
  have "a_ret a3 = 0 \<Longrightarrow> holds tr M n (just_call E (Usb FreeConfig) t3)"
    using holds_config(2) [of tr M "n + 1" t3] o3 by simp
  then show ?thesis
    using o1 o2 o3 by (auto simp: claim_phone_def c1 c2 c3 Let_def split_beta split: option.split)
qed

section \<open>What a detection finds\<close>

text \<open>A usable interface: one endpoint in each direction and a packet size.\<close>

definition usable :: "u8 \<Rightarrow> usbInfo \<Rightarrow> bool" where
  "usable pt d = (pt \<in> {PRO_IOS, PRO_ANDROID} \<and> is_out (ui_ep_out d) \<and> \<not> is_out (ui_ep_in d) \<and>
     0 < ui_wMaxPacketSize d)"

lemma find_intf_Some:
  "find_intf pt ints = Some (k, eo, ei) \<Longrightarrow> is_out eo \<and> \<not> is_out ei \<and>
     (\<exists>i\<in>set ints. bInterfaceNumber i = k \<and> bNumEndpoints i = 2 \<and> bInterfaceClass i = 255 \<or> pt \<notin> {PRO_IOS, PRO_ANDROID})"
  by (induction pt ints rule: find_intf.induct) (auto split: if_splits)

lemma phone_type_range: "phone_type desc = Some pt \<Longrightarrow> pt \<in> {PRO_IOS, PRO_ANDROID}"
  by (auto simp: phone_type_def split: if_splits)

lemma claim_phone_Some:
  "claim_phone E pt desc dev h t = (Some (k, eo, ei), t') \<Longrightarrow> is_out eo \<and> \<not> is_out ei"
  by (auto simp: claim_phone_def Let_def split: prod.splits if_splits option.splits dest: find_intf_Some)

lemma try_device_holds:
  assumes "try_device E conf dev t = (r, t')" "holds tr M n t"
  shows "case r of None \<Rightarrow> holds tr M n t'
    | Some (pt, d) \<Rightarrow> holds tr (add_mset (ui_osPriv d) M) n t' \<and> usable pt d"
proof -
  obtain b t1 where c1: "do_call E (Usb (GetBus dev)) t = (b, t1)" by fastforce
  obtain ad t2 where c2: "do_call E (Usb (GetAddress dev)) t1 = (ad, t2)" by fastforce
  obtain a t3 where c3: "do_call E (Usb (GetDeviceDescriptor dev)) t2 = (a, t3)" by fastforce
  have o3: "holds tr M n t3" using assms(2) c1 c2 c3 by (auto simp: do_call_eq)
  show ?thesis
  proof (cases "a_ret a \<noteq> 0 \<or> phone_type (a_desc a) = None")
    case True
    then show ?thesis
      using assms(1) o3 holds_switch [OF o3] by (auto simp: try_device_def c1 c2 c3 split: if_splits)
  next
    case False
    then obtain pt where pt: "phone_type (a_desc a) = Some pt" by auto
    obtain a4 t4 where c4: "do_call E (Usb (OpenDevice dev)) t3 = (a4, t4)" by fastforce
    note o4 = holds_open(1) [OF o3 c4]
    obtain cl t5 where c5: "claim_phone E pt (a_desc a) dev (a_num a4) t4 = (cl, t5)" by fastforce
    have o5: "holds tr (if a_ret a4 = 0 then add_mset (a_num a4) M else M) n t5"
      using holds_claim [OF o4] c5 by (metis snd_conv)
    have ends: "cl = Some (k, eo, ei) \<Longrightarrow> is_out eo \<and> \<not> is_out ei" for k eo ei
      using claim_phone_Some c5 by blast
    show ?thesis
      using assms(1) False pt o4 o5 holds_open(2) phone_type_range [OF pt] ends
      by (cases cl) (auto simp: try_device_def c1 c2 c3 c4 c5 usable_def Let_def ret_call_eq
          split: if_splits prod.splits)
  qed
qed

lemma try_devices_holds:
  "try_devices E conf devs t = (r, t') \<Longrightarrow> holds tr M n t \<Longrightarrow>
   (case r of None \<Rightarrow> holds tr M n t'
    | Some (pt, d) \<Rightarrow> holds tr (add_mset (ui_osPriv d) M) n t' \<and> usable pt d)"
proof (induction devs arbitrary: t)
  case Nil
  then show ?case by simp
next
  case (Cons dev devs)
  obtain r1 t1 where t1: "try_device E conf dev t = (r1, t1)" by fastforce
  show ?case
    using Cons try_device_holds [OF t1 Cons.prems(2)] by (auto simp: t1 split: option.splits)
qed

lemma detect_result:
  assumes "usProtocol_PhoneDetect E conf phone tr = (r, phone', tr')" "phoneType phone = 0"
  shows "if r = EUSTOR_OK
    then \<exists>d. usable (phoneType phone') d \<and> holds tr {#ui_osPriv d#} 0 tr' \<and>
      phone' = (if phoneType phone' = PRO_ANDROID then usPhoneinfo0\<lparr>phoneType := PRO_ANDROID, phoneAndroid := d\<rparr>
        else usPhoneinfo0\<lparr>phoneType := PRO_IOS, phoneIOS := mux_itunes0\<lparr>mx_usbIOS := d\<rparr>\<rparr>)
    else r \<in> {EUSTOR_PRO_LIST, EUSTOR_PRO_NODEVICE} \<and> phone' = usPhoneinfo0 \<and> holds tr {#} 0 tr'"
proof -
  obtain a t1 where c1: "do_call E (Usb GetDeviceList) tr = (a, t1)" by fastforce
  have o1: "holds tr {#} (if a_ret a < 0 then 0 else 1) t1"
    using c1 by (auto simp: do_call_eq holds_event)
  obtain found t2 where c2: "try_devices E conf (take (nat (a_ret a)) (a_list a)) t1 = (found, t2)" by fastforce
  note o2 = try_devices_holds [OF c2 o1]
  have free: "holds tr M 1 t \<Longrightarrow> holds tr M 0 (just_call E (Usb FreeDeviceList) t)" for M t
    by (auto simp: call_eqs holds_event) (auto simp: holds_def)
  show ?thesis
  proof (cases "a_ret a < 0")
    case True
    then show ?thesis
      using assms(1) o1 by (auto simp: usProtocol_PhoneDetect_def holds_release [OF assms(2)] c1)
  next
    case ok: False
    show ?thesis
    proof (cases found)
      case None
      then show ?thesis
        using assms(1) o2 ok free [of "{#}" t2]
        by (auto simp: usProtocol_PhoneDetect_def holds_release [OF assms(2)] c1 c2)
    next
      case (Some p)
      obtain pt d where p: "p = (pt, d)" by fastforce
      define t3 where "t3 = (if pt = PRO_ANDROID then snd (LINUX_USBPowerControl E OCTL_ENABLE_USB_SW t2) else t2)"
      have u: "usable pt d" "holds tr {#ui_osPriv d#} 1 t3"
        using o2 ok Some p by (simp_all add: t3_def)
      have "tr' = just_call E (Usb FreeDeviceList) t3" "r = EUSTOR_OK"
        "phone' = (if pt = PRO_ANDROID then usPhoneinfo0\<lparr>phoneType := PRO_ANDROID, phoneAndroid := d\<rparr>
          else usPhoneinfo0\<lparr>phoneType := pt, phoneIOS := mux_itunes0\<lparr>mx_usbIOS := d\<rparr>\<rparr>)"
        using assms(1) ok Some p
        by (simp_all add: usProtocol_PhoneDetect_def holds_release [OF assms(2)] c1 c2 t3_def Let_def
            split: if_splits)
      then show ?thesis
        using u free [OF u(2)] by (auto simp: usable_def)
    qed
  qed
qed

end
