(* ===== verification/Ustor_Decode.thy ===== *)
theory Ustor_Decode
  imports Ustor_Firmware Ustor_Phone
begin

text \<open>
  usDecode.c: the handlers of the file operations. A request and its response lie in one buffer:
  \<open>mem\<close> is that buffer, \<open>hp\<close> the offset of the protocol header in it and \<open>pp\<close> that of the
  payload. A handler reads its arguments from the payload, does the operation and leaves the
  response in the same place; the header's \<open>len\<close> tells how long the payload of the response is.
\<close>

section \<open>The header in the buffer\<close>

definition hdr_at :: "bytes \<Rightarrow> nat \<Rightarrow> fsOnDev" where
  "hdr_at mem hp = dec_fsOnDev (drop hp mem)"

definition set_hdr :: "(fsOnDev \<Rightarrow> fsOnDev) \<Rightarrow> bytes \<Rightarrow> nat \<Rightarrow> bytes" where
  "set_hdr f mem hp = poke mem hp (enc_fsOnDev (f (hdr_at mem hp)))"

text \<open>\<open>len = 0\<close> and the general error code.\<close>

definition fail_hdr :: "bytes \<Rightarrow> nat \<Rightarrow> bytes" where
  "fail_hdr = set_hdr (\<lambda>h. h\<lparr>fs_len := 0, fs_relag := USTOR_EERR\<rparr>)"

definition len_hdr :: "u32 \<Rightarrow> bytes \<Rightarrow> nat \<Rightarrow> bytes" where
  "len_hdr n = set_hdr (\<lambda>h. h\<lparr>fs_len := n\<rparr>)"

definition relag_hdr :: "bytes \<Rightarrow> nat \<Rightarrow> bytes" where
  "relag_hdr = set_hdr (\<lambda>h. h\<lparr>fs_relag := USTOR_EERR\<rparr>)"

definition usDecode_BasicMagicHandle :: "headInfo \<Rightarrow> int \<times> headInfo" where
  "usDecode_BasicMagicHandle h =
     (EUSTOR_OK, h\<lparr>hi_promagic := PRO_FSONDEV_MAGIC, hi_version := PRO_FSONDEV_VER1\<rparr>)"

section \<open>Reading and writing\<close>

text \<open>
  \<open>strncpy(abspath, info->abspath, pathlen)\<close> into a zeroed array of 4096: a negative \<open>pathlen\<close> is
  a huge count, one above 4096 runs over the array, and a path of 4096 characters has no NUL;
  after such a fault the model goes on with what fits.
\<close>

definition path_arg :: "bytes \<Rightarrow> nat \<Rightarrow> int \<Rightarrow> trace \<Rightarrow> bytes \<times> trace" where
  "path_arg mem off pathlen tr =
     (let abspath = poke (zeros 4096) 0 (take 4096 (strncpy (drop off mem) (nat pathlen)))
      in (abspath, fault_if (pathlen < 0 \<or> 4096 < pathlen \<or> 0 \<notin> set abspath) OutOfBounds tr))"

definition usDecode_ReadHandle ::
    "os \<Rightarrow> bytes \<Rightarrow> nat \<Rightarrow> nat \<Rightarrow> u32 \<Rightarrow> trace \<Rightarrow> (int \<times> bytes \<times> trace) option" where
  "usDecode_ReadHandle E mem hp pp buffSize tr =
     (if fs_version (hdr_at mem hp) = PRO_FSONDEV_VER1 then
        let info = dec_operation_rw (drop pp mem);
            (abspath, tr) = path_arg mem (pp + 14) (sint (rw_pathlen info)) tr
        in if rw_size info \<le> buffSize then do {
             (r, data, trueRead, tr) \<leftarrow>
                usDisk_diskRead E abspath (sint (rw_offset info)) (sint (rw_size info)) True tr;
             let (mem, tr) = memcpy mem pp data tr
             in Some (EUSTOR_OK,
                  if r = EUSTOR_OK then len_hdr (case trueRead of Some n \<Rightarrow> word_of_int n | None \<Rightarrow> 0) mem hp
                  else fail_hdr mem hp, tr)
           }
           else Some (EUSTOR_OK, fail_hdr mem hp, tr)
      else Some (EUSTOR_OK, fail_hdr mem hp, tr))"

text \<open>The data to write follows the path; its size is not compared with what was received.\<close>

definition usDecode_WriteHandle ::
    "os \<Rightarrow> bytes \<Rightarrow> nat \<Rightarrow> nat \<Rightarrow> u32 \<Rightarrow> trace \<Rightarrow> (int \<times> bytes \<times> trace) option" where
  "usDecode_WriteHandle E mem hp pp payloadSize tr =
     (if fs_version (hdr_at mem hp) = PRO_FSONDEV_VER1 then
        let info = dec_operation_rw (drop pp mem); pathlen = sint (rw_pathlen info);
            (abspath, tr) = path_arg mem (pp + 14) pathlen tr
        in do {
          (r, _, tr) \<leftarrow> usDisk_diskWrite E abspath mem (nat (int pp + 14 + pathlen))
             (sint (rw_offset info)) (sint (rw_size info)) False tr;
          Some (EUSTOR_OK, if r = EUSTOR_OK then len_hdr 0 mem hp else fail_hdr mem hp, tr)
        }
      else Some (EUSTOR_OK, fail_hdr mem hp, tr))"

section \<open>Creating, deleting and moving\<close>

text \<open>A path is used where it lies in the buffer; it needs a NUL before the end of the buffer.\<close>

definition str_at :: "bytes \<Rightarrow> nat \<Rightarrow> trace \<Rightarrow> bytes \<times> trace" where
  "str_at mem off tr = (cstr (drop off mem), fault_if (0 \<notin> set (drop off mem)) OutOfBounds tr)"

definition usDecode_CreateHandle :: "os \<Rightarrow> bytes \<Rightarrow> nat \<Rightarrow> nat \<Rightarrow> trace \<Rightarrow> int \<times> bytes \<times> trace" where
  "usDecode_CreateHandle E mem hp pp tr =
     (if fs_version (hdr_at mem hp) = PRO_FSONDEV_VER1 then
        let info = dec_operation_newdel (drop pp mem); (path, tr) = str_at mem (pp + 9) tr;
            (r, tr) = usDisk_diskCreate E path (nd_isdir info) (nd_actime info) (nd_modtime info) tr;
            mem = (if r \<noteq> EUSTOR_OK then relag_hdr mem hp else mem)
        in (EUSTOR_OK, len_hdr 0 mem hp, tr)
      else (EUSTOR_OK, fail_hdr mem hp, tr))"

text \<open>
  A file is removed with \<open>remove\<close>; when that succeeded, and for a directory, the shell command
  follows, cut at 4094 characters.
\<close>

definition rm_command :: "bytes \<Rightarrow> bytes" where
  "rm_command path = take 4094 (str ''rm -rf '' @ [34] @ path @ [34])"

definition usDecode_DeleteHandle :: "os \<Rightarrow> bytes \<Rightarrow> nat \<Rightarrow> nat \<Rightarrow> trace \<Rightarrow> int \<times> bytes \<times> trace" where
  "usDecode_DeleteHandle E mem hp pp tr =
     (if fs_version (hdr_at mem hp) = PRO_FSONDEV_VER1 then
        let info = dec_operation_newdel (drop pp mem); (path, tr) = str_at mem (pp + 9) tr;
            (r, tr) = (if nd_isdir info = 0 then ret_call E (File (Remove path)) tr else (0, tr));
            (mem, tr) = (if r \<noteq> 0 then (relag_hdr mem hp, tr)
               else (mem, just_call E (Sys (System (rm_command path))) tr))
        in (EUSTOR_OK, len_hdr 0 mem hp, tr)
      else (EUSTOR_OK, fail_hdr mem hp, tr))"

definition usDecode_MoveHandle :: "os \<Rightarrow> bytes \<Rightarrow> nat \<Rightarrow> nat \<Rightarrow> trace \<Rightarrow> int \<times> bytes \<times> trace" where
  "usDecode_MoveHandle E mem hp pp tr =
     (if fs_version (hdr_at mem hp) = PRO_FSONDEV_VER1 then
        let (from', tr) = str_at mem pp tr; (to', tr) = str_at mem (pp + MAX_PATH_SIZE) tr;
            (r, tr) = ret_call E (File (Rename from' to')) tr;
            mem = (if r \<noteq> 0 then relag_hdr mem hp else mem)
        in (EUSTOR_OK, len_hdr 0 mem hp, tr)
      else (EUSTOR_OK, fail_hdr mem hp, tr))"

section \<open>Disks\<close>

text \<open>\<open>*used\<close> is the header's \<open>len\<close>.\<close>

definition disk_answer :: "int \<Rightarrow> int option \<Rightarrow> bytes \<Rightarrow> nat \<Rightarrow> bytes" where
  "disk_answer r used mem hp =
     (let mem = (case used of Some n \<Rightarrow> len_hdr (word_of_int n) mem hp | None \<Rightarrow> mem)
      in if r \<noteq> EUSTOR_OK then len_hdr 0 (relag_hdr mem hp) hp else mem)"

definition usDecode_DiskLunHandle ::
    "os \<Rightarrow> bytes \<Rightarrow> nat \<Rightarrow> nat \<Rightarrow> u32 \<Rightarrow> nofiyStruct \<Rightarrow> trace \<Rightarrow> (int \<times> bytes \<times> nofiyStruct \<times> trace) option" where
  "usDecode_DiskLunHandle E mem hp pp payLen notifyInfo tr =
     (if fs_version (hdr_at mem hp) = PRO_FSONDEV_VER1 then do {
        (r, mem, used, notifyInfo, tr) \<leftarrow> usDisk_diskLun E mem pp (sint payLen) notifyInfo tr;
        Some (EUSTOR_OK, disk_answer r used mem hp, notifyInfo, tr)
      }
      else Some (EUSTOR_OK, fail_hdr mem hp, notifyInfo, tr))"

definition usDecode_DiskInfoHandle ::
    "os \<Rightarrow> bytes \<Rightarrow> nat \<Rightarrow> nat \<Rightarrow> u32 \<Rightarrow> nofiyStruct \<Rightarrow> trace \<Rightarrow> int \<times> bytes \<times> nofiyStruct \<times> trace" where
  "usDecode_DiskInfoHandle E mem hp pp payLen notifyInfo tr =
     (if fs_version (hdr_at mem hp) = PRO_FSONDEV_VER1 then
        let (r, mem, used, notifyInfo, tr) = usDisk_diskInfo E mem pp (sint payLen) notifyInfo tr
        in (EUSTOR_OK, disk_answer r used mem hp, notifyInfo, tr)
      else (EUSTOR_OK, fail_hdr mem hp, notifyInfo, tr))"

section \<open>File information and directory lists\<close>

text \<open>\<open>strcpy\<close> of the name and the other fields; a name of 256 characters or more leaves its field.\<close>

definition put_fileinfo :: "bytes \<Rightarrow> nat \<Rightarrow> bytes \<Rightarrow> u8 \<Rightarrow> file_stat \<Rightarrow> u64 \<Rightarrow> trace \<Rightarrow> bytes \<times> trace" where
  "put_fileinfo mem at filename isdir st fsize tr =
     (let name = after_last 47 (cstr filename);
          tr = fault_if (MAX_FILENAME_SIZE < length (strcpy name)) OutOfBounds tr;
          (mem, tr) = memcpy mem at (strcpy name) tr;
          (mem, tr) = memcpy mem (at + 256) ([isdir] @ put32 (st_atime st) @ put32 (st_mtime st) @ put64 fsize) tr
      in (mem, tr))"

record listCallback =
  lc_buffer :: nat
  lc_size :: u32
  lc_usedsize :: u32
  lc_proHeader :: nat
  lc_phone :: usPhoneinfo
  lc_mem :: bytes

definition set_listhdr :: "(listResponse \<Rightarrow> listResponse) \<Rightarrow> listCallback \<Rightarrow> listCallback" where
  "set_listhdr f s = s\<lparr>lc_mem := poke (lc_mem s) (lc_buffer s)
     (enc_listResponse (f (dec_listResponse (drop (lc_buffer s) (lc_mem s)))))\<rparr>"

text \<open>The part collected so far: \<open>finish\<close>, the payload length, and the packet.\<close>

definition send_list :: "os \<Rightarrow> int \<Rightarrow> listCallback \<Rightarrow> trace \<Rightarrow> (int \<times> listCallback \<times> trace) option" where
  "send_list E flag s tr =
     (let s = set_listhdr (\<lambda>l. l\<lparr>lr_finish := word_of_int flag\<rparr>) s;
          s = s\<lparr>lc_mem := len_hdr (lc_usedsize s) (lc_mem s) (lc_proHeader s)\<rparr>
      in do {
        (res, phone, mem, tr) \<leftarrow> usProtocol_SendPackage E (lc_phone s) (lc_mem s) (lc_proHeader s)
           (unat (lc_usedsize s + of_nat PRO_HDR_SZIE)) tr;
        Some (res, s\<lparr>lc_phone := phone, lc_mem := mem\<rparr>, tr)
      })"

definition list_finish :: "os \<Rightarrow> listCallback \<Rightarrow> trace \<Rightarrow> (int \<times> listCallback \<times> trace) option" where
  "list_finish E s tr =
     send_list E 1 (if lc_usedsize s = 0 then set_listhdr (\<lambda>l. l\<lparr>lr_fileNum := 0\<rparr>) s else s) tr"

text \<open>Storing one entry, once there is room for it.\<close>

definition list_entry :: "bytes \<Rightarrow> file_stat \<Rightarrow> listCallback \<Rightarrow> trace \<Rightarrow> listCallback \<times> trace" where
  "list_entry filename st s tr =
     (let s = (if lc_usedsize s = 0 then (set_listhdr (\<lambda>l. l\<lparr>lr_fileNum := 0\<rparr>) s)\<lparr>lc_usedsize := 5\<rparr> else s);
          (mem, tr) = put_fileinfo (lc_mem s) (lc_buffer s + unat (lc_usedsize s)) filename
             (if st_isdir st then 1 else 0) st (st_size st) tr;
          s = set_listhdr (\<lambda>l. l\<lparr>lr_fileNum := lr_fileNum l + 1\<rparr>) (s\<lparr>lc_mem := mem\<rparr>)
      in (s\<lparr>lc_usedsize := lc_usedsize s + 273\<rparr>, tr))"

text \<open>\<open>stat(NULL)\<close> is the call with a null path; the code makes it for no name without the last-part flag.\<close>

definition readDirInvoke ::
    "os \<Rightarrow> listCallback \<Rightarrow> bytes option \<Rightarrow> int \<Rightarrow> trace \<Rightarrow> (int \<times> listCallback \<times> trace) option" where
  "readDirInvoke E s filename flag tr =
     (if filename = None \<and> flag = 1 then list_finish E s tr
      else do {
        (ret, s, tr) \<leftarrow> (if lc_size s - lc_usedsize s < 273 then do {
            (res, s, tr) \<leftarrow> send_list E flag s tr;
            Some (if res \<noteq> EUSTOR_OK then Some 1 else if flag = 1 then Some EUSTOR_OK else None,
              if res \<noteq> EUSTOR_OK \<or> flag = 1 then s else s\<lparr>lc_usedsize := 0\<rparr>, tr)
          } else Some (None, s, tr));
        case ret of Some res \<Rightarrow> Some (res, s, tr)
        | None \<Rightarrow>
            (case filename of None \<Rightarrow> Some (EUSTOR_OK, s, tr @ [Fault NullPtr])
             | Some filename \<Rightarrow>
                 let (a, tr) = do_call E (File (Stat (cstr filename))) tr in
                 if a_ret a \<noteq> 0 then Some (EUSTOR_OK, s, tr)
                 else let (s, tr) = list_entry filename (a_stat a) s tr in
                   if flag = 1 then list_finish E s tr else Some (EUSTOR_OK, s, tr))
      })"

abbreviation LIST_MAX_BUFFER :: u32 where "LIST_MAX_BUFFER \<equiv> 262144"

text \<open>The answer to a request that failed: the header alone.\<close>

definition send_error ::
    "os \<Rightarrow> usPhoneinfo \<Rightarrow> bytes \<Rightarrow> nat \<Rightarrow> trace \<Rightarrow> (int \<times> usPhoneinfo \<times> bytes \<times> trace) option" where
  "send_error E phone mem hp tr = usProtocol_SendPackage E phone (fail_hdr mem hp) hp PRO_HDR_SZIE tr"

definition usDecode_ListHandle ::
    "os \<Rightarrow> usPhoneinfo \<Rightarrow> bytes \<Rightarrow> nat \<Rightarrow> nat \<Rightarrow> u32 \<Rightarrow> trace \<Rightarrow> (int \<times> usPhoneinfo \<times> bytes \<times> trace) option" where
  "usDecode_ListHandle E phone mem hp pp ptrLen tr =
     (let tr = fault_if (length mem < pp + MAX_PATH_SIZE) OutOfBounds tr;
          filename = peek mem pp MAX_PATH_SIZE;
          tr = fault_if (0 \<notin> set filename) OutOfBounds tr;
          (a, tr) = do_call E (File (Stat (cstr filename))) tr
      in if a_ret a \<noteq> 0 \<or> \<not> st_isdir (a_stat a) then send_error E phone mem hp tr
         else do {
           (ret, s, tr) \<leftarrow> usDisk_diskList E filename (readDirInvoke E)
              \<lparr>lc_buffer = pp, lc_size = (if LIST_MAX_BUFFER < ptrLen then LIST_MAX_BUFFER else ptrLen),
               lc_usedsize = 0, lc_proHeader = hp, lc_phone = phone, lc_mem = mem\<rparr> tr;
           if ret = EUSTOR_DISK_LIST then send_error E (lc_phone s) (lc_mem s) hp tr
           else Some (EUSTOR_OK, lc_phone s, lc_mem s, tr)
         })"

definition usDecode_GetFileInfoHandle :: "os \<Rightarrow> bytes \<Rightarrow> nat \<Rightarrow> nat \<Rightarrow> trace \<Rightarrow> int \<times> bytes \<times> trace" where
  "usDecode_GetFileInfoHandle E mem hp pp tr =
     (let tr = fault_if (length mem < pp + MAX_PATH_SIZE) OutOfBounds tr;
          filename = peek mem pp MAX_PATH_SIZE;
          tr = fault_if (0 \<notin> set filename) OutOfBounds tr;
          (a, tr) = do_call E (File (Stat (cstr filename))) tr
      in if a_ret a \<noteq> 0 then (EUSTOR_ARG, fail_hdr mem hp, tr)
         else
           let st = a_stat a;
               (mem, tr) = put_fileinfo mem pp filename (if st_isdir st then 1 else 0) st
                 (if st_isdir st then 0 else st_size st) tr
           in (EUSTOR_OK, len_hdr 273 mem hp, tr))"

section \<open>Firmware, time and cache\<close>

definition usDecode_GetFirmwareInfoHandle ::
    "os \<Rightarrow> bytes \<Rightarrow> nat \<Rightarrow> nat \<Rightarrow> u32 \<Rightarrow> trace \<Rightarrow> (int \<times> bytes \<times> trace) option" where
  "usDecode_GetFirmwareInfoHandle E mem hp pp payLen tr = do {
     (r, mem, used, tr) \<leftarrow> usFirmware_GetInfo E mem pp (sint payLen) tr;
     Some (EUSTOR_OK, disk_answer r used mem hp, tr)
   }"

text \<open>On success the header's \<open>len\<close> stays that of the request.\<close>

definition usDecode_UpgradeFirmwareHandle ::
    "os \<Rightarrow> MD5_CTX \<Rightarrow> int \<Rightarrow> bytes \<Rightarrow> nat \<Rightarrow> nat \<Rightarrow> u32 \<Rightarrow> trace \<Rightarrow> (int \<times> int \<times> bytes \<times> trace) option" where
  "usDecode_UpgradeFirmwareHandle E c fd mem hp pp payLen tr = do {
     (r, fd, tr) \<leftarrow> usFirmware_FirmwareUP E c fd mem pp payLen (fs_ctrid (hdr_at mem hp)) tr;
     Some (EUSTOR_OK, fd, if r \<noteq> EUSTOR_OK then fail_hdr mem hp else mem, tr)
   }"

definition usDecode_SyncSystemTimeHandle ::
    "os \<Rightarrow> bytes \<Rightarrow> nat \<Rightarrow> nat \<Rightarrow> u32 \<Rightarrow> trace \<Rightarrow> int \<times> bytes \<times> trace" where
  "usDecode_SyncSystemTimeHandle E mem hp pp payLen tr =
     (let mem = len_hdr 0 mem hp in
      if payLen \<noteq> 4 then (EUSTOR_ARG, relag_hdr mem hp, tr)
      else
        let (r, tr) = ret_call E (Sys (SetTime (sint (get32 mem pp)))) tr in
        if r \<noteq> 0 then (EUSTOR_SYS, relag_hdr mem hp, tr) else (EUSTOR_OK, mem, tr))"

definition usDecode_SyncCacheHandle :: "os \<Rightarrow> bytes \<Rightarrow> nat \<Rightarrow> trace \<Rightarrow> int \<times> bytes \<times> trace" where
  "usDecode_SyncCacheHandle E mem hp tr =
     (let tr = just_call E (Sys SyncDisks) tr in (EUSTOR_OK, len_hdr 0 mem hp, tr))"

section \<open>A response answers its request\<close>

text \<open>
  A response keeps the tag, command and version of its request; only \<open>len\<close> and the response
  code change. \<open>answers\<close> says so of the buffer before and after, whose size does not change.
\<close>

definition same_request :: "fsOnDev \<Rightarrow> fsOnDev \<Rightarrow> bool" where
  "same_request h h' = (fs_head h' = fs_head h \<and> fs_version h' = fs_version h \<and> fs_wtag h' = fs_wtag h \<and>
     fs_ctrid h' = fs_ctrid h \<and> fs_reserved h' = fs_reserved h)"

definition answers :: "bytes \<Rightarrow> nat \<Rightarrow> bytes \<Rightarrow> bool" where
  "answers mem hp mem' = (length mem' = length mem \<and> same_request (hdr_at mem hp) (hdr_at mem' hp))"

lemma same_request_refl [simp]: "same_request h h"
  by (simp add: same_request_def)

lemma answers_refl [simp]: "answers mem hp mem"
  by (simp add: answers_def)

lemma answers_trans [trans]: "answers a hp b \<Longrightarrow> answers b hp c \<Longrightarrow> answers a hp c"
  by (simp add: answers_def same_request_def)

lemma length_enc_fsOnDev [simp]: "length (enc_fsOnDev h) = 24"
  by (simp add: fs_on_dev.length_enc)

lemma length_set_hdr [simp]: "hp + 24 \<le> length mem \<Longrightarrow> length (set_hdr f mem hp) = length mem"
  by (simp add: set_hdr_def length_poke)

lemma hdr_at_set [simp]: "hp + 24 \<le> length mem \<Longrightarrow> hdr_at (set_hdr f mem hp) hp = f (hdr_at mem hp)"
  unfolding hdr_at_def set_hdr_def by (rule fs_on_dev.dec_poke) simp_all

lemma peek_set_hdr: "hp + 24 \<le> a \<Longrightarrow> hp + 24 \<le> length mem \<Longrightarrow> peek (set_hdr f mem hp) a n = peek mem a n"
  unfolding set_hdr_def by (rule peek_poke_after) simp_all

lemma hdr_at_poke: "hp + 24 \<le> off \<Longrightarrow> off + length bs \<le> length mem \<Longrightarrow> hdr_at (poke mem off bs) hp = hdr_at mem hp"
  unfolding hdr_at_def by (rule fs_on_dev.dec_poke_apart) simp_all

lemmas hdr_setters = fail_hdr_def len_hdr_def relag_hdr_def

lemma length_setters [simp]:
  "hp + 24 \<le> length mem \<Longrightarrow> length (fail_hdr mem hp) = length mem"
  "hp + 24 \<le> length mem \<Longrightarrow> length (len_hdr k mem hp) = length mem"
  "hp + 24 \<le> length mem \<Longrightarrow> length (relag_hdr mem hp) = length mem"
  by (simp_all add: hdr_setters)

lemma answers_set:
  "answers a hp mem \<Longrightarrow> hp + 24 \<le> length mem \<Longrightarrow>
   answers a hp (fail_hdr mem hp) \<and> answers a hp (len_hdr n mem hp) \<and> answers a hp (relag_hdr mem hp)"
  by (simp add: answers_def same_request_def hdr_setters)

lemma answers_poke: "hp + 24 \<le> off \<Longrightarrow> off + length bs \<le> length mem \<Longrightarrow> answers mem hp (poke mem off bs)"
  by (simp add: answers_def length_poke hdr_at_poke)

lemma answers_memcpy: "memcpy mem off bs tr = (mem', tr') \<Longrightarrow> hp + 24 \<le> off \<Longrightarrow> answers mem hp mem'"
  by (auto simp: memcpy_def answers_poke split: if_splits)

lemma answers_disk:
  "answers a hp mem \<Longrightarrow> hp + 24 \<le> length a \<Longrightarrow> answers a hp (disk_answer r used mem hp)"
  by (auto simp: disk_answer_def answers_set answers_def same_request_def hdr_setters split: option.split)

lemma answers_memcpy_then:
  assumes "memcpy mem pp data tr = (m, tr')" "hp + 24 \<le> pp" "hp + 24 \<le> length mem"
  shows "answers mem hp (fail_hdr m hp)" "answers mem hp (len_hdr k m hp)" "answers mem hp (disk_answer r used m hp)"
proof -
  note m = answers_memcpy [OF assms(1,2)]
  then have "hp + 24 \<le> length m" using assms(3) by (simp add: answers_def)
  then show "answers mem hp (fail_hdr m hp)" "answers mem hp (len_hdr k m hp)" "answers mem hp (disk_answer r used m hp)"
    using m answers_set answers_disk assms(3) by blast+
qed

lemmas answers_memcpy_fst = answers_memcpy_then [OF prod.collapse [symmetric]]

lemma read_answers:
  "usDecode_ReadHandle E mem hp pp n tr = Some (r, mem', tr') \<Longrightarrow> hp + 24 \<le> pp \<Longrightarrow>
   hp + 24 \<le> length mem \<Longrightarrow> answers mem hp mem'"
  by (auto simp: usDecode_ReadHandle_def Let_def case_prod_beta bind_eq_Some_conv answers_set
      split: if_splits intro: answers_memcpy_fst)

lemma write_answers:
  "usDecode_WriteHandle E mem hp pp n tr = Some (r, mem', tr') \<Longrightarrow> hp + 24 \<le> length mem \<Longrightarrow> answers mem hp mem'"
  by (auto simp: usDecode_WriteHandle_def Let_def bind_eq_Some_conv answers_set split: if_splits prod.splits)

lemma edit_answers:
  "usDecode_CreateHandle E mem hp pp tr = (r, mem', tr') \<Longrightarrow> hp + 24 \<le> length mem \<Longrightarrow> answers mem hp mem'"
  "usDecode_DeleteHandle E mem hp pp tr = (r, mem', tr') \<Longrightarrow> hp + 24 \<le> length mem \<Longrightarrow> answers mem hp mem'"
  "usDecode_MoveHandle E mem hp pp tr = (r, mem', tr') \<Longrightarrow> hp + 24 \<le> length mem \<Longrightarrow> answers mem hp mem'"
  by (auto simp: usDecode_CreateHandle_def usDecode_DeleteHandle_def usDecode_MoveHandle_def Let_def
      answers_def same_request_def hdr_setters split: if_splits prod.splits)

lemma lun_loop_answers:
  "disk_lun_loop E reply mem pp bsize n cur room tr = Some y \<Longrightarrow> hp + 24 \<le> pp \<Longrightarrow> pp + 2 \<le> length mem \<Longrightarrow>
   answers mem hp (fst y)"
proof (induct rule: disk_lun_loop.raw_induct [rotated, consumes 1, case_names step])
  case (step loop E reply mem pp bsize n cur room tr y)
  let ?disk = "dec_disklist (drop (12 + cur) (snd reply))"
  let ?node = "enc_diskPlugNode \<lparr>pn_dev = strncpy (dl_devname ?disk) 16, pn_seqnum = 0\<rparr>"
  define m1 where "m1 = poke mem pp (put16 (get16 mem pp + 1))"
  have a1: "answers mem hp m1" unfolding m1_def by (rule answers_poke) (use step.prems in simp_all)
  then have l1: "length m1 = length mem" by (simp add: answers_def)
  consider "fst y = mem"
    | tr1 where "loop E reply mem pp bsize n cur room tr1 = Some y"
    | t m2 t2 where "memcpy m1 (pp + 2 + 18 * n) ?node t = (m2, t2)"
        "loop E reply m2 pp bsize (n + 1) (cur + disklist_size) (room - 18) t2 = Some y"
    using step.hyps(2) unfolding m1_def by (auto simp: Let_def split: if_splits prod.splits)
  then show ?case
  proof cases
    case 1 then show ?thesis by simp
  next
    case 2 then show ?thesis using step by blast
  next
    case 3
    note a2 = answers_memcpy [OF 3(1), of hp]
    have "answers m1 hp m2" using a2 step.prems by simp
    moreover have "answers m2 hp (fst y)"
      using step.hyps(1) [OF 3(2)] step.prems l1 calculation by (simp add: answers_def)
    ultimately show ?thesis using a1 answers_trans by blast
  qed
qed

lemma disk_lun_answers:
  "disk_getdisk_lun E mem pp bsize tr = Some (r, mem', used, tr') \<Longrightarrow> hp + 24 \<le> pp \<Longrightarrow>
   pp + 2 \<le> length mem \<Longrightarrow> answers mem hp mem'"
  by (auto simp: disk_getdisk_lun_def Let_def bind_eq_Some_conv split: if_splits prod.splits option.splits
      dest: lun_loop_answers)

lemma disk_info_answers:
  "disk_getdisk_info E mem pp bsize tr = (r, mem', used, tr') \<Longrightarrow> hp + 24 \<le> pp \<Longrightarrow> answers mem hp mem'"
  by (auto simp: disk_getdisk_info_def Let_def split: if_splits prod.splits option.splits dest: answers_memcpy)

lemma disk_answers:
  "usDecode_DiskLunHandle E mem hp pp n nf tr = Some (r, mem', nf', tr') \<Longrightarrow> hp + 24 \<le> pp \<Longrightarrow>
     pp + 2 \<le> length mem \<Longrightarrow> answers mem hp mem'"
  "usDecode_DiskInfoHandle E mem hp pp n nf tr = (r, mem', nf', tr') \<Longrightarrow> hp + 24 \<le> pp \<Longrightarrow>
     pp + 2 \<le> length mem \<Longrightarrow> answers mem hp mem'"
   apply (auto simp: usDecode_DiskLunHandle_def usDisk_diskLun_def Let_def bind_eq_Some_conv answers_set
      split: if_splits prod.splits intro!: answers_disk dest: disk_lun_answers)
  apply (auto simp: usDecode_DiskInfoHandle_def usDisk_diskInfo_def Let_def answers_set
      split: if_splits prod.splits intro!: answers_disk dest: disk_info_answers)
  done

text \<open>The other answers.\<close>

lemma memcpy_before:
  "memcpy mem off bs tr = (mem', tr') \<Longrightarrow> length mem' = length mem \<and> (a + n \<le> off \<longrightarrow> peek mem' a n = peek mem a n)"
  by (auto simp: memcpy_def length_poke peek_poke_before split: if_splits)

lemma put_fileinfo_before:
  assumes "put_fileinfo mem at nm d st k tr = (mem', tr')"
  shows "length mem' = length mem \<and> (a + n \<le> at \<longrightarrow> peek mem' a n = peek mem a n)"
proof -
  obtain m t where m: "memcpy mem at (strcpy (after_last 47 (cstr nm)))
      (fault_if (MAX_FILENAME_SIZE < length (strcpy (after_last 47 (cstr nm)))) OutOfBounds tr) = (m, t)"
    by fastforce
  have "memcpy m (at + 256) ([d] @ put32 (st_atime st) @ put32 (st_mtime st) @ put64 k) t = (mem', tr')"
    using assms m by (simp add: put_fileinfo_def Let_def split: prod.splits)
  from memcpy_before [OF m, of a n] memcpy_before [OF this, of a n] show ?thesis by simp
qed

lemma put_fileinfo_answers:
  assumes "put_fileinfo mem at nm d st k tr = (mem', tr')" "hp + 24 \<le> at"
  shows "answers mem hp mem'"
  using put_fileinfo_before [OF assms(1), of hp 24] assms(2) fs_on_dev.dec_peek [of mem hp] fs_on_dev.dec_peek [of mem' hp]
  by (simp add: answers_def hdr_at_def)

lemma info_answers:
  assumes "usDecode_GetFileInfoHandle E mem hp pp tr = (r, mem', tr')" "hp + 24 \<le> pp" "hp + 24 \<le> length mem"
  shows "answers mem hp mem'"
proof -
  have "answers mem hp (len_hdr 273 m hp)" if "put_fileinfo mem pp nm d st k t = (m, t')" for nm d st k t m t'
    using put_fileinfo_answers [OF that assms(2)] answers_set assms(3) by (simp add: answers_def)
  then show ?thesis
    using assms by (auto simp: usDecode_GetFileInfoHandle_def Let_def answers_set split: if_splits prod.splits)
qed

lemma set_answers [simp]:
  "hp + 24 \<le> length mem \<Longrightarrow> answers mem hp (fail_hdr mem hp)"
  "hp + 24 \<le> length mem \<Longrightarrow> answers mem hp (len_hdr k mem hp)"
  "hp + 24 \<le> length mem \<Longrightarrow> answers mem hp (relag_hdr mem hp)"
  using answers_set [OF answers_refl] by blast+

lemma getinfo_mem:
  "usFirmware_GetInfo E mem off n tr = Some (r, mem', used, tr') \<Longrightarrow> mem' = mem \<or> (\<exists>d t. mem' = fst (memcpy mem off d t))"
  unfolding usFirmware_GetInfo_def Let_def case_prod_beta
  by (auto simp: bind_eq_Some_conv split: if_splits)

lemma firmware_answers:
  "usDecode_GetFirmwareInfoHandle E mem hp pp n tr = Some (r, mem', tr') \<Longrightarrow> hp + 24 \<le> pp \<Longrightarrow>
   hp + 24 \<le> length mem \<Longrightarrow> answers mem hp mem'"
  "usDecode_UpgradeFirmwareHandle E c fd mem hp pp n tr = Some (r, fd', mem', tr') \<Longrightarrow>
   hp + 24 \<le> length mem \<Longrightarrow> answers mem hp mem'"
   apply (auto simp: usDecode_GetFirmwareInfoHandle_def bind_eq_Some_conv dest!: getinfo_mem
      intro: answers_memcpy_fst answers_disk)
  apply (auto simp: usDecode_UpgradeFirmwareHandle_def bind_eq_Some_conv split: if_splits)
  done

lemma sync_answers:
  "usDecode_SyncSystemTimeHandle E mem hp pp n tr = (r, mem', tr') \<Longrightarrow> hp + 24 \<le> length mem \<Longrightarrow> answers mem hp mem'"
  "usDecode_SyncCacheHandle E mem hp tr = (r, mem', tr') \<Longrightarrow> hp + 24 \<le> length mem \<Longrightarrow> answers mem hp mem'"
  by (auto simp: usDecode_SyncSystemTimeHandle_def usDecode_SyncCacheHandle_def Let_def answers_def
      same_request_def hdr_setters split: if_splits prod.splits)

section \<open>What the handlers do\<close>

lemma read_handle_ok:
  assumes run: "usDecode_ReadHandle E mem hp pp buffSize tr = Some (r, mem', tr')"
    and v: "fs_version (hdr_at mem hp) = PRO_FSONDEV_VER1" and hp: "hp + 24 \<le> pp"
    and i: "info = dec_operation_rw (drop pp mem)" "0 < sint (rw_size info)" "pp + nat (sint (rw_size info)) \<le> length mem"
    and p: "path_arg mem (pp + 14) (sint (rw_pathlen info)) tr = (path, t)"
      "disk_opened E path O_RDONLY (sint (rw_offset info)) t = (fd, t1)" "serves E fd content t1"
  shows "r = EUSTOR_OK \<and> (mem' = fail_hdr mem hp \<or> hdr_at mem' hp = (hdr_at mem hp)\<lparr>fs_len := 0, fs_relag := USTOR_EERR\<rparr> \<or>
    (let data = take (nat (sint (rw_size info))) content in
       hdr_at mem' hp = (hdr_at mem hp)\<lparr>fs_len := of_nat (length data)\<rparr> \<and> peek mem' pp (length data) = data))"
proof -
  let ?n = "sint (rw_size info)"
  have n: "?n < 2 ^ 31" using sint_lt [of "rw_size info"] by simp
  have l: "hp + 24 \<le> length mem" using hp i(2,3) by linarith
  show ?thesis
  proof (cases "rw_size info \<le> buffSize")
    case False
    then show ?thesis using run v i(1) p by (simp add: usDecode_ReadHandle_def Let_def)
  next
    case True
    then obtain q data k t2 where d: "usDisk_diskRead E path (sint (rw_offset info)) ?n True t = Some (q, data, k, t2)"
      and m: "r = EUSTOR_OK" "mem' = (let m = fst (memcpy mem pp data t2) in if q = EUSTOR_OK then
          len_hdr (case k of Some n \<Rightarrow> word_of_int n | None \<Rightarrow> 0) m hp else fail_hdr m hp)"
      using run v i(1) p by (auto simp: usDecode_ReadHandle_def Let_def case_prod_beta bind_eq_Some_conv)
    have a: "answers mem hp (fst (memcpy mem pp data t2))"
      using answers_memcpy [OF prod.collapse [symmetric]] hp by blast
    have "serves E (fst (disk_opened E path O_RDONLY (sint (rw_offset info)) t)) content
        (snd (disk_opened E path O_RDONLY (sint (rw_offset info)) t))" using p by simp
    from disk_read_ok [OF d this i(2) n] have q: "q = EUSTOR_OK \<longrightarrow> data = take (nat ?n) content \<and> k = Some (int (length data))"
      by simp
    show ?thesis
    proof (cases "q = EUSTOR_OK")
      case True
      then have dk: "data = take (nat ?n) content" "k = Some (int (length data))" using q by auto
      then have "pp + length data \<le> length mem" using i(3) by simp
      then have mm: "fst (memcpy mem pp data t2) = poke mem pp data" by (simp add: memcpy_def)
      then show ?thesis using m True dk l hp \<open>pp + length data \<le> length mem\<close>
        by (simp add: Let_def len_hdr_def hdr_at_poke peek_set_hdr length_poke peek_poke_same del: length_take)
    next
      case False
      have "hdr_at mem' hp = (hdr_at (fst (memcpy mem pp data t2)) hp)\<lparr>fs_len := 0, fs_relag := USTOR_EERR\<rparr>"
        using m False a l by (simp add: Let_def fail_hdr_def answers_def)
      moreover have "hdr_at (fst (memcpy mem pp data t2)) hp = hdr_at mem hp"
        using hp by (auto simp: memcpy_def hdr_at_poke)
      ultimately show ?thesis using m(1) by simp
    qed
  qed
qed

text \<open>The bytes written are those of the request that follow the path.\<close>

lemma write_handle_ok:
  assumes run: "usDecode_WriteHandle E mem hp pp n tr = Some (r, mem', tr')"
    and v: "fs_version (hdr_at mem hp) = PRO_FSONDEV_VER1"
    and i: "info = dec_operation_rw (drop pp mem)" "0 < sint (rw_size info)" "0 \<le> sint (rw_pathlen info)"
      "pp + 14 + nat (sint (rw_pathlen info)) + nat (sint (rw_size info)) \<le> length mem"
    and p: "path_arg mem (pp + 14) (sint (rw_pathlen info)) tr = (path, t)"
      "disk_opened E path O_RDWR (sint (rw_offset info)) t = (fd, t1)"
  shows "mem' = fail_hdr mem hp \<or> mem' = len_hdr 0 mem hp \<and>
    written fd tr' = written fd t1 @
      peek mem (pp + 14 + nat (sint (rw_pathlen info))) (nat (sint (rw_size info)))"
proof -
  let ?n = "sint (rw_size info)" and ?off = "pp + 14 + nat (sint (rw_pathlen info))"
  have n: "?n < 2 ^ 31" using sint_lt [of "rw_size info"] by simp
  have off: "nat (int pp + 14 + sint (rw_pathlen info)) = ?off" using i(3) by simp
  obtain q k t2 where d: "usDisk_diskWrite E path mem ?off (sint (rw_offset info)) ?n False t = Some (q, k, t2)"
    and m: "tr' = t2" "mem' = (if q = EUSTOR_OK then len_hdr 0 mem hp else fail_hdr mem hp)"
    using run v i(1) p off by (auto simp: usDecode_WriteHandle_def Let_def bind_eq_Some_conv)
  from disk_write_ok [OF d i(2) n] i(4) p(2) m show ?thesis by (auto simp: Let_def split: option.splits)
qed

section \<open>Paths and the shell\<close>

lemma path_arg_ok:
  assumes n: "0 \<le> n" "n < 4096"
  shows "\<exists>abspath. path_arg mem off n tr = (abspath, tr) \<and> cstr abspath = cstr (take (nat n) (drop off mem))"
proof -
  let ?s = "strncpy (drop off mem) (nat n)"
  have l: "length ?s = nat n" by (simp add: strncpy_def min_def)
  define a where "a = poke (zeros 4096) 0 (take 4096 ?s)"
  have a: "a = ?s @ zeros (4096 - nat n)" using n l by (simp add: a_def poke_def zeros_def)
  have z: "0 \<in> set a" using n by (simp add: a zeros_def)
  have "cstr a = cstr ?s" unfolding a using n l
    by (cases "0 \<in> set ?s") (auto simp: cstr_def zeros_def takeWhile_append takeWhile_eq_all_conv [THEN iffD2] takeWhile_tail)
  moreover have "cstr ?s = cstr (take (nat n) (drop off mem))" by (rule cstr_strncpy_take)
  ultimately show ?thesis using n z unfolding path_arg_def a_def [symmetric] Let_def
    by (simp add: fault_if_def)
qed

text \<open>A file that could be removed, and every directory, is given to the shell as well.\<close>

lemma delete_calls:
  assumes run: "usDecode_DeleteHandle E mem hp pp tr = (r, mem', tr')"
    and v: "fs_version (hdr_at mem hp) = PRO_FSONDEV_VER1" and z: "0 \<in> set (drop (pp + 9) mem)"
  shows "let path = cstr (drop (pp + 9) mem); isdir = nd_isdir (dec_operation_newdel (drop pp mem));
      removed = (isdir = 0 \<longrightarrow> a_ret (E tr (File (Remove path))) = 0)
    in calls tr' = calls tr @ (if isdir = 0 then [File (Remove path)] else []) @
         (if removed then [Sys (System (rm_command path))] else []) \<and>
       mem' = len_hdr 0 (if removed then mem else relag_hdr mem hp) hp"
  using run v z by (auto simp: usDecode_DeleteHandle_def str_at_def Let_def call_eqs fault_if_def split: if_splits)

end
