(* ===== verification/Ustor_List.thy ===== *)
theory Ustor_List
  imports Ustor_Decode
begin

text \<open>
  Directory listings (readDirInvoke and usDecode_ListHandle of usDecode.c): what the callback keeps
  of the list buffer, what a part holds and what the peer gets of it.
\<close>

section \<open>The list buffer\<close>

text \<open>
  What a list part holds: \<open>fileNum\<close> entries behind the five bytes of the list header. \<open>listed\<close>
  reads them back; \<open>list_inv\<close> is what every step of a listing keeps, for the buffer at \<open>pp\<close>
  of an object of \<open>len\<close> bytes, the request \<open>h\<close> that lies before it and the phone \<open>p\<close> it came from.
\<close>

definition fileNum :: "listCallback \<Rightarrow> u32" where
  "fileNum s = lr_fileNum (dec_listResponse (drop (lc_buffer s) (lc_mem s)))"

definition shown :: "fileinfo \<Rightarrow> bytes \<times> u8 \<times> u32 \<times> u32 \<times> u64" where
  "shown f = (cstr (fi_name f), fi_isdir f, fi_actime f, fi_modtime f, fi_size f)"

definition entry_at :: "listCallback \<Rightarrow> nat \<Rightarrow> fileinfo" where
  "entry_at s i = dec_fileinfo (drop (lc_buffer s + 5 + 273 * i) (lc_mem s))"

definition listed :: "listCallback \<Rightarrow> (bytes \<times> u8 \<times> u32 \<times> u32 \<times> u64) list" where
  "listed s = (if lc_usedsize s = 0 then [] else map (\<lambda>i. shown (entry_at s i)) [0..<unat (fileNum s)])"

definition list_inv :: "nat \<Rightarrow> nat \<Rightarrow> fsOnDev \<Rightarrow> usPhoneinfo \<Rightarrow> listCallback \<Rightarrow> bool" where
  "list_inv len pp h p s = (lc_buffer s = pp \<and> lc_proHeader s + 24 = pp \<and> 60 \<le> pp \<and>
     278 \<le> unat (lc_size s) \<and> unat (lc_size s) \<le> 262144 \<and> pp + unat (lc_size s) \<le> len \<and>
     length (lc_mem s) = len \<and> phone_kept p (lc_phone s) \<and> same_request h (hdr_at (lc_mem s) (lc_proHeader s)) \<and>
     (lc_usedsize s = 0 \<or>
        unat (lc_usedsize s) = 5 + 273 * unat (fileNum s) \<and> unat (lc_usedsize s) \<le> unat (lc_size s)))"

lemma set_listhdr_simps [simp]:
  "lc_buffer (set_listhdr f s) = lc_buffer s" "lc_size (set_listhdr f s) = lc_size s"
  "lc_usedsize (set_listhdr f s) = lc_usedsize s" "lc_proHeader (set_listhdr f s) = lc_proHeader s"
  "lc_phone (set_listhdr f s) = lc_phone s"
  "lc_buffer s + 5 \<le> length (lc_mem s) \<Longrightarrow> length (lc_mem (set_listhdr f s)) = length (lc_mem s)"
  by (simp_all add: set_listhdr_def length_poke list_resp.length_enc)

lemma list_used [simp]:
  "fileNum (s\<lparr>lc_usedsize := u\<rparr>) = fileNum s" "entry_at (s\<lparr>lc_usedsize := u\<rparr>) i = entry_at s i"
  by (simp_all add: fileNum_def entry_at_def)

lemma fileNum_set [simp]:
  "lc_buffer s + 5 \<le> length (lc_mem s) \<Longrightarrow>
   fileNum (set_listhdr f s) = lr_fileNum (f (dec_listResponse (drop (lc_buffer s) (lc_mem s))))"
  by (simp add: fileNum_def set_listhdr_def list_resp.dec_poke)

lemma entry_set [simp]:
  "lc_buffer s + 5 \<le> length (lc_mem s) \<Longrightarrow> entry_at (set_listhdr f s) i = entry_at s i"
  by (simp add: entry_at_def set_listhdr_def file_info.dec_poke_apart list_resp.length_enc)

lemma hdr_at_list [simp]:
  "lc_proHeader s + 24 \<le> lc_buffer s \<Longrightarrow> lc_buffer s + 5 \<le> length (lc_mem s) \<Longrightarrow>
   hdr_at (lc_mem (set_listhdr f s)) (lc_proHeader s) = hdr_at (lc_mem s) (lc_proHeader s)"
  by (simp add: set_listhdr_def hdr_at_poke list_resp.length_enc)

text \<open>
  A part of the listing as the peer gets it: nothing, or the number of entries and whether it is the last,
  and the entries as they lie in the buffer, so that the peer reads what was listed.
\<close>

definition entries_of :: "bytes \<Rightarrow> (bytes \<times> u8 \<times> u32 \<times> u32 \<times> u64) list" where
  "entries_of part = map (\<lambda>i. shown (dec_fileinfo (drop (5 + 273 * i) part))) [0..<unat (lr_fileNum (dec_listResponse part))]"

definition part_of :: "int \<Rightarrow> listCallback \<Rightarrow> bytes \<Rightarrow> bool" where
  "part_of flag s part = (length part = unat (lc_usedsize s) \<and>
     (part \<noteq> [] \<longrightarrow> length part = 5 + 273 * unat (fileNum s) \<and>
        dec_listResponse part = \<lparr>lr_fileNum = fileNum s, lr_finish = word_of_int flag\<rparr> \<and>
        drop 5 part = peek (lc_mem s) (lc_buffer s + 5) (273 * unat (fileNum s)) \<and> entries_of part = listed s))"

lemma take_drop_peek: "x + k \<le> n \<Longrightarrow> take k (drop x (peek m a n)) = peek m (a + x) k"
  by (simp only: peek_def drop_take take_take drop_drop add.commute [of x a]) (simp add: min_def)

lemma entry_in_part:
  assumes "i < n"
  shows "dec_fileinfo (drop (273 * i) (peek m a (273 * n))) = dec_fileinfo (drop (a + 273 * i) m)"
proof -
  have "273 * i + 273 \<le> 273 * n" using assms by simp
  from take_drop_peek [OF this]
  have "take 273 (drop (273 * i) (peek m a (273 * n))) = peek m (a + 273 * i) 273" .
  then show ?thesis
    using file_info.dec_take [of "drop (273 * i) (peek m a (273 * n))"] file_info.dec_peek [of m "a + 273 * i"] by simp
qed

lemma part_sent:
  assumes inv: "list_inv len pp h p s"
  shows "part_of flag s (peek (lc_mem (set_listhdr (\<lambda>l. l\<lparr>lr_finish := word_of_int flag\<rparr>) s)) pp (unat (lc_usedsize s)))"
    (is "part_of flag s ?part")
proof (cases "lc_usedsize s = 0")
  case True
  then show ?thesis by (simp add: part_of_def peek_def)
next
  case False
  let ?n = "unat (fileNum s)" and ?x = "\<lparr>lr_fileNum = fileNum s, lr_finish = word_of_int flag\<rparr>"
  have i: "lc_buffer s = pp" "unat (lc_usedsize s) = 5 + 273 * ?n" "pp + 5 + 273 * ?n \<le> length (lc_mem s)"
    using inv False by (auto simp: list_inv_def)
  have x: "(dec_listResponse (drop pp (lc_mem s)))\<lparr>lr_finish := word_of_int flag\<rparr> = ?x"
    by (simp add: fileNum_def i(1) dec_listResponse_def)
  have part: "?part = enc_listResponse ?x @ peek (lc_mem s) (pp + 5) (273 * ?n)"
    using peek_poke_over [of pp "enc_listResponse ?x" "273 * ?n" "lc_mem s"] i
    by (simp add: set_listhdr_def x list_resp.length_enc)
  have d: "drop 5 ?part = peek (lc_mem s) (pp + 5) (273 * ?n)" unfolding part by (simp add: list_resp.length_enc)
  have hd: "dec_listResponse ?part = ?x" unfolding part by (simp add: list_resp.dec_enc_append)
  have "dec_fileinfo (drop (5 + 273 * j) ?part) = entry_at s j" if "j < ?n" for j
    using entry_in_part [OF that, of "lc_mem s" "pp + 5"] i d
    by (simp add: entry_at_def drop_drop [symmetric] add.commute [of 5] del: drop_drop)
  then have "entries_of ?part = listed s" using False hd by (simp add: entries_of_def listed_def)
  then show ?thesis using i d hd by (simp add: part_of_def length_peek)
qed

text \<open>Sending a part: the peer gets the header with the length of the part, and the part.\<close>

lemma send_list_inv:
  assumes run: "send_list E flag s tr = Some (r, s', tr')" and inv: "list_inv len pp h p s"
  shows "lc_usedsize s' = lc_usedsize s \<and> list_inv len pp h p (s'\<lparr>lc_usedsize := 0\<rparr>) \<and>
    (r = EUSTOR_OK \<longrightarrow> (\<exists>hdr part. phone_carried (lc_phone s) tr tr' (enc_fsOnDev hdr @ part) \<and>
       same_request h hdr \<and> unat (fs_len hdr) = length part \<and> part_of flag s part))"
proof -
  define s1 where "s1 = set_listhdr (\<lambda>l. l\<lparr>lr_finish := word_of_int flag\<rparr>) s"
  define mem where "mem = len_hdr (lc_usedsize s) (lc_mem s1) (lc_proHeader s)"
  let ?n = "unat (lc_usedsize s + of_nat PRO_HDR_SZIE)" and ?hp = "lc_proHeader s"
  have used: "unat (lc_usedsize s) \<le> 262144" using inv by (auto simp: list_inv_def)
  then have n: "?n = unat (lc_usedsize s) + 24" by (simp add: unat_word_ariths)
  note i = inv [unfolded list_inv_def]
  have mem: "length mem = len" "same_request h (hdr_at mem ?hp)" "fs_len (hdr_at mem ?hp) = lc_usedsize s"
    using i by (simp_all add: mem_def s1_def len_hdr_def same_request_def)
  obtain phone mem' where snd: "usProtocol_SendPackage E (lc_phone s) mem ?hp ?n tr = Some (r, phone, mem', tr')"
    and s': "s' = s1\<lparr>lc_mem := mem', lc_phone := phone\<rparr>"
    using run by (auto simp: send_list_def Let_def bind_eq_Some_conv s1_def mem_def)
  have pre: "phone_ready (lc_phone s)" "36 \<le> ?hp" "?hp + ?n \<le> length mem"
    using i n mem by (auto simp: phone_kept_ready)
  note law = phone_tp.send_law [OF snd pre] phone_tp.header_kept [OF snd pre]
  have pk: "phone_kept p phone" using send_kept [OF snd pre(1)] i phone_kept_trans by blast
  have "list_inv len pp h p (s'\<lparr>lc_usedsize := 0\<rparr>)"
    using i law mem pk by (auto simp: list_inv_def s' s1_def hdr_at_def)
  moreover have "\<exists>hdr part. phone_carried (lc_phone s) tr tr' (enc_fsOnDev hdr @ part) \<and>
       same_request h hdr \<and> unat (fs_len hdr) = length part \<and> part_of flag s part" if "r = EUSTOR_OK"
  proof (intro exI conjI)
    let ?hdr = "hdr_at mem ?hp" and ?part = "peek (lc_mem s1) pp (unat (lc_usedsize s))"
    have m: "mem = poke (lc_mem s1) ?hp (enc_fsOnDev ?hdr)" 
      using i by (simp add: mem_def len_hdr_def set_hdr_def s1_def hdr_at_def fs_on_dev.dec_poke)
    have A: "usProtocol_SendPackage E (lc_phone s) (poke (lc_mem s1) ?hp (enc_fsOnDev ?hdr)) ?hp ?n tr =
        Some (EUSTOR_OK, phone, mem', tr')"
      using snd that unfolding m [symmetric] by simp
    have B: "?hp + ?n \<le> length (lc_mem s1)" using pre(3) mem(1) i by (simp add: s1_def)
    have "phone_carried (lc_phone s) tr tr' (enc_fsOnDev ?hdr @ peek (lc_mem s1) (?hp + 24) (?n - 24))"
      by (rule phone_tp.response_carried [OF A pre(1,2) _ B]) (use n in simp)
    then show "phone_carried (lc_phone s) tr tr' (enc_fsOnDev ?hdr @ ?part)" using n i by simp
    show "same_request h ?hdr" by (rule mem)
    show "part_of flag s ?part" unfolding s1_def by (rule part_sent [OF inv])
    have "length ?part = unat (lc_usedsize s)"
      using i by (auto simp: length_peek s1_def)
    then show "unat (fs_len ?hdr) = length ?part" using mem by simp
  qed
  ultimately show ?thesis by (simp add: s' s1_def)
qed


text \<open>Storing an entry makes it the last of the list and leaves the others.\<close>

lemma shown_stored:
  assumes nm: "length (cstr nm) < 256" "at + 273 \<le> length mem"
    and m: "mem' = poke (poke mem at (strcpy nm)) (at + 256) ([d] @ put32 a @ put32 b @ put64 k)"
  shows "shown (dec_fileinfo (drop at mem')) = (cstr nm, d, a, b, k) \<and> length mem' = length mem"
proof -
  let ?name = "peek mem' at 256" and ?rest = "[d] @ put32 a @ put32 b @ put64 k"
  have ls: "length (strcpy nm) \<le> 256" using nm by (simp add: strcpy_def)
  have l1: "length (poke mem at (strcpy nm)) = length mem" using ls nm by (simp add: length_poke)
  have lr: "length ?rest = 17" by simp
  have l2: "length mem' = length mem" unfolding m using l1 nm lr by (subst length_poke) simp_all
  have "?name = peek (poke mem at (strcpy nm)) at 256"
    unfolding m by (rule peek_poke_before) (use l1 nm in simp_all)
  also have "\<dots> = strcpy nm @ peek mem (at + length (strcpy nm)) (256 - length (strcpy nm))"
    using peek_poke_over [of at "strcpy nm" "256 - length (strcpy nm)" mem] ls nm by simp
  finally have name: "cstr ?name = cstr nm" by (simp add: strcpy_def)
  have "peek mem' (at + 256) 17 = ?rest"
    unfolding m by (rule peek_poke_same) (use l1 nm in simp_all)
  then have "peek mem' at 273 = ?name @ ?rest" using peek_append [of mem' at 256 17] by simp
  also have "\<dots> = enc_fileinfo \<lparr>fi_name = ?name, fi_isdir = d, fi_actime = a, fi_modtime = b, fi_size = k\<rparr>"
    by (simp add: enc_fileinfo_def)
  finally have "dec_fileinfo (drop at mem') = \<lparr>fi_name = ?name, fi_isdir = d, fi_actime = a, fi_modtime = b, fi_size = k\<rparr>"
    using file_info.dec_peek [of mem' at] nm(2) l2
    by (simp add: file_info.dec_enc wf_fileinfo_def length_peek)
  then show ?thesis using name l2 by (simp add: shown_def)
qed

lemma list_entry_inv:
  assumes inv: "list_inv len pp h p s" and room: "273 \<le> unat (lc_size s) - unat (lc_usedsize s)"
  shows "\<exists>s' t. list_entry nm st s tr = (s', t) \<and> list_inv len pp h p s' \<and>
    (length (cstr (after_last 47 (cstr nm))) < 256 \<longrightarrow> t = tr \<and>
      listed s' = listed s @ [(cstr (after_last 47 (cstr nm)), if st_isdir st then 1 else 0, st_atime st, st_mtime st, st_size st)])"
proof -
  let ?nm = "after_last 47 (cstr nm)" and ?d = "if st_isdir st then 1 else 0 :: u8"
  define s1 where "s1 = (if lc_usedsize s = 0
    then (set_listhdr (\<lambda>l. l\<lparr>lr_fileNum := 0\<rparr>) s)\<lparr>lc_usedsize := 5\<rparr> else s)"
  note i = inv [unfolded list_inv_def]
  have b: "lc_buffer s + 5 \<le> length (lc_mem s)" using i by simp
  define K where "K = unat (fileNum s1)"
  have s1: "lc_buffer s1 = pp" "lc_proHeader s1 = lc_proHeader s" "lc_size s1 = lc_size s" "lc_phone s1 = lc_phone s"
    "length (lc_mem s1) = len" "unat (lc_usedsize s1) = 5 + 273 * K" "lc_usedsize s1 \<noteq> 0"
    "hdr_at (lc_mem s1) (lc_proHeader s) = hdr_at (lc_mem s) (lc_proHeader s)"
    using i b by (auto simp: s1_def K_def)
  have l1: "map (\<lambda>i. shown (entry_at s1 i)) [0..<K] = listed s"
    using b by (auto simp: s1_def K_def listed_def)
  have r1: "5 + 273 * K + 273 \<le> unat (lc_size s)"
    using s1(6) room i by (auto simp: s1_def split: if_splits)
  let ?at = "pp + (5 + 273 * K)"
  obtain mem t where put: "put_fileinfo (lc_mem s1) ?at nm ?d st (st_size st) tr = (mem, t)" by fastforce
  note pb = put_fileinfo_before [OF put]
  have at: "?at + 273 \<le> length (lc_mem s1)" using r1 i s1(5) by linarith
  define s2 where "s2 = s1\<lparr>lc_mem := mem\<rparr>"
  define s3 where "s3 = (set_listhdr (\<lambda>l. l\<lparr>lr_fileNum := lr_fileNum l + 1\<rparr>) s2)\<lparr>lc_usedsize := lc_usedsize s1 + 273\<rparr>"
  have lm: "length mem = len" using pb s1(5) by simp
  have apart: "dec_listResponse (drop pp mem) = dec_listResponse (drop pp (lc_mem s1))"
    "hdr_at mem (lc_proHeader s) = hdr_at (lc_mem s1) (lc_proHeader s)"
    using pb [of pp 5] pb [of "lc_proHeader s" 24] i list_resp.dec_peek [of mem pp] list_resp.dec_peek [of "lc_mem s1" pp]
      fs_on_dev.dec_peek [of mem "lc_proHeader s"] fs_on_dev.dec_peek [of "lc_mem s1" "lc_proHeader s"]
    by (simp_all add: hdr_at_def)
  have f2: "fileNum s2 = fileNum s1" using apart(1) s1(1) by (simp add: s2_def fileNum_def)
  have K3: "unat (fileNum s1 + 1) = K + 1" using r1 i unfolding K_def by (simp add: unat_word_ariths)
  have b2: "lc_buffer s2 + 5 \<le> length (lc_mem s2)" using at lm s1 by (simp add: s2_def)
  have f3: "fileNum s3 = fileNum s1 + 1"
    using b2 f2 by (simp add: s3_def fileNum_def [of s2, symmetric])
  have u3: "unat (lc_usedsize s3) = 5 + 273 * (K + 1)"
    using s1(6) r1 i by (simp add: s3_def unat_word_ariths)
  have run: "list_entry nm st s tr = (s3, t)"
    unfolding list_entry_def Let_def s1_def [symmetric]
    using put s1(1,6) by (simp add: s3_def s2_def)
  have "hdr_at (lc_mem s3) (lc_proHeader s) = hdr_at mem (lc_proHeader s)"
    using hdr_at_list [of s2] b2 i s1(1,2) by (simp add: s3_def s2_def)
  then have inv3: "list_inv len pp h p s3"
    using i s1 u3 f3 K3 r1 b2 apart(2) lm by (simp add: list_inv_def) (simp add: s3_def s2_def)
  have "t = tr \<and> listed s3 = listed s @ [(cstr ?nm, ?d, st_atime st, st_mtime st, st_size st)]"
    if nm: "length (cstr ?nm) < 256"
  proof -
    have ls: "length (strcpy ?nm) \<le> 256" using nm by (simp add: strcpy_def)
    have m: "t = tr" "mem = poke (poke (lc_mem s1) ?at (strcpy ?nm)) (?at + 256)
       ([?d] @ put32 (st_atime st) @ put32 (st_mtime st) @ put64 (st_size st))"
      using put at ls by (simp_all add: put_fileinfo_def memcpy_def fault_if_def Let_def length_poke)
    note sh = shown_stored [OF nm at m(2)]
    have old: "dec_fileinfo (drop (pp + 5 + 273 * j) mem) = dec_fileinfo (drop (pp + 5 + 273 * j) (lc_mem s1))" if "j < K" for j
      using pb [of "pp + 5 + 273 * j" 273] that
        file_info.dec_peek [of mem "pp + 5 + 273 * j"] file_info.dec_peek [of "lc_mem s1" "pp + 5 + 273 * j"] by simp
    have e3: "entry_at s3 j = dec_fileinfo (drop (pp + 5 + 273 * j) mem)" for j
      using b2 entry_set [of s2 _ j] s1(1) by (simp add: s3_def entry_at_def s2_def)
    have "lc_usedsize s3 \<noteq> 0" using u3 by auto
    then have "listed s3 = map (\<lambda>i. shown (entry_at s3 i)) [0..<K] @ [shown (entry_at s3 K)]"
      using f3 K3 by (simp add: listed_def)
    also have "map (\<lambda>i. shown (entry_at s3 i)) [0..<K] = listed s"
      unfolding l1 [symmetric] using old s1(1) by (simp add: e3 entry_at_def [of s1])
    also have "shown (entry_at s3 K) = (cstr ?nm, ?d, st_atime st, st_mtime st, st_size st)"
      using sh by (simp add: e3 add.assoc)
    finally show ?thesis using m(1) by simp
  qed
  then show ?thesis using run inv3 by blast
qed

text \<open>
  One call of the callback: either the part was full and its send
  failed, or the entry is in the list, which may have been sent and started again before.
\<close>

lemma send_list_keeps:
  assumes "send_list E flag s tr = Some (r, s', tr')" "list_inv len pp h p s"
  shows "list_inv len pp h p (s'\<lparr>lc_usedsize := 0\<rparr>)"
  using send_list_inv [OF assms] by blast

lemma list_inv_entry:
  assumes run: "readDirInvoke E s (Some nm) 0 tr = Some (r, s', tr')" and inv: "list_inv len pp h p s"
    and ok: "r = EUSTOR_OK"
  shows "list_inv len pp h p s'"
proof -
  have u: "lc_usedsize s \<le> lc_size s" using inv by (auto simp: list_inv_def word_le_nat_alt)
  have stored: "list_inv len pp h p s2"
    if st: "(let (a, t) = do_call E (File (Stat (cstr nm))) t in if a_ret a \<noteq> 0 then Some (EUSTOR_OK, s1, t)
        else let (s1, t) = list_entry nm (a_stat a) s1 t in if (0 :: int) = 1 then list_finish E s1 t else Some (EUSTOR_OK, s1, t)) = Some (r2, s2, t2)"
      and i1: "list_inv len pp h p s1" and room: "273 \<le> unat (lc_size s1) - unat (lc_usedsize s1)" for s1 t r2 s2 t2
  proof -
    obtain a t3 where c: "do_call E (File (Stat (cstr nm))) t = (a, t3)" by fastforce
    from list_entry_inv [OF i1 room, of nm "a_stat a" t3] st c i1 show ?thesis
      by (auto split: if_splits)
  qed
  show ?thesis
  proof (cases "lc_size s - lc_usedsize s < 273")
    case False
    then have "273 \<le> unat (lc_size s) - unat (lc_usedsize s)"
      using u by (simp add: word_less_nat_alt unat_sub)
    then show ?thesis using run stored inv False by (simp add: readDirInvoke_def)
  next
    case True
    then obtain q s1 t1 where snd: "send_list E 0 s tr = Some (q, s1, t1)"
      and q: "q = EUSTOR_OK"
      and rest: "(let (a, t) = do_call E (File (Stat (cstr nm))) t1 in
        if a_ret a \<noteq> 0 then Some (EUSTOR_OK, s1\<lparr>lc_usedsize := 0\<rparr>, t)
        else let (s1, t) = list_entry nm (a_stat a) (s1\<lparr>lc_usedsize := 0\<rparr>) t in if (0 :: int) = 1 then list_finish E s1 t else Some (EUSTOR_OK, s1, t)) = Some (r, s', tr')"
      using run ok by (auto simp: readDirInvoke_def bind_eq_Some_conv split: if_splits)
    note i1 = send_list_keeps [OF snd inv]
    then have "273 \<le> unat (lc_size (s1\<lparr>lc_usedsize := 0\<rparr>)) - unat (lc_usedsize (s1\<lparr>lc_usedsize := 0\<rparr>))"
      by (simp add: list_inv_def)
    then show ?thesis using stored [OF rest i1] by blast
  qed
qed

text \<open>
  The whole request. After it the sender is ready for the next one, the buffer has its size and
  still holds the request it answered, whatever happened on the way.
\<close>

definition list_kept :: "nat \<Rightarrow> nat \<Rightarrow> fsOnDev \<Rightarrow> usPhoneinfo \<Rightarrow> int \<Rightarrow> listCallback \<Rightarrow> bool" where
  "list_kept len pp h p r s = (list_inv len pp h p (s\<lparr>lc_usedsize := 0\<rparr>) \<and> (r = EUSTOR_OK \<longrightarrow> list_inv len pp h p s))"

lemma list_inv_restart: "list_inv len pp h p s \<Longrightarrow> list_inv len pp h p (s\<lparr>lc_usedsize := 0\<rparr>)"
  by (simp add: list_inv_def)

lemma callback_kept:
  assumes run: "readDirInvoke E s (Some nm) 0 tr = Some (r, s', tr')" and inv: "list_inv len pp h p s"
  shows "list_kept len pp h p r s'"
proof (cases "r = EUSTOR_OK")
  case True
  then show ?thesis using list_inv_entry [OF run inv] list_inv_restart by (simp add: list_kept_def)
next
  case False
  obtain q s1 t1 where snd: "send_list E 0 s tr = Some (q, s1, t1)" and s': "s' = s1"
    using run False by (auto simp: readDirInvoke_def Let_def bind_eq_Some_conv split: if_splits prod.splits)
  then show ?thesis using send_list_keeps [OF snd inv] False by (simp add: list_kept_def)
qed

lemma finish_kept:
  assumes run: "list_finish E s tr = Some (r, s', tr')" and inv: "list_inv len pp h p s"
  shows "list_inv len pp h p (s'\<lparr>lc_usedsize := 0\<rparr>)"
proof -
  have b: "lc_buffer s + 5 \<le> length (lc_mem s)" "lc_proHeader s + 24 \<le> lc_buffer s"
    using inv by (auto simp: list_inv_def)
  then have "list_inv len pp h p (if lc_usedsize s = 0 then set_listhdr (\<lambda>l. l\<lparr>lr_fileNum := 0\<rparr>) s else s)"
    using inv b hdr_at_list [of s] by (auto simp: list_inv_def)
  then show ?thesis using send_list_keeps run unfolding list_finish_def by blast
qed

lemma list_handle_ok:
  assumes run: "usDecode_ListHandle E phone mem hp pp ptrLen tr = Some (r, phone', mem', tr')"
    and pre: "phone_ready phone" "36 \<le> hp" "pp = hp + 24" "278 \<le> unat ptrLen" "pp + unat ptrLen \<le> length mem"
  shows "phone_kept phone phone' \<and> answers mem hp mem'"
proof -
  let ?name = "peek mem pp MAX_PATH_SIZE" and ?h = "hdr_at mem hp" and ?len = "length mem"
  define s0 where "s0 = \<lparr>lc_buffer = pp, lc_size = (if LIST_MAX_BUFFER < ptrLen then LIST_MAX_BUFFER else ptrLen),
     lc_usedsize = 0, lc_proHeader = hp, lc_phone = phone, lc_mem = mem\<rparr>"
  have i0: "list_inv ?len pp ?h phone s0"
    using pre by (auto simp: s0_def list_inv_def word_less_nat_alt)
  have err: "phone_kept phone phone' \<and> answers mem hp mem'"
    if "send_error E p m hp t = Some (r, phone', mem', tr')" "phone_kept phone p" "answers mem hp m" for p m t
  proof -
    have l: "length m = length mem" "hp + 24 \<le> length m" using that(3) pre by (auto simp: answers_def)
    have rdy: "phone_ready p" using that(2) by (rule phone_kept_ready)
    have run: "usProtocol_SendPackage E p (fail_hdr m hp) hp PRO_HDR_SZIE t = Some (r, phone', mem', tr')"
      using that(1) by (simp add: send_error_def)
    have lf: "hp + 24 \<le> length (fail_hdr m hp)" using l by (simp add: fail_hdr_def)
    have "answers mem hp (fail_hdr m hp)" using answers_set that(3) l by blast
    moreover have "hdr_at mem' hp = hdr_at (fail_hdr m hp) hp"
      unfolding hdr_at_def by (rule phone_tp.header_kept [OF run rdy pre(2) lf])
    moreover have "length mem' = length (fail_hdr m hp)"
      by (rule phone_tp.length_kept [OF run rdy pre(2) lf])
    moreover have "phone_kept phone phone'" using send_kept [OF run rdy] that(2) phone_kept_trans by blast
    ultimately show ?thesis by (simp add: answers_def)
  qed
  let ?K = "\<lambda>r s (t :: trace). list_kept ?len pp ?h phone r s"
  have k0: "list_kept ?len pp ?h phone q s0" for q using i0 list_inv_restart by (simp add: list_kept_def)
  have lst: "list_inv ?len pp ?h phone (s1\<lparr>lc_usedsize := 0\<rparr>)"
    if "usDisk_diskList E ?name (readDirInvoke E) s0 t = Some (r1, s1, t1)" for t r1 s1 t1
  proof -
    obtain d t2 where c: "do_call E (File (Opendir (cstr ?name))) t = (d, t2)" by fastforce
    show ?thesis
    proof (cases "a_num d = 0")
      case True
      then show ?thesis using that c k0 by (simp add: usDisk_diskList_def list_kept_def)
    next
      case False
      then have l: "disk_list_loop E (a_num d) ?name (readDirInvoke E) s0 t2 = Some (r1, s1, t1)"
        using that c by (simp add: usDisk_diskList_def)
      let ?Q = "\<lambda>r s (t :: trace). list_inv ?len pp ?h phone (s\<lparr>lc_usedsize := 0\<rparr>)"
      have "case (r1, s1, t1) of (r, s, t) \<Rightarrow> ?Q r s t"
      proof (rule disk_list_loop_inv [where P = ?K and Q = ?Q, OF l])
        fix s nm ta q s' tb tc
        assume "?K EUSTOR_OK s tb" "nm = a_data (E ta (File (Readdir (a_num d))))"
          "readDirInvoke E s (Some (list_path ?name nm)) 0 tb = Some (q, s', tc)"
        then show "?K q s' tc" using callback_kept by (auto simp: list_kept_def)
      next
        fix s q s' tb tc
        assume k: "?K EUSTOR_OK s tb" and f: "readDirInvoke E s None 1 tb = Some (q, s', tc)"
        then have "list_finish E s tb = Some (q, s', tc)" by (simp add: readDirInvoke_def)
        then show "?Q q s' tc" using finish_kept k by (simp add: list_kept_def)
      qed (use k0 in \<open>simp_all add: list_kept_def\<close>)
      then show ?thesis by simp
    qed
  qed
  have fin: "phone_kept phone (lc_phone s1) \<and> answers mem hp (lc_mem s1)"
    if "list_inv ?len pp ?h phone (s1\<lparr>lc_usedsize := 0\<rparr>)" for s1
    using that pre(3) by (auto simp: list_inv_def answers_def)
  show ?thesis
  proof -
    obtain t1 where t1: "(let tr = fault_if (length mem < pp + MAX_PATH_SIZE) OutOfBounds tr;
        tr = fault_if (0 \<notin> set ?name) OutOfBounds tr in tr) = t1" by simp
    obtain a t2 where c: "do_call E (File (Stat (cstr ?name))) t1 = (a, t2)" by fastforce
    show ?thesis
    proof (cases "a_ret a \<noteq> 0 \<or> \<not> st_isdir (a_stat a)")
      case True
      then have "send_error E phone mem hp t2 = Some (r, phone', mem', tr')"
        using run c t1 by (simp add: usDecode_ListHandle_def Let_def)
      then show ?thesis using err pre(1) by simp
    next
      case False
      then obtain ret s1 t3 where d: "usDisk_diskList E ?name (readDirInvoke E) s0 t2 = Some (ret, s1, t3)"
        and rest: "(if ret = EUSTOR_DISK_LIST then send_error E (lc_phone s1) (lc_mem s1) hp t3
           else Some (EUSTOR_OK, lc_phone s1, lc_mem s1, t3)) = Some (r, phone', mem', tr')"
        using run c t1 by (auto simp: usDecode_ListHandle_def Let_def bind_eq_Some_conv s0_def)
      show ?thesis using rest fin [OF lst [OF d]] err by (auto split: if_splits)
    qed
  qed
qed

end
