(* ===== verification/Ustor_Event.thy ===== *)
theory Ustor_Event
  imports Ustor_Diskipc
begin

text \<open>
  usEvent.c: the event thread. It polls a netlink socket, on which the kernel announces devices,
  and a local socket, on which another process announces disks; it decodes the messages and
  calls back. The callbacks act on a state \<open>'s\<close> of the program that this component does not know.
\<close>

section \<open>Constants and data\<close>

definition PHONE_BUS_LOC :: bytes where "PHONE_BUS_LOC = str ''usb1/1-1/1-1.1''"
definition UPNPD_EVENT_IPC :: bytes where "UPNPD_EVENT_IPC = str ''/tmp/kinston.ipc''"

abbreviation UEVENT_BUFFER_SIZE :: nat where "UEVENT_BUFFER_SIZE \<equiv> 2048"
abbreviation UEVENT_NUM_ENVP :: nat where "UEVENT_NUM_ENVP \<equiv> 32"

text \<open>A string of the message is what \<open>char *\<close> points to, \<open>None\<close> for NULL.\<close>

record udevd_uevent_msg =
  um_action :: "bytes option"
  um_devpath :: "bytes option"
  um_subsystem :: "bytes option"
  um_devname :: "bytes option"
  um_devtype :: "bytes option"
  um_devt :: u64
  um_seqnum :: u64
  um_timeout :: u32
  um_envp :: "bytes list"

definition msg0 :: udevd_uevent_msg where
  "msg0 = \<lparr>um_action = None, um_devpath = None, um_subsystem = None, um_devname = None, um_devtype = None,
     um_devt = 0, um_seqnum = 0, um_timeout = 0, um_envp = []\<rparr>"

text \<open>The size of the struct without its flexible array, with the 4-byte pointers of the target.\<close>

abbreviation uevent_msg_size :: nat where "uevent_msg_size \<equiv> 176"

record 's usEventArg =
  eventDiskCall :: "(int \<Rightarrow> bytes \<Rightarrow> 's \<Rightarrow> trace \<Rightarrow> 's \<times> trace) option"
  eventPhoneCall :: "(int \<Rightarrow> 's \<Rightarrow> trace \<Rightarrow> 's \<times> trace) option"

section \<open>Decoding a message\<close>

text \<open>\<open>strtoull(s, NULL, 10)\<close>: leading white space, a sign, digits; too large a number saturates.\<close>

definition isdigit :: "u8 \<Rightarrow> bool" where "isdigit b = (48 \<le> b \<and> b \<le> 57)"
definition isspace :: "u8 \<Rightarrow> bool" where "isspace b = (b = 32 \<or> 9 \<le> b \<and> b \<le> 13)"

definition decimal :: "bytes \<Rightarrow> nat" where
  "decimal s = fold (\<lambda>b n. 10 * n + (unat b - 48)) (takeWhile isdigit s) 0"

definition strtoull :: "bytes \<Rightarrow> u64" where
  "strtoull s =
     (let s = dropWhile isspace (cstr s); neg = (starts_with (str ''-'') s);
          s = (if neg \<or> starts_with (str ''+'') s then tl s else s); n = decimal s
      in if 2 ^ 64 \<le> n then - 1 else if neg then - of_nat n else of_nat n)"

text \<open>\<open>makedev\<close> of the C library.\<close>

definition makedev :: "u32 \<Rightarrow> u32 \<Rightarrow> u64" where
  "makedev maj mnr =
     (push_bit 8 (ucast (maj AND 0xfff)) OR ucast (mnr AND 0xff) OR
      push_bit 12 (ucast (mnr AND 0xffffff00)) OR push_bit 32 (ucast (maj AND 0xfffff000)))"

text \<open>One \<open>KEY=value\<close> string; \<open>maj\<close> and \<open>mnr\<close> are kept beside the message until the end.\<close>

definition env_key :: "bytes \<Rightarrow> udevd_uevent_msg \<times> u32 \<times> u32 \<Rightarrow> udevd_uevent_msg \<times> u32 \<times> u32" where
  "env_key key s =
     (case s of (msg, maj, mnr) \<Rightarrow>
        let msg = msg\<lparr>um_envp := um_envp msg @ [key]\<rparr> in
        if starts_with (str ''ACTION='') key then (msg\<lparr>um_action := Some (drop 7 key)\<rparr>, maj, mnr)
        else if starts_with (str ''DEVPATH='') key then (msg\<lparr>um_devpath := Some (drop 8 key)\<rparr>, maj, mnr)
        else if starts_with (str ''SUBSYSTEM='') key then (msg\<lparr>um_subsystem := Some (drop 10 key)\<rparr>, maj, mnr)
        else if starts_with (str ''DEVNAME='') key then (msg\<lparr>um_devname := Some (drop 8 key)\<rparr>, maj, mnr)
        else if starts_with (str ''DEVTYPE='') key then (msg\<lparr>um_devtype := Some (drop 8 key)\<rparr>, maj, mnr)
        else if starts_with (str ''SEQNUM='') key then (msg\<lparr>um_seqnum := strtoull (drop 7 key)\<rparr>, maj, mnr)
        else if starts_with (str ''MAJOR='') key then (msg, ucast (strtoull (drop 6 key)), mnr)
        else if starts_with (str ''MINOR='') key then (msg, maj, ucast (strtoull (drop 6 key)))
        else if starts_with (str ''TIMEOUT='') key
        then (msg\<lparr>um_timeout := ucast (strtoull (drop 8 key))\<rparr>, maj, mnr)
        else (msg, maj, mnr))"

text \<open>The loop over the buffer, at most \<open>n\<close> times; \<open>buf\<close> is what is left of it.\<close>

fun env_loop :: "nat \<Rightarrow> bytes \<Rightarrow> udevd_uevent_msg \<times> u32 \<times> u32 \<Rightarrow> trace \<Rightarrow>
    (udevd_uevent_msg \<times> u32 \<times> u32) \<times> trace" where
  "env_loop 0 buf s tr = (s, tr)"
| "env_loop (Suc n) buf s tr =
     (if buf = [] then (s, tr)
      else env_loop n (drop (length (cstr buf) + 1) buf) (env_key (cstr buf) s)
        (fault_if (0 \<notin> set buf) OutOfBounds tr))"

text \<open>The address of the message is kept to free it.\<close>

definition get_msg_from_envbuf :: "os \<Rightarrow> bytes \<Rightarrow> trace \<Rightarrow> (ptr \<times> udevd_uevent_msg) option \<times> trace" where
  "get_msg_from_envbuf E buf tr =
     (let (a, tr) = do_call E (Sys (Calloc (uevent_msg_size + length buf))) tr; p = a_num a in
      if p = 0 then (None, tr)
      else
        let ((msg, maj, mnr), tr) = env_loop (UEVENT_NUM_ENVP - 2) buf (msg0, 0, 0) tr;
            msg = msg\<lparr>um_devt := makedev maj mnr, um_envp := um_envp msg @ [str ''UDEVD_EVENT=1'']\<rparr>
        in if um_devpath msg = None \<or> um_action msg = None
           then (None, just_call E (Sys (Free p)) tr)
           else (Some (p, msg), tr))"

section \<open>Acting on a message\<close>

definition disk_callback ::
    "'s usEventArg \<Rightarrow> int \<Rightarrow> bytes \<Rightarrow> 's \<Rightarrow> trace \<Rightarrow> 's \<times> trace" where
  "disk_callback conf action dev s tr =
     (case eventDiskCall conf of None \<Rightarrow> (s, tr) | Some f \<Rightarrow> f action dev s tr)"

definition phone_callback :: "'s usEventArg \<Rightarrow> int \<Rightarrow> 's \<Rightarrow> trace \<Rightarrow> 's \<times> trace" where
  "phone_callback conf state s tr =
     (case eventPhoneCall conf of None \<Rightarrow> (s, tr) | Some f \<Rightarrow> f state s tr)"

text \<open>
  \<open>/dev/<name>\<close>, made when it is missing; \<open>sprintf\<close> has 128 bytes. The result tells whether the
  device can be opened.
\<close>

definition dev_path :: "bytes \<Rightarrow> bytes" where
  "dev_path name = str ''/dev/'' @ cstr name"

definition open_dev :: "os \<Rightarrow> bytes \<Rightarrow> u64 \<Rightarrow> trace \<Rightarrow> bool \<times> trace" where
  "open_dev E name devt tr =
     (let devbuf = dev_path name; tr = fault_if (128 \<le> length devbuf) OutOfBounds tr;
          (r, tr) = ret_call E (File (Access devbuf)) tr;
          tr = (if r \<noteq> 0 then just_call E (File (Mknod devbuf devt)) tr else tr);
          (fd, tr) = ret_call E (File (Open devbuf O_RDONLY)) tr
      in if fd < 0 then (False, tr) else (True, just_call E (File (CloseFd fd)) tr))"

definition handleStoragePlug ::
    "os \<Rightarrow> 's usEventArg \<Rightarrow> udevd_uevent_msg \<Rightarrow> 's \<Rightarrow> trace \<Rightarrow> int \<times> 's \<times> trace" where
  "handleStoragePlug E conf msg s tr =
     (case (um_devname msg, um_action msg) of
        (Some name, Some action) \<Rightarrow>
          if \<not> starts_with (str ''sd'') name \<and> \<not> starts_with (str ''mmcblk'') name then (-1, s, tr)
          else if strcaseeq action (str ''add'') then
            let (opened, tr) = open_dev E name (um_devt msg) tr in
            if \<not> opened then (0, s, tr)
            else let (s, tr) = disk_callback conf 4 name s tr in (0, s, tr)
          else if strcaseeq action (str ''remove'') then
            let tr = fault_if (128 \<le> length (dev_path name)) OutOfBounds tr;
                (s, tr) = disk_callback conf 5 name s tr
            in (0, s, tr)
          else if strcaseeq action (str ''change'') then
            let (opened, tr) = open_dev E name (um_devt msg) tr;
                (s, tr) = disk_callback conf (if opened then 4 else 5) name s tr
            in (0, s, tr)
          else (0, s, tr)
      | _ \<Rightarrow> (-1, s, tr @ [Fault NullPtr]))"

definition handlePhonePlug ::
    "'s usEventArg \<Rightarrow> udevd_uevent_msg \<Rightarrow> 's \<Rightarrow> trace \<Rightarrow> int \<times> 's \<times> trace" where
  "handlePhonePlug conf msg s tr =
     (case um_action msg of
        None \<Rightarrow> (-1, s, tr @ [Fault NullPtr])
      | Some action \<Rightarrow>
          if strcaseeq action (str ''add'') then
            let (s, tr) = phone_callback conf 1 s tr in (0, s, tr)
          else if strcaseeq action (str ''remove'') then
            let (s, tr) = phone_callback conf 0 s tr in (0, s, tr)
          else (0, s, tr))"

text \<open>\<open>strstr(s, pat) != NULL\<close>.\<close>

fun contains :: "bytes \<Rightarrow> bytes \<Rightarrow> bool" where
  "contains pat [] = (pat = [])"
| "contains pat (b # s) = (take (length pat) (b # s) = pat \<or> contains pat s)"

text \<open>
  The build has \<open>USESYSTEM_DISKM == 1\<close> (usSys.h): a disk of the kernel's messages is left to the
  other process. The action in the payload must be that of the message's first string.
\<close>

definition uevent_dispatch ::
    "os \<Rightarrow> 's usEventArg \<Rightarrow> bytes \<Rightarrow> udevd_uevent_msg \<Rightarrow> 's \<Rightarrow> trace \<Rightarrow> int \<times> 's \<times> trace" where
  "uevent_dispatch E conf header msg s tr =
     (if 64 \<notin> set header then (-1, s, tr)
      else if um_action msg \<noteq> Some (takeWhile (\<lambda>b. b \<noteq> 64) header) then (-1, s, tr)
      else case (um_subsystem msg, um_devtype msg, um_devpath msg) of
        (Some subsystem, Some devtype, Some devpath) \<Rightarrow>
          if strcaseeq subsystem (str ''block'') \<and> strcaseeq devtype (str ''disk'') then (0, s, tr)
          else if contains PHONE_BUS_LOC devpath \<and> strcaseeq subsystem (str ''usb'') \<and>
            strcaseeq devtype (str ''usb_device'')
          then let (r, s, tr) = handlePhonePlug conf msg s tr in (0, s, tr)
          else (0, s, tr)
      | _ \<Rightarrow> (0, s, tr))"

text \<open>
  \<open>bufpos\<close> is one more than the length of the first string; when the message has no NUL at all
  it is beyond the message and the size given to \<open>memcpy\<close> is negative.
\<close>

definition handlePlug :: "os \<Rightarrow> 's usEventArg \<Rightarrow> int \<Rightarrow> 's \<Rightarrow> trace \<Rightarrow> int \<times> 's \<times> trace" where
  "handlePlug E conf sockfd s tr =
     (let (a, tr) = do_call E (Sys (RecvMsg sockfd (UEVENT_BUFFER_SIZE * 2))) tr in
      if a_ret a \<le> 0 then (-1, s, tr)
      else
        let size' = min (nat (a_ret a)) (UEVENT_BUFFER_SIZE * 2 - 1); buffer = take size' (a_data a);
            header = cstr buffer; bufpos = length header + 1
        in if size' < bufpos then (-1, s, tr @ [Fault OutOfBounds])
           else
             let (msg, tr) = get_msg_from_envbuf E (drop bufpos buffer) tr in
             case msg of None \<Rightarrow> (-1, s, tr)
             | Some (p, msg) \<Rightarrow>
               let (r, s, tr) = uevent_dispatch E conf header msg s tr
               in (r, s, just_call E (Sys (Free p)) tr))"

section \<open>The local socket\<close>

definition ipcRead :: "os \<Rightarrow> int \<Rightarrow> int \<Rightarrow> trace \<Rightarrow> int \<times> bytes \<times> trace" where
  "ipcRead E fd len tr = (if len \<le> 0 then (-1, [], tr) else ipc_read_loop E fd (nat len) tr)"

abbreviation eventBlock_size :: nat where "eventBlock_size \<equiv> 100"

definition handleIPC :: "os \<Rightarrow> 's usEventArg \<Rightarrow> int \<Rightarrow> 's \<Rightarrow> trace \<Rightarrow> int \<times> 's \<times> trace" where
  "handleIPC E conf sockfd s tr =
     (let (clientfd, tr) = ret_call E (Sys (Accept sockfd)) tr in
      if clientfd < 0 then (-1, s, tr)
      else
        let (r, evtMsg, tr) = ipcRead E clientfd (int eventBlock_size) tr;
            tr = just_call E (File (CloseFd clientfd)) tr
        in if r < 0 then (-1, s, tr)
           else
             let tr = fault_if (0 \<notin> set (peek evtMsg 0 32) \<or> 0 \<notin> set (peek evtMsg 32 32)) OutOfBounds tr;
                 (r, s, tr) = handleStoragePlug E conf
                   (msg0\<lparr>um_action := Some (cstr evtMsg), um_devname := Some (cstr (drop 32 evtMsg))\<rparr>) s tr
             in (0, s, tr))"

section \<open>The sockets and the loop\<close>

text \<open>Writing \<open>add\<close> to the bus's \<open>uevent\<close> file makes the kernel announce what is plugged in.\<close>

definition phone_uevent_path :: bytes where
  "phone_uevent_path = str ''/sys/bus/usb/devices/'' @ PHONE_BUS_LOC @ str ''/uevent''"

definition initNetlinkSock :: "os \<Rightarrow> trace \<Rightarrow> int \<times> trace" where
  "initNetlinkSock E tr =
     (let (sockfd, tr) = ret_call E (Sys (Socket 16)) tr in
      if sockfd = -1 then (-1, tr)
      else
        let (r, tr) = ret_call E (Sys (Bind sockfd [])) tr in
        if r < 0 then (-1, just_call E (File (CloseFd sockfd)) tr)
        else
          let (dev_fd, tr) = ret_call E (File (Open phone_uevent_path O_WRONLY)) tr;
              tr = (if dev_fd < 0 then tr else let (_, _, tr) = write_fd E dev_fd (str ''add'') tr in tr)
          in (sockfd, just_call E (File (CloseFd dev_fd)) tr))"

text \<open>The signal masks and handlers set at the end are not part of the model.\<close>

definition ipcServerInit :: "os \<Rightarrow> bytes \<Rightarrow> trace \<Rightarrow> int \<times> trace" where
  "ipcServerInit E path tr =
     (let (sock, tr) = ret_call E (Sys (Socket 1)) tr in
      if sock < 0 then (-1, tr)
      else
        let tr = just_call E (File (Unlink path)) tr;
            (r, tr) = ret_call E (Sys (Bind sock (take 107 (cstr path)))) tr in
        if r < 0 then (-1, just_call E (File (CloseFd sock)) tr)
        else
          let (r, tr) = ret_call E (Sys (Listen sock)) tr in
          if r < 0 then (-1, just_call E (File (CloseFd sock)) tr) else (sock, tr))"

text \<open>
  One round of \<open>while(1)\<close> in \<open>vs_eventFunc\<close>, from the sockets and the callbacks' state to the next.
  \<open>poll\<close> is given both entries of \<open>fds\<close> although one may not have been set.
\<close>

definition event_round ::
    "os \<Rightarrow> 's usEventArg \<Rightarrow> int \<times> int \<Rightarrow> 's \<Rightarrow> trace \<Rightarrow> (int \<times> int) \<times> 's \<times> trace" where
  "event_round E conf socks s tr =
     (let (plug, tr) = (if fst socks \<le> 0 then initNetlinkSock E tr else (fst socks, tr));
          (ipc, tr) = (if snd socks \<le> 0 then ipcServerInit E UPNPD_EVENT_IPC tr else (snd socks, tr)) in
      if plug \<le> 0 \<and> ipc \<le> 0 then ((plug, ipc), s, just_call E (Sys (Usleep 200000)) tr)
      else
        let tr = fault_if (plug \<le> 0 \<or> ipc \<le> 0) Uninitialised tr;
            (a, tr) = do_call E (Sys (Poll [plug, ipc])) tr in
        if a_ret a < 0 then
          ((plug, ipc), s, if a_ret a = -1 \<and> a_errno a = EINTR then tr else just_call E (Sys (Usleep 200000)) tr)
        else if a_ret a = 0 then ((plug, ipc), s, tr)
        else
          let ready = (\<lambda>i. i < length (a_list a) \<and> odd (a_list a ! i));
              (_, s, tr) = (if 0 < plug \<and> ready 0 then handlePlug E conf plug s tr else (0, s, tr));
              (_, s, tr) = (if 0 < ipc \<and> ready 1 then handleIPC E conf ipc s tr else (0, s, tr))
          in ((plug, ipc), s, tr))"

text \<open>Starting the thread; a failure is only logged.\<close>

definition usEvent_init :: "os \<Rightarrow> 's usEventArg option \<Rightarrow> 's usEventArg \<Rightarrow> trace \<Rightarrow> int \<times> 's usEventArg \<times> trace" where
  "usEvent_init E evarg eventConf tr =
     (EUSTOR_OK, case evarg of None \<Rightarrow> eventConf | Some c \<Rightarrow> c, just_call E (Sys ThreadCreate) tr)"

section \<open>The message is its environment\<close>

text \<open>
  The strings of a message, each with its NUL, are read one by one; the message has, for each key
  it knows, the value that the last of them gives it.
\<close>

definition packed :: "bytes list \<Rightarrow> bytes" where
  "packed keys = concat (map (\<lambda>k. k @ [0]) keys)"

lemma env_loop_packed:
  "\<forall>k\<in>set keys. 0 \<notin> set k \<Longrightarrow> env_loop n (packed keys) s tr = (fold env_key (take n keys) s, tr)"
proof (induction keys arbitrary: n s)
  case Nil
  then show ?case by (cases n) (simp_all add: packed_def)
next
  case (Cons k keys)
  show ?case
  proof (cases n)
    case (Suc m)
    have p: "packed (k # keys) = k @ 0 # packed keys" by (simp add: packed_def)
    then have "cstr (packed (k # keys)) = k" using Cons.prems by simp
    then show ?thesis using Cons Suc p by (simp add: fault_if_def)
  qed simp
qed

definition value_of :: "string \<Rightarrow> bytes list \<Rightarrow> bytes option" where
  "value_of name keys =
     (case filter (starts_with (str name)) (rev keys) of [] \<Rightarrow> None | k # _ \<Rightarrow> Some (drop (length name) k))"

lemma value_of_snoc:
  "value_of name (keys @ [k]) = (if starts_with (str name) k then Some (drop (length name) k) else value_of name keys)"
  by (simp add: value_of_def)

lemma value_of_Nil [simp]: "value_of name [] = None"
  by (simp add: value_of_def)

definition env_names :: "string list" where
  "env_names = [''ACTION='', ''DEVPATH='', ''SUBSYSTEM='', ''DEVNAME='', ''DEVTYPE='', ''SEQNUM='', ''MAJOR='',
     ''MINOR='', ''TIMEOUT='']"

lemma str_length [simp]: "length (str s) = length s"
  by (simp add: str_def)

lemma starts_with_take: "starts_with p s \<Longrightarrow> n \<le> length p \<Longrightarrow> take n p = take n (cstr s)"
  unfolding starts_with_def by (metis min.absorb1 take_take)

text \<open>No key is the start of another, so a string has at most one of them.\<close>

lemma env_names_apart:
  assumes "p \<in> set env_names" "q \<in> set env_names" "starts_with (str p) k" "starts_with (str q) k"
  shows "p = q"
proof -
  have "4 < length r" if "r \<in> set env_names" for r using that by (auto simp: env_names_def)
  then have "take 4 (str p) = take 4 (cstr k)" "take 4 (str q) = take 4 (cstr k)"
    using starts_with_take [OF assms(3), of 4] starts_with_take [OF assms(4), of 4] assms(1,2) by fastforce+
  then have "take 4 (str p) = take 4 (str q)" by simp
  moreover have "distinct (map (\<lambda>p. take 4 (str p)) env_names)" by code_simp
  ultimately show ?thesis using assms(1,2) by (auto simp: distinct_map dest: inj_onD)
qed

text \<open>The message of a list of strings.\<close>

definition msg_of :: "bytes list \<Rightarrow> udevd_uevent_msg" where
  "msg_of keys =
     \<lparr>um_action = value_of ''ACTION='' keys, um_devpath = value_of ''DEVPATH='' keys,
      um_subsystem = value_of ''SUBSYSTEM='' keys, um_devname = value_of ''DEVNAME='' keys,
      um_devtype = value_of ''DEVTYPE='' keys, um_devt = 0,
      um_seqnum = (case value_of ''SEQNUM='' keys of None \<Rightarrow> 0 | Some v \<Rightarrow> strtoull v),
      um_timeout = (case value_of ''TIMEOUT='' keys of None \<Rightarrow> 0 | Some v \<Rightarrow> ucast (strtoull v)),
      um_envp = keys\<rparr>"

definition number_of :: "string \<Rightarrow> bytes list \<Rightarrow> u32" where
  "number_of name keys = (case value_of name keys of None \<Rightarrow> 0 | Some v \<Rightarrow> ucast (strtoull v))"

lemma fold_env:
  "fold env_key keys (msg0, 0, 0) = (msg_of keys, number_of ''MAJOR='' keys, number_of ''MINOR='' keys)"
proof (induction keys rule: rev_induct)
  case Nil
  then show ?case by (simp add: msg_of_def msg0_def number_of_def)
next
  case (snoc k keys)
  show ?case
  proof (cases "\<exists>p\<in>set env_names. starts_with (str p) k")
    case False
    then show ?thesis using snoc.IH
      by (simp add: env_key_def msg_of_def number_of_def value_of_snoc Let_def env_names_def)
  next
    case True
    then obtain p where p: "p \<in> set env_names" "starts_with (str p) k" by blast
    then have "\<forall>q\<in>set env_names. starts_with (str q) k = (q = p)" using env_names_apart by blast
    then show ?thesis using p(1) snoc.IH
      by (simp add: env_names_def)
        (elim disjE; simp add: env_key_def msg_of_def number_of_def value_of_snoc Let_def eval_nat_numeral)
  qed
qed


text \<open>
  What a well-formed message of the kernel does: a phone on its bus that is added or removed is
  reported to the program, and nothing else is.
\<close>

definition phone_change :: "bytes list \<Rightarrow> int option" where
  "phone_change keys =
     (case (value_of ''SUBSYSTEM='' keys, value_of ''DEVTYPE='' keys, value_of ''DEVPATH='' keys, value_of ''ACTION='' keys) of
        (Some subsystem, Some devtype, Some devpath, Some action) \<Rightarrow>
          if strcaseeq subsystem (str ''usb'') \<and> strcaseeq devtype (str ''usb_device'') \<and> contains PHONE_BUS_LOC devpath
          then if strcaseeq action (str ''add'') then Some 1
            else if strcaseeq action (str ''remove'') then Some 0 else None
          else None
      | _ \<Rightarrow> None)"

definition kernel_message :: "bytes list \<Rightarrow> bytes \<Rightarrow> answer \<Rightarrow> bool" where
  "kernel_message keys header a =
     (a_data a = header @ 0 # packed keys \<and> a_ret a = int (length (a_data a)) \<and> length (a_data a) < 4096 \<and>
      0 \<notin> set header \<and> (\<forall>k\<in>set keys. 0 \<notin> set k) \<and> length keys \<le> 30 \<and> value_of ''DEVPATH='' keys \<noteq> None \<and>
      (\<exists>action path. value_of ''ACTION='' keys = Some action \<and> 64 \<notin> set action \<and> header = action @ 64 # path))"

lemma usb_not_block: "strcaseeq s (str ''usb'') \<Longrightarrow> \<not> strcaseeq s (str ''block'')"
  unfolding strcaseeq_def by (simp add: str_def cstr_def c_tolower_def)

lemma dispatch_phone:
  assumes "value_of ''DEVPATH='' keys = Some devpath" "value_of ''ACTION='' keys = Some action"
    "64 \<notin> set action"
  shows "fst (snd (uevent_dispatch E conf (action @ 64 # path) (msg_of keys\<lparr>um_devt := d, um_envp := ev\<rparr>) s t)) =
    (case phone_change keys of None \<Rightarrow> s | Some n \<Rightarrow> fst (phone_callback conf n s t))"
  using assms
  by (auto simp: uevent_dispatch_def msg_of_def phone_change_def handlePhonePlug_def case_prod_beta Let_def usb_not_block
      takeWhile_append split: option.split)

lemma plug_message:
  assumes m: "kernel_message keys header (E tr (Sys (RecvMsg sock 4096)))"
    and alloc: "\<forall>t n. a_num (E t (Sys (Calloc n))) \<noteq> 0"
  shows "\<exists>t. fst (snd (handlePlug E conf sock s tr)) =
    (case phone_change keys of None \<Rightarrow> s | Some n \<Rightarrow> fst (phone_callback conf n s t))"
proof -
  let ?a = "E tr (Sys (RecvMsg sock 4096))"
  obtain action path devpath where k: "value_of ''ACTION='' keys = Some action" "64 \<notin> set action"
    "header = action @ 64 # path" "value_of ''DEVPATH='' keys = Some devpath"
    using m by (auto simp: kernel_message_def)
  have d: "a_data ?a = header @ 0 # packed keys" "a_ret ?a = int (length (a_data ?a))" "length (a_data ?a) < 4096"
    "0 \<notin> set header" "\<forall>k\<in>set keys. 0 \<notin> set k" "length keys \<le> 30"
    using m by (auto simp: kernel_message_def)
  let ?t1 = "tr @ [Did (Sys (RecvMsg sock 4096)) ?a]"
  obtain p d' ev t2 where g: "get_msg_from_envbuf E (packed keys) ?t1 = (Some (p, msg_of keys\<lparr>um_devt := d', um_envp := ev\<rparr>), t2)"
    using alloc d(5,6) k(1,4)
    by (simp add: get_msg_from_envbuf_def do_call_eq env_loop_packed fold_env Let_def msg_of_def)
  have h: "cstr (a_data ?a) = header" using d(1,4) by simp
  have n: "0 < a_ret ?a" "nat (a_ret ?a) = Suc (length header + length (packed keys))" using d(1,2) by simp_all
  have "fst (snd (handlePlug E conf sock s tr)) =
      fst (snd (uevent_dispatch E conf header (msg_of keys\<lparr>um_devt := d', um_envp := ev\<rparr>) s t2))"
    using d(3) n g h d(1) by (simp add: handlePlug_def do_call_eq case_prod_beta Let_def)
  then show ?thesis using dispatch_phone [OF k(4,1,2)] k(3) by (intro exI [of _ t2]) simp
qed

section \<open>What the callbacks keep\<close>

text \<open>The thread changes the program's state only through its callbacks.\<close>

locale event_client =
  fixes conf :: "'s usEventArg" and inv :: "'s \<Rightarrow> bool"
  assumes disk_law: "eventDiskCall conf = Some f \<Longrightarrow> inv s \<Longrightarrow> inv (fst (f action dev s tr))"
    and phone_law: "eventPhoneCall conf = Some g \<Longrightarrow> inv s \<Longrightarrow> inv (fst (g state s tr))"
begin

lemma callbacks_inv:
  "inv s \<Longrightarrow> inv (fst (disk_callback conf action dev s tr))"
  "inv s \<Longrightarrow> inv (fst (phone_callback conf state s tr))"
  by (simp_all add: disk_callback_def phone_callback_def disk_law phone_law split: option.split)

lemma storage_inv: "inv s \<Longrightarrow> inv (fst (snd (handleStoragePlug E conf msg s tr)))"
  by (simp add: handleStoragePlug_def case_prod_beta Let_def callbacks_inv split: option.split)

lemma plug_inv: "inv s \<Longrightarrow> inv (fst (snd (handlePlug E conf fd s tr)))"
  by (simp add: handlePlug_def uevent_dispatch_def handlePhonePlug_def case_prod_beta Let_def callbacks_inv
      split: option.split)

lemma ipc_inv: "inv s \<Longrightarrow> inv (fst (snd (handleIPC E conf fd s tr)))"
  by (simp add: handleIPC_def case_prod_beta Let_def storage_inv)

lemma round_inv: "inv s \<Longrightarrow> inv (fst (snd (event_round E conf socks s tr)))"
  by (simp add: event_round_def case_prod_beta Let_def plug_inv ipc_inv)

end

end
