(* ===== verification/Ustor_Storage.thy ===== *)
theory Ustor_Storage
  imports Ustor_List Ustor_Event
begin

text \<open>
  usStorage.c: the program's buffer, receiving a request and dispatching it to its handler. Every
  request gets one reply that fits the buffer, and the program can go on whatever happened.
\<close>

section \<open>State\<close>

abbreviation US_RESERVED_SIZE :: nat where "US_RESERVED_SIZE \<equiv> 512"
abbreviation US_BUFFER_SIZE :: nat where "US_BUFFER_SIZE \<equiv> 266904"

datatype connect_state = CON_INIT | CON_CNTING | CON_CNTED

text \<open>\<open>uspayload\<close> points into \<open>usbuf\<close>; it is kept as an offset.\<close>

record usStor =
  us_phone :: usPhoneinfo
  us_usbuf :: bytes
  us_uspaylen :: int
  us_uspayload :: nat

definition usStorage_init :: usStor where
  "usStorage_init = \<lparr>us_phone = usPhoneinfo0, us_usbuf = zeros US_BUFFER_SIZE,
     us_uspaylen = int (US_BUFFER_SIZE - US_RESERVED_SIZE), us_uspayload = US_RESERVED_SIZE\<rparr>"

section \<open>Receiving a request\<close>

text \<open>
  \<open>curSize\<close>, \<open>totalSize\<close> and \<open>paySize\<close> are unsigned, and so is the room left, \<open>bufSize - curSize\<close>;
  \<open>paySize\<close> keeps its value when the transport does not set it.
\<close>

partial_function (option) recv_rest ::
    "os \<Rightarrow> nat \<Rightarrow> int \<Rightarrow> u32 \<Rightarrow> usPhoneinfo \<Rightarrow> bytes \<Rightarrow> u32 \<Rightarrow> u32 \<Rightarrow> trace \<Rightarrow>
     (int \<times> usPhoneinfo \<times> bytes \<times> trace) option" where
  "recv_rest E off bufSize totalSize phone mem paySize curSize tr =
     (if curSize < totalSize then do {
        (res, phone, mem, rsize, tr) \<leftarrow> usProtocol_RecvPackage E phone mem (off + unat curSize)
           (unat (word_of_int bufSize - curSize)) tr;
        let paySize = (case rsize of None \<Rightarrow> paySize | Some n \<Rightarrow> n) in
        if res \<noteq> EUSTOR_OK then Some (res, phone, mem, tr)
        else recv_rest E off bufSize totalSize phone mem paySize (curSize + paySize) tr
      }
      else Some (EUSTOR_OK, phone, mem, tr))"

declare recv_rest.simps [code]

definition usStorage_RecvPackage ::
    "os \<Rightarrow> usPhoneinfo \<Rightarrow> bytes \<Rightarrow> nat \<Rightarrow> int \<Rightarrow> trace \<Rightarrow> (int \<times> usPhoneinfo \<times> bytes \<times> u32 \<times> trace) option" where
  "usStorage_RecvPackage E phone mem off bufSize tr = do {
     (res, phone, mem, rsize, tr) \<leftarrow> usProtocol_RecvPackage E phone mem off (nat (bufSize mod 2 ^ 32)) tr;
     let paySize = (case rsize of None \<Rightarrow> 0 | Some n \<Rightarrow> n) in
     if res \<noteq> EUSTOR_OK \<or> unat paySize < PRO_HDR_SZIE then Some (res, phone, mem, 0, tr)
     else
       let headMagic = get32 mem off in
       if headMagic = PRO_BASIC_MAGIC \<or> headMagic = SCSI_PHONE_MAGIC
       then Some (EUSTOR_OK, phone, mem, paySize, tr)
       else if headMagic \<noteq> PRO_FSONDEV_MAGIC then Some (EUSTOR_OK, phone, mem, 0, tr)
       else
         let totalSize = fs_len (hdr_at mem off) + of_nat PRO_HDR_SZIE in
         if bufSize < sint totalSize then Some (EUSTOR_OK, phone, mem, 0, tr)
         else do {
           (res, phone, mem, tr) \<leftarrow> recv_rest E off bufSize totalSize phone mem paySize paySize tr;
           Some (res, phone, mem, if res = EUSTOR_OK then totalSize else 0, tr)
         }
   }"

section \<open>Dispatching a request\<close>

text \<open>
  What the handlers work on: the phone, the buffer, the notification slot and the firmware
  file. \<open>c\<close> is what the stack holds where \<open>compute_md5\<close> keeps its context.
\<close>

record device =
  dv_phone :: usPhoneinfo
  dv_mem :: bytes
  dv_notify :: nofiyStruct
  dv_fd :: int

definition send_reply :: "os \<Rightarrow> nat \<Rightarrow> u32 \<Rightarrow> device \<Rightarrow> trace \<Rightarrow> (int \<times> device \<times> trace) option" where
  "send_reply E hp sndSize d tr = do {
     (res, phone, mem, tr) \<leftarrow> usProtocol_SendPackage E (dv_phone d) (dv_mem d) hp (unat sndSize) tr;
     Some (res, d\<lparr>dv_phone := phone, dv_mem := mem\<rparr>, tr)
   }"

text \<open>The reply with the payload the handler left, and the one that is the header alone.\<close>

definition send_payload :: "os \<Rightarrow> nat \<Rightarrow> device \<Rightarrow> trace \<Rightarrow> (int \<times> device \<times> trace) option" where
  "send_payload E hp d tr = send_reply E hp (24 + fs_len (hdr_at (dv_mem d) hp)) d tr"

definition send_header :: "os \<Rightarrow> nat \<Rightarrow> device \<Rightarrow> trace \<Rightarrow> (int \<times> device \<times> trace) option" where
  "send_header E hp d tr = send_reply E hp 24 d tr"

definition usStorage_ProtocolHandle ::
    "os \<Rightarrow> MD5_CTX \<Rightarrow> nat \<Rightarrow> u32 \<Rightarrow> u32 \<Rightarrow> device \<Rightarrow> trace \<Rightarrow> (int \<times> device \<times> trace) option" where
  "usStorage_ProtocolHandle E c hp buffsize paylength d tr =
     (let mem = dv_mem d; h = hdr_at mem hp; headLen = 24; pp = hp + 24; ctrid = fs_ctrid h in
      if fs_head h = PRO_BASIC_MAGIC then
        let b = (dec_headInfo (drop hp mem))\<lparr>hi_relag := 0\<rparr>
        in send_header E hp (d\<lparr>dv_mem := poke mem hp (enc_headInfo (snd (usDecode_BasicMagicHandle b)))\<rparr>) tr
      else if fs_head h = SCSI_PHONE_MAGIC then
        send_header E hp (d\<lparr>dv_mem := poke mem hp
          (enc_scsi_head ((dec_scsi_head (drop hp mem))\<lparr>sc_relag := 1\<rparr>))\<rparr>) tr
      else if ctrid = USTOR_FSONDEV_READ then do {
        (_, mem, tr) \<leftarrow> usDecode_ReadHandle E mem hp pp (buffsize - headLen) tr;
        send_payload E hp (d\<lparr>dv_mem := mem\<rparr>) tr
      }
      else if ctrid = USTOR_FSONDEV_WRITE then do {
        (_, mem, tr) \<leftarrow> usDecode_WriteHandle E mem hp pp (paylength - headLen) tr;
        send_header E hp (d\<lparr>dv_mem := mem\<rparr>) tr
      }
      else if ctrid = USTOR_FSONDEV_CREATE then
        let (_, mem, tr) = usDecode_CreateHandle E mem hp pp tr in send_header E hp (d\<lparr>dv_mem := mem\<rparr>) tr
      else if ctrid = USTOR_FSONDEV_DELETE then
        let (_, mem, tr) = usDecode_DeleteHandle E mem hp pp tr in send_header E hp (d\<lparr>dv_mem := mem\<rparr>) tr
      else if ctrid = USTOR_FSONDEV_MOVE then
        let (_, mem, tr) = usDecode_MoveHandle E mem hp pp tr in send_header E hp (d\<lparr>dv_mem := mem\<rparr>) tr
      else if ctrid = USTOR_FSONDEV_LIST then do {
        (_, phone, mem, tr) \<leftarrow> usDecode_ListHandle E (dv_phone d) mem hp pp (buffsize - headLen) tr;
        Some (EUSTOR_OK, d\<lparr>dv_phone := phone, dv_mem := mem\<rparr>, tr)
      }
      else if ctrid = USTOR_FSONDEV_DISKINFO then
        let (_, mem, nf, tr) = usDecode_DiskInfoHandle E mem hp pp (buffsize - headLen) (dv_notify d) tr
        in send_payload E hp (d\<lparr>dv_mem := mem, dv_notify := nf\<rparr>) tr
      else if ctrid = USTOR_FSONDEV_DISKLUN then do {
        (_, mem, nf, tr) \<leftarrow> usDecode_DiskLunHandle E mem hp pp (buffsize - headLen) (dv_notify d) tr;
        send_payload E hp (d\<lparr>dv_mem := mem, dv_notify := nf\<rparr>) tr
      }
      else if ctrid = USTOR_FSONDEV_FIRMWARE_INFO then do {
        (_, mem, tr) \<leftarrow> usDecode_GetFirmwareInfoHandle E mem hp pp (buffsize - headLen) tr;
        send_payload E hp (d\<lparr>dv_mem := mem\<rparr>) tr
      }
      else if ctrid = USTOR_FSONDEV_UPDATE_START \<or> ctrid = USTOR_FSONDEV_UPDATE_DATA \<or>
        ctrid = USTOR_FSONDEV_UPDATE_END then do {
        (_, fd, mem, tr) \<leftarrow> usDecode_UpgradeFirmwareHandle E c (dv_fd d) mem hp pp (paylength - headLen) tr;
        send_payload E hp (d\<lparr>dv_mem := mem, dv_fd := fd\<rparr>) tr
      }
      else if ctrid = USTOR_FSONDEV_SAFEREMOVE then send_reply E hp 0 d tr
      else if ctrid = USTOR_FSONDEV_FILE_INFO then
        let (_, mem, tr) = usDecode_GetFileInfoHandle E mem hp pp tr in send_payload E hp (d\<lparr>dv_mem := mem\<rparr>) tr
      else if ctrid = USTOR_FSONDEV_SYNC_TIME then
        let (_, mem, tr) = usDecode_SyncSystemTimeHandle E mem hp pp (paylength - headLen) tr
        in send_payload E hp (d\<lparr>dv_mem := mem\<rparr>) tr
      else if ctrid = USTOR_FSONDEV_SYNC_WRITE then
        let (_, mem, tr) = usDecode_SyncCacheHandle E mem hp tr in send_payload E hp (d\<lparr>dv_mem := mem\<rparr>) tr
      else send_header E hp (d\<lparr>dv_mem := fail_hdr mem hp\<rparr>) tr)"

section \<open>What receiving keeps\<close>

lemma recv_rest_kept:
  "recv_rest E off bufSize tot p mem pay cur tr = Some y \<Longrightarrow> phone_ready p \<Longrightarrow>
   phone_kept p (fst (snd y)) \<and> length (fst (snd (snd y))) = length mem"
proof (induct rule: recv_rest.raw_induct [rotated, consumes 1, case_names step])
  case (step loop E off bufSize tot p mem pay cur tr y)
  show ?case
  proof (cases "cur < tot")
    case False
    then show ?thesis using step by auto
  next
    case True
    then obtain r p1 m1 k t1 where
      r: "usProtocol_RecvPackage E p mem (off + unat cur) (unat (word_of_int bufSize - cur)) tr = Some (r, p1, m1, k, t1)"
      and rest: "(let paySize = (case k of None \<Rightarrow> pay | Some n \<Rightarrow> n) in if r \<noteq> EUSTOR_OK then Some (r, p1, m1, t1)
        else loop E off bufSize tot p1 m1 paySize (cur + paySize) t1) = Some y"
      using step.hyps(2) by (auto simp: bind_eq_Some_conv)
    note k1 = recv_kept [OF r step.prems]
    show ?thesis
    proof (cases "r = EUSTOR_OK")
      case False
      then show ?thesis using rest k1 by auto
    next
      case True
      then have "phone_kept p1 (fst (snd y)) \<and> length (fst (snd (snd y))) = length m1"
        using rest step.hyps(1) phone_kept_ready [OF conjunct1 [OF k1]] by (simp add: Let_def)
      then show ?thesis using k1 phone_kept_trans by simp blast
    qed
  qed
qed

lemma recv_package_kept:
  "usStorage_RecvPackage E p mem off bufSize tr = Some (r, p', mem', n, tr') \<Longrightarrow> phone_ready p \<Longrightarrow>
   phone_kept p p' \<and> length mem' = length mem"
  apply (auto simp: usStorage_RecvPackage_def bind_eq_Some_conv Let_def split: if_splits dest!: recv_kept)
  apply (auto dest!: recv_rest_kept simp: phone_kept_ready intro: phone_kept_trans)
  done

section \<open>Every reply fits the buffer\<close>

definition fits :: "nat \<Rightarrow> bytes \<Rightarrow> nat \<Rightarrow> bool" where
  "fits n mem hp = (24 + unat (fs_len (hdr_at mem hp)) \<le> n)"

lemma fits_set [simp]:
  "hp + 24 \<le> length mem \<Longrightarrow> fits n (fail_hdr mem hp) hp = (24 \<le> n)"
  "hp + 24 \<le> length mem \<Longrightarrow> fits n (len_hdr k mem hp) hp = (24 + unat k \<le> n)"
  "hp + 24 \<le> length mem \<Longrightarrow> fits n (relag_hdr mem hp) hp = fits n mem hp"
  by (simp_all add: fits_def hdr_setters)

lemma fits_answer:
  assumes "hp + 24 \<le> length mem" "24 \<le> n" "r = EUSTOR_OK \<longrightarrow> used = None \<longrightarrow> fits n mem hp"
    "case used of None \<Rightarrow> True | Some k \<Rightarrow> 0 \<le> k \<and> 24 + k \<le> int n \<and> k < 2 ^ 32"
  shows "fits n (disk_answer r used mem hp) hp"
  using assms by (cases used) (auto simp: disk_answer_def Let_def unat_of_small_int)

lemma disk_read_loop_len:
  "disk_read_loop E fd n trueRead acc tr = Some y \<Longrightarrow> 0 < n \<and> n < 2 ^ 31 \<and> int (length acc) \<le> n \<Longrightarrow>
   int (length (fst (snd y))) \<le> n \<and> (\<forall>k. fst (snd (snd y)) = Some k \<longrightarrow> 0 \<le> k \<and> k \<le> n)"
proof (induct rule: disk_read_loop.raw_induct [rotated, consumes 1, case_names step])
  case (step loop E fd n trueRead acc tr y)
  obtain res data e t where r: "read_fd E fd (io_count n (int (length acc))) tr = (res, data, e, t)" by (metis prod_cases4)
  have "int (io_count n (int (length acc))) = n - int (length acc)"
    using step.prems by (auto simp: io_count_def)
  then have l: "int (length (acc @ data)) \<le> n"
    using r step.prems by (auto simp: read_fd_def do_call_eq Let_def split: if_splits)
  show ?case
    using step.hyps(2) step.hyps(1) [of E fd n trueRead "acc @ data" t y] step.prems l
    by (auto simp: r Let_def split: if_splits)
qed

lemma disk_read_len:
  "usDisk_diskRead E path off n True tr = Some (r, data, k, tr') \<Longrightarrow> 0 \<le> n \<Longrightarrow> n < 2147483648 \<Longrightarrow>
   int (length data) \<le> n \<and> (case k of None \<Rightarrow> True | Some k \<Rightarrow> 0 \<le> k \<and> k \<le> n)"
  by (cases "n = 0") (auto simp: usDisk_diskRead_def Let_def case_prod_beta split: if_splits option.split dest!: disk_read_loop_len)

lemma disk_read_count:
  assumes "usDisk_diskRead E path off n True tr = Some (r, data, Some k, tr')" "0 \<le> n" "n < 2147483648"
  shows "unat (word_of_int k :: u32) \<le> nat n"
  using disk_read_len [OF assms] assms(3) by (simp add: unat_of_small_int nat_mono)

lemma read_fits:
  assumes run: "usDecode_ReadHandle E mem hp pp k tr = Some (r, mem', tr')" and "hp + 24 \<le> pp" "hp + 24 \<le> length mem"
    and k: "24 + unat k \<le> n" "unat k < 2147483648"
  shows "fits n mem' hp"
proof -
  let ?i = "dec_operation_rw (drop pp mem)"
  have s: "rw_size ?i \<le> k \<Longrightarrow> 0 \<le> sint (rw_size ?i) \<and> sint (rw_size ?i) < 2147483648 \<and> nat (sint (rw_size ?i)) \<le> unat k"
  proof -
    assume a: "rw_size ?i \<le> k"
    then have u: "unat (rw_size ?i) \<le> unat k" by (simp add: word_le_nat_alt)
    then have e: "sint (rw_size ?i) = int (unat (rw_size ?i))" using k(2) by (intro sint_small) linarith
    show ?thesis unfolding e nat_int using u k(2) by (intro conjI) linarith+
  qed
  have l: "hp + 24 \<le> length (fst (memcpy mem pp d t))" for d t using assms(3) by simp
  show ?thesis
    using run s k l assms(3)
    by (auto simp: usDecode_ReadHandle_def Let_def case_prod_beta bind_eq_Some_conv split: if_splits option.splits
        dest!: disk_read_count)
qed


lemma lun_used:
  "disk_lun_loop E reply mem off bsize n cur room tr = Some y \<Longrightarrow> 0 \<le> room \<and> room \<le> bsize \<Longrightarrow>
   0 \<le> fst (snd y) \<and> fst (snd y) \<le> bsize"
proof (induct rule: disk_lun_loop.raw_induct [rotated, consumes 1, case_names step])
  case (step loop E reply mem off bsize n cur room tr y)
  have l: "loop E reply m off bsize j c rm t = Some y \<Longrightarrow> 0 \<le> rm \<and> rm \<le> bsize \<Longrightarrow> ?case" for m j c rm t
    using step.hyps(1) by blast
  show ?case
    using step.hyps(2) step.prems l by (auto simp: Let_def split: if_splits prod.splits)
qed

lemma lun_fits:
  assumes "usDecode_DiskLunHandle E mem hp pp k nf tr = Some (r, mem', nf', tr')" "hp + 24 \<le> pp" "pp + 2 \<le> length mem"
    and k: "24 + unat k \<le> n" "2 \<le> unat k" "unat k < 2147483648"
  shows "fits n mem' hp"
proof -
  have "sint k = int (unat k)" using k(3) by (rule sint_small)
  then have b: "2 \<le> sint k" "24 + sint k \<le> int n" "sint k < 2147483648" using k by linarith+
  have l: "hp + 24 \<le> length mem" using assms(2,3) by simp
  have q: "length m = length mem \<and> (case u of None \<Rightarrow> True | Some x \<Rightarrow> 0 \<le> x \<and> 24 + x \<le> int n \<and> x < 2 ^ 32) \<and>
    (q = DISK_SUCCESS \<longrightarrow> u \<noteq> None)"
    if g: "disk_getdisk_lun E mem pp (sint k) t = Some (q, m, u, t')" for q m u t t'
  proof -
    consider "u = None" "q \<noteq> DISK_SUCCESS"
      | reply t1 x where "u = Some x" "disk_lun_loop E reply mem pp (sint k) 0 0 (sint k - 2) t1 = Some (m, x, t')"
      using g by (auto simp: disk_getdisk_lun_def Let_def bind_eq_Some_conv split: option.splits if_splits prod.splits)
    then show ?thesis
    proof cases
      case 1
      then show ?thesis using disk_lun_answers [OF g assms(2,3)] by (simp add: answers_def)
    next
      case 2
      have "0 \<le> x \<and> x \<le> sint k" using lun_used [OF 2(2)] b(1) by simp
      then show ?thesis using disk_lun_answers [OF g assms(2,3)] 2(1) b by (simp add: answers_def)
    qed
  qed
  show ?thesis
  proof (cases "fs_version (hdr_at mem hp) = PRO_FSONDEV_VER1")
    case True
    then obtain q m u t' where
      g: "disk_getdisk_lun E mem pp (sint k) (just_call E (Sys MutexLock) tr) = Some (q, m, u, t')"
      and "mem' = disk_answer (if q = DISK_SUCCESS then EUSTOR_OK else EUSTOR_DISK_LUN) u m hp"
      using assms(1) by (auto simp: usDecode_DiskLunHandle_def usDisk_diskLun_def Let_def bind_eq_Some_conv)
    then show ?thesis using q [OF g] l k by (auto intro!: fits_answer)
  qed (use assms(1) l k in \<open>auto simp: usDecode_DiskLunHandle_def\<close>)
qed

lemma info_disk_fits:
  assumes "usDecode_DiskInfoHandle E mem hp pp k nf tr = (r, mem', nf', tr')" "hp + 24 \<le> pp" "pp + 2 \<le> length mem"
    and k: "24 + unat k \<le> n" "unat k < 2147483648"
  shows "fits n mem' hp"
proof -
  have "sint k = int (unat k)" using k(2) by (rule sint_small)
  then have b: "24 + sint k \<le> int n" "sint k < 2147483648" using k by linarith+
  have l: "hp + 24 \<le> length mem" using assms(2,3) by simp
  have "length m = length mem" "case u of None \<Rightarrow> True | Some x \<Rightarrow> 0 \<le> x \<and> 24 + x \<le> int n \<and> x < 2 ^ 32"
    "q = DISK_SUCCESS \<longrightarrow> u \<noteq> None"
    if "disk_getdisk_info E mem pp (sint k) t = (q, m, u, t')" for q m u t t'
    using disk_info_answers [OF that assms(2)] that b
    by (auto simp: disk_getdisk_info_def answers_def Let_def split: option.splits if_splits prod.splits)
  note q = this
  show ?thesis
  proof (cases "fs_version (hdr_at mem hp) = PRO_FSONDEV_VER1")
    case True
    obtain q m u t' where
      g: "disk_getdisk_info E mem pp (sint k) (just_call E (Sys MutexLock) tr) = (q, m, u, t')" by (metis prod_cases4)
    have "mem' = disk_answer (if q = DISK_SUCCESS then EUSTOR_OK else EUSTOR_DISK_LUN) u m hp"
      using assms(1) True g by (simp add: usDecode_DiskInfoHandle_def usDisk_diskInfo_def Let_def)
    then show ?thesis using q [OF g] l k by (auto intro!: fits_answer)
  qed (use assms(1) l k in \<open>auto simp: usDecode_DiskInfoHandle_def\<close>)
qed

lemma firmware_fits:
  assumes "usDecode_GetFirmwareInfoHandle E mem hp pp k tr = Some (r, mem', tr')" "hp + 24 \<le> length mem" "280 \<le> n"
  shows "fits n mem' hp"
proof -
  have "length m = length mem" "u = None \<or> u = Some 256" "q = EUSTOR_OK \<longrightarrow> u \<noteq> None"
    if "usFirmware_GetInfo E mem pp (sint k) tr = Some (q, m, u, t')" for q m u t'
    using that unfolding usFirmware_GetInfo_def Let_def case_prod_beta
    by (auto simp: bind_eq_Some_conv split: if_splits)
  then show ?thesis
    using assms by (fastforce simp: usDecode_GetFirmwareInfoHandle_def bind_eq_Some_conv intro!: fits_answer)
qed


lemma edit_len:
  "usDecode_WriteHandle E mem hp pp n tr = Some (r, mem', tr') \<Longrightarrow> hp + 24 \<le> length mem \<Longrightarrow> fs_len (hdr_at mem' hp) = 0"
  "usDecode_CreateHandle E mem hp pp tr = (r, mem', tr') \<Longrightarrow> hp + 24 \<le> length mem \<Longrightarrow> fs_len (hdr_at mem' hp) = 0"
  "usDecode_DeleteHandle E mem hp pp tr = (r, mem', tr') \<Longrightarrow> hp + 24 \<le> length mem \<Longrightarrow> fs_len (hdr_at mem' hp) = 0"
  "usDecode_MoveHandle E mem hp pp tr = (r, mem', tr') \<Longrightarrow> hp + 24 \<le> length mem \<Longrightarrow> fs_len (hdr_at mem' hp) = 0"
  by (auto simp: usDecode_WriteHandle_def usDecode_CreateHandle_def usDecode_DeleteHandle_def usDecode_MoveHandle_def
      Let_def bind_eq_Some_conv hdr_setters split: if_splits prod.splits)

lemma small_fits:
  "usDecode_UpgradeFirmwareHandle E c fd mem hp pp k tr = Some (r, fd', mem', tr') \<Longrightarrow> hp + 24 \<le> length mem \<Longrightarrow>
   24 \<le> n \<Longrightarrow> fits n mem hp \<Longrightarrow> fits n mem' hp"
  "usDecode_GetFileInfoHandle E mem hp pp tr = (r, mem', tr') \<Longrightarrow> hp + 24 \<le> length mem \<Longrightarrow> 297 \<le> n \<Longrightarrow> fits n mem' hp"
  "usDecode_SyncSystemTimeHandle E mem hp pp k tr = (r, mem', tr') \<Longrightarrow> hp + 24 \<le> length mem \<Longrightarrow> 24 \<le> n \<Longrightarrow> fits n mem' hp"
  "usDecode_SyncCacheHandle E mem hp tr = (r, mem', tr') \<Longrightarrow> hp + 24 \<le> length mem \<Longrightarrow> 24 \<le> n \<Longrightarrow> fits n mem' hp"
  by (auto simp: usDecode_UpgradeFirmwareHandle_def usDecode_GetFileInfoHandle_def usDecode_SyncSystemTimeHandle_def
      usDecode_SyncCacheHandle_def Let_def bind_eq_Some_conv split: if_splits prod.splits dest!: put_fileinfo_before)

section \<open>Every request is answered\<close>

text \<open>A message that answers \<open>h\<close>: the request's fields, and as much payload as its header says.\<close>

definition reply_to :: "fsOnDev \<Rightarrow> bytes \<Rightarrow> bool" where
  "reply_to h msg = (same_request h (dec_fsOnDev msg) \<and> length msg = 24 + unat (fs_len (dec_fsOnDev msg)))"

lemma send_reply_ok:
  assumes run: "send_reply E hp k d tr = Some (r, d', tr')"
    and ready: "phone_ready (dv_phone d)" and k: "unat k = 24 + unat (fs_len (hdr_at (dv_mem d) hp))"
    and room: "36 \<le> hp" "hp + unat k \<le> length (dv_mem d)"
    and a: "answers mem hp (dv_mem d)"
  shows "r = EUSTOR_OK \<longrightarrow> (\<exists>msg. phone_carried (dv_phone d) tr tr' msg \<and> reply_to (hdr_at mem hp) msg)"
proof
  assume ok: "r = EUSTOR_OK"
  let ?msg = "peek (dv_mem d) hp (unat k)"
  have "phone_carried (dv_phone d) tr tr' ?msg"
    using run phone_tp.send_law [OF _ ready room] ok by (auto simp: send_reply_def bind_eq_Some_conv)
  moreover have l: "length ?msg = unat k" using room by (simp add: length_peek)
  moreover have "dec_fsOnDev ?msg = hdr_at (dv_mem d) hp"
  proof -
    have "take 24 ?msg = peek (dv_mem d) hp 24" using k by (simp add: peek_def)
    then show ?thesis using fs_on_dev.dec_take [of ?msg] fs_on_dev.dec_peek [of "dv_mem d" hp] by (simp add: hdr_at_def)
  qed
  ultimately show "\<exists>msg. phone_carried (dv_phone d) tr tr' msg \<and> reply_to (hdr_at mem hp) msg"
    using a k by (intro exI [of _ ?msg]) (simp add: reply_to_def answers_def)
qed

lemma send_any_kept:
  "send_reply E hp k d tr = Some (r, d', tr') \<Longrightarrow> phone_ready (dv_phone d) \<Longrightarrow>
   phone_kept (dv_phone d) (dv_phone d') \<and> length (dv_mem d') = length (dv_mem d) \<and>
   dv_notify d' = dv_notify d"
  by (auto simp: send_reply_def bind_eq_Some_conv dest!: send_kept)

lemma disk_notify:
  "usDecode_DiskLunHandle E mem hp pp n nf tr = Some (r, mem', nf', tr') \<Longrightarrow> nf' \<in> {nf, notify0}"
  "usDecode_DiskInfoHandle E mem hp pp n nf tr = (r, mem', nf', tr') \<Longrightarrow> nf' \<in> {nf, notify0}"
  by (auto simp: usDecode_DiskLunHandle_def usDisk_diskLun_def usDecode_DiskInfoHandle_def usDisk_diskInfo_def Let_def
      bind_eq_Some_conv split: if_splits prod.splits)

text \<open>
  The dispatch, whatever the command: a handler prepares the buffer and one reply is sent from it,
  or the listing sends its parts. For a request of the protocol proper the reply is the header and
  the payload it announces; the two magic numbers that only probe the device are answered by
  their own struct, and a safe removal would send nothing.
\<close>

definition probes :: "fsOnDev \<Rightarrow> bool" where
  "probes h = (fs_head h = PRO_BASIC_MAGIC \<or> fs_head h = SCSI_PHONE_MAGIC)"

definition proper :: "fsOnDev \<Rightarrow> bool" where
  "proper h = (\<not> probes h \<and> fs_ctrid h \<noteq> USTOR_FSONDEV_SAFEREMOVE)"

definition upgrades :: "fsOnDev \<Rightarrow> bool" where
  "upgrades h = (fs_ctrid h \<in> {USTOR_FSONDEV_UPDATE_START, USTOR_FSONDEV_UPDATE_DATA, USTOR_FSONDEV_UPDATE_END})"

text \<open>The answer to a probe, by what a reader finds in it.\<close>

definition probe_answer :: "bytes \<Rightarrow> nat \<Rightarrow> bytes \<Rightarrow> bool" where
  "probe_answer mem hp msg = (length msg = 24 \<and>
     (if fs_head (hdr_at mem hp) = PRO_BASIC_MAGIC
      then dec_headInfo msg = (dec_headInfo (drop hp mem))\<lparr>hi_relag := 0, hi_promagic := PRO_FSONDEV_MAGIC,
        hi_version := PRO_FSONDEV_VER1\<rparr>
      else dec_scsi_head msg = (dec_scsi_head (drop hp mem))\<lparr>sc_relag := 1\<rparr>))"

definition prepared :: "nat \<Rightarrow> nat \<Rightarrow> device \<Rightarrow> device \<Rightarrow> bool" where
  "prepared hp n d d1 = (dv_phone d1 = dv_phone d \<and> length (dv_mem d1) = length (dv_mem d) \<and>
     dv_notify d1 \<in> {dv_notify d, notify0} \<and>
     (let h = hdr_at (dv_mem d) hp in
       (probes h \<longrightarrow> probe_answer (dv_mem d) hp (peek (dv_mem d1) hp 24)) \<and>
       (proper h \<longrightarrow> answers (dv_mem d) hp (dv_mem d1) \<and>
         ((upgrades h \<longrightarrow> fits n (dv_mem d) hp) \<longrightarrow> fits n (dv_mem d1) hp))))"

definition reply_size :: "fsOnDev \<Rightarrow> fsOnDev \<Rightarrow> u32" where
  "reply_size h h1 = (if probes h then 24 else if fs_ctrid h = USTOR_FSONDEV_SAFEREMOVE then 0 else 24 + fs_len h1)"

definition replied :: "os \<Rightarrow> nat \<Rightarrow> nat \<Rightarrow> device \<Rightarrow> int \<Rightarrow> device \<Rightarrow> trace \<Rightarrow> bool" where
  "replied E hp n d r d' tr' = (\<exists>d1 t. prepared hp n d d1 \<and>
     send_reply E hp (reply_size (hdr_at (dv_mem d) hp) (hdr_at (dv_mem d1) hp)) d1 t = Some (r, d', tr'))"

lemma basic_probe:
  assumes "fs_head (hdr_at mem hp) = PRO_BASIC_MAGIC" "hp + 24 \<le> length mem"
  shows "probe_answer mem hp (peek (poke mem hp
    (enc_headInfo (snd (usDecode_BasicMagicHandle ((dec_headInfo (drop hp mem))\<lparr>hi_relag := 0\<rparr>))))) hp 24)"
proof -
  let ?b = "snd (usDecode_BasicMagicHandle ((dec_headInfo (drop hp mem))\<lparr>hi_relag := 0\<rparr>))"
  have w: "wf_headInfo ?b" using assms(2) by (simp add: wf_headInfo_def usDecode_BasicMagicHandle_def dec_headInfo_def length_peek)
  have "peek (poke mem hp (enc_headInfo ?b)) hp 24 = enc_headInfo ?b"
    using assms(2) head_info.length_enc [OF w] by (simp add: peek_poke_same)
  then show ?thesis
    using assms(1) head_info.length_enc [OF w] head_info.dec_enc_append [OF w, of "[]"]
    by (simp add: probe_answer_def usDecode_BasicMagicHandle_def)
qed

lemma scsi_probe:
  assumes "fs_head (hdr_at mem hp) = SCSI_PHONE_MAGIC" "hp + 24 \<le> length mem"
  shows "probe_answer mem hp (peek (poke mem hp (enc_scsi_head ((dec_scsi_head (drop hp mem))\<lparr>sc_relag := 1\<rparr>))) hp 24)"
proof -
  let ?b = "(dec_scsi_head (drop hp mem))\<lparr>sc_relag := 1\<rparr>"
  have "peek (poke mem hp (enc_scsi_head ?b)) hp 24 = enc_scsi_head ?b"
    using assms(2) by (simp add: peek_poke_same scsi_hd.length_enc)
  then show ?thesis
    using assms(1) scsi_hd.dec_enc_append [of ?b "[]"] by (simp add: probe_answer_def scsi_hd.length_enc)
qed

lemma dispatched:
  assumes run: "usStorage_ProtocolHandle E c hp buffsize paylength d tr = Some (r, d', tr')"
    and room: "36 \<le> hp" "hp + unat buffsize \<le> length (dv_mem d)" "4096 \<le> unat buffsize" "unat buffsize < 2147483648"
  shows "replied E hp (unat buffsize) d r d' tr' \<or>
    (\<exists>q. usDecode_ListHandle E (dv_phone d) (dv_mem d) hp (hp + 24) (buffsize - 24) tr = Some (q, dv_phone d', dv_mem d', tr') \<and>
      fs_ctrid (hdr_at (dv_mem d) hp) = USTOR_FSONDEV_LIST \<and> \<not> probes (hdr_at (dv_mem d) hp) \<and> r = EUSTOR_OK \<and> dv_notify d' = dv_notify d)"
proof -
  define h where "h = hdr_at (dv_mem d) hp"
  let ?n = "unat buffsize" and ?mem = "dv_mem d" and ?pp = "hp + 24"
  have l: "hp + 24 \<le> length ?mem" "?pp + 2 \<le> length ?mem" using room by simp_all
  have k: "unat (buffsize - 24) = ?n - 24"
    using room(3) by (simp add: unat_sub word_le_nat_alt)
  then have kk: "24 + unat (buffsize - 24) \<le> ?n" "2 \<le> unat (buffsize - 24)" "unat (buffsize - 24) < 2147483648"
    using room by simp_all
  have pay: ?thesis
    if "send_payload E hp d1 t = Some (r, d', tr')" "dv_phone d1 = dv_phone d" "answers ?mem hp (dv_mem d1)"
      "proper h"
      "(upgrades h \<longrightarrow> fits ?n ?mem hp) \<longrightarrow> fits ?n (dv_mem d1) hp" "dv_notify d1 \<in> {dv_notify d, notify0}" for d1 t
    using that unfolding replied_def prepared_def send_payload_def reply_size_def h_def [symmetric] Let_def
    by (intro disjI1 exI [of _ d1] exI [of _ t]) (simp add: answers_def proper_def)
  have pay_mem: ?thesis
    if "send_payload E hp (d\<lparr>dv_mem := m\<rparr>) t = Some (r, d', tr')" "answers ?mem hp m" "fits ?n m hp" "proper h" for m t
    by (rule pay [OF that(1)]) (use that in simp_all)
  have head: ?thesis
    if "send_header E hp (d\<lparr>dv_mem := m\<rparr>) t = Some (r, d', tr')" "answers ?mem hp m" "fs_len (hdr_at m hp) = 0" "proper h" for m t
    using that room unfolding replied_def prepared_def send_header_def reply_size_def h_def [symmetric] Let_def
    by (intro disjI1 exI [of _ "d\<lparr>dv_mem := m\<rparr>"] exI [of _ t]) (simp add: answers_def fits_def proper_def)
  have probe: ?thesis
    if "send_reply E hp 24 (d\<lparr>dv_mem := m\<rparr>) tr = Some (r, d', tr')" "length m = length ?mem" "probes h"
      "probe_answer ?mem hp (peek m hp 24)" for m
    using that unfolding replied_def prepared_def reply_size_def h_def [symmetric] Let_def
    by (intro disjI1 exI [of _ "d\<lparr>dv_mem := m\<rparr>"] exI [of _ tr]) (simp add: proper_def)
  have lp: "length (poke ?mem hp bs) = length ?mem" if "length bs = 24" for bs
    using that l by (simp add: length_poke)
  note run' = run [unfolded usStorage_ProtocolHandle_def Let_def, folded h_def]
  show ?thesis
  proof (cases "fs_head h \<in> {PRO_BASIC_MAGIC, SCSI_PHONE_MAGIC} \<or> fs_ctrid h = USTOR_FSONDEV_SAFEREMOVE")
    case True
    consider "fs_head h = PRO_BASIC_MAGIC" | "fs_head h = SCSI_PHONE_MAGIC"
      | "\<not> probes h" "fs_ctrid h = USTOR_FSONDEV_SAFEREMOVE"
      using True by (auto simp: probes_def)
    then show ?thesis
    proof cases
      case 1
      let ?b = "enc_headInfo (snd (usDecode_BasicMagicHandle ((dec_headInfo (drop hp ?mem))\<lparr>hi_relag := 0\<rparr>)))"
      have "length ?b = 24"
        using l(1) by (simp add: usDecode_BasicMagicHandle_def enc_headInfo_def dec_headInfo_def length_peek)
      moreover have "send_reply E hp 24 (d\<lparr>dv_mem := poke ?mem hp ?b\<rparr>) tr = Some (r, d', tr')"
        using run' 1 by (simp add: send_header_def)
      moreover have "probes h" using 1 by (simp add: probes_def)
      moreover have "probe_answer ?mem hp (peek (poke ?mem hp ?b) hp 24)" by (rule basic_probe) (use 1 l in \<open>simp_all add: h_def\<close>)
      ultimately show ?thesis using probe [OF _ lp] by blast
    next
      case 2
      let ?b = "enc_scsi_head ((dec_scsi_head (drop hp ?mem))\<lparr>sc_relag := 1\<rparr>)"
      have "send_reply E hp 24 (d\<lparr>dv_mem := poke ?mem hp ?b\<rparr>) tr = Some (r, d', tr')"
        using run' 2 by (simp add: send_header_def)
      moreover have "probes h" using 2 by (simp add: probes_def)
      moreover have "probe_answer ?mem hp (peek (poke ?mem hp ?b) hp 24)" by (rule scsi_probe) (use 2 l in \<open>simp_all add: h_def\<close>)
      ultimately show ?thesis using probe [OF _ lp] by (simp add: scsi_hd.length_enc)
    next
      case 3
      then have "send_reply E hp 0 d tr = Some (r, d', tr')" using run' by (simp add: probes_def)
      then show ?thesis
        using 3 unfolding replied_def prepared_def reply_size_def h_def [symmetric] Let_def
        by (intro disjI1 exI [of _ d] exI [of _ tr]) (simp add: proper_def)
    qed
  next
    case h2: False
    then have h: "fs_head h \<notin> {PRO_BASIC_MAGIC, SCSI_PHONE_MAGIC}" "fs_head h \<noteq> PRO_BASIC_MAGIC" "fs_head h \<noteq> SCSI_PHONE_MAGIC"
      by auto
    from h2 have pr: "proper h" by (auto simp: proper_def probes_def)
  consider (read) "fs_ctrid h = 1" | (wr) "fs_ctrid h = 2" | (edit) "fs_ctrid h \<in> {3, 4, 5}"
    | (lst) "fs_ctrid h = 6" | (disk) "fs_ctrid h = 7" | (lun) "fs_ctrid h = 8" | (firm) "fs_ctrid h = 9"
    | (up) "fs_ctrid h \<in> {11, 12, 13}" | (info) "fs_ctrid h = 14" | (time) "fs_ctrid h = 15" | (cache) "fs_ctrid h = 16"
    | (none) "fs_ctrid h \<notin> {1, 2, 3, 4, 5, 6, 7, 8, 9, 10, 11, 12, 13, 14, 15, 16}"
    using h2 by blast
  then show ?thesis
  proof cases
    case read
    then obtain q m t where hd: "usDecode_ReadHandle E ?mem hp ?pp (buffsize - 24) tr = Some (q, m, t)"
      and s: "send_payload E hp (d\<lparr>dv_mem := m\<rparr>) t = Some (r, d', tr')"
      using run' h by (auto simp: bind_eq_Some_conv)
    show ?thesis by (rule pay_mem [OF s read_answers [OF hd] read_fits [OF hd]]) (use l kk pr in simp_all)
  next
    case wr
    then obtain q m t where hd: "usDecode_WriteHandle E ?mem hp ?pp (paylength - 24) tr = Some (q, m, t)"
      and s: "send_header E hp (d\<lparr>dv_mem := m\<rparr>) t = Some (r, d', tr')"
      using run' h by (auto simp: bind_eq_Some_conv)
    show ?thesis by (rule head [OF s]) (use write_answers [OF hd l(1)] edit_len(1) [OF hd l(1)] pr in simp_all)
  next
    case edit
    define f where "f = (if fs_ctrid h = 3 then usDecode_CreateHandle else if fs_ctrid h = 4 then usDecode_DeleteHandle
      else usDecode_MoveHandle)"
    obtain q m t where f: "f E ?mem hp ?pp tr = (q, m, t)" by (metis prod_cases3)
    have s: "send_header E hp (d\<lparr>dv_mem := m\<rparr>) t = Some (r, d', tr')"
      using edit run' h f by (auto simp: f_def)
    from f have "usDecode_CreateHandle E ?mem hp ?pp tr = (q, m, t) \<or>
        usDecode_DeleteHandle E ?mem hp ?pp tr = (q, m, t) \<or> usDecode_MoveHandle E ?mem hp ?pp tr = (q, m, t)"
      by (auto simp: f_def split: if_splits)
    then have "answers ?mem hp m \<and> fs_len (hdr_at m hp) = 0"
      using edit_answers [OF _ l(1)] edit_len(2-4) [OF _ l(1)] by metis
    then show ?thesis using pr by (intro head [OF s]) simp_all
  next
    case disk
    then obtain q m nf t where hd: "usDecode_DiskInfoHandle E ?mem hp ?pp (buffsize - 24) (dv_notify d) tr = (q, m, nf, t)"
      and s: "send_payload E hp (d\<lparr>dv_mem := m, dv_notify := nf\<rparr>) t = Some (r, d', tr')"
      using run' h by (auto split: prod.splits)
    show ?thesis by (rule pay [OF s]) (use disk_answers(2) [OF hd] disk_notify(2) [OF hd] info_disk_fits [OF hd _ _ kk(1)] l kk pr in simp_all)
  next
    case lun
    then obtain q m nf t where hd: "usDecode_DiskLunHandle E ?mem hp ?pp (buffsize - 24) (dv_notify d) tr = Some (q, m, nf, t)"
      and s: "send_payload E hp (d\<lparr>dv_mem := m, dv_notify := nf\<rparr>) t = Some (r, d', tr')"
      using run' h by (auto simp: bind_eq_Some_conv)
    show ?thesis by (rule pay [OF s]) (use disk_answers(1) [OF hd] disk_notify(1) [OF hd] lun_fits [OF hd _ _ kk(1)] l kk pr in simp_all)
  next
    case firm
    then obtain q m t where hd: "usDecode_GetFirmwareInfoHandle E ?mem hp ?pp (buffsize - 24) tr = Some (q, m, t)"
      and s: "send_payload E hp (d\<lparr>dv_mem := m\<rparr>) t = Some (r, d', tr')"
      using run' h by (auto simp: bind_eq_Some_conv)
    show ?thesis
      by (rule pay_mem [OF s firmware_answers(1) [OF hd] firmware_fits [OF hd]]) (use l room(3) pr in simp_all)
  next
    case up
    then obtain q fd m t where
      hd: "usDecode_UpgradeFirmwareHandle E c (dv_fd d) ?mem hp ?pp (paylength - 24) tr = Some (q, fd, m, t)"
      and s: "send_payload E hp (d\<lparr>dv_mem := m, dv_fd := fd\<rparr>) t = Some (r, d', tr')"
      using run' h by (auto simp: bind_eq_Some_conv)
    show ?thesis by (rule pay [OF s]) (use firmware_answers(2) [OF hd] small_fits(1) [OF hd] l room up pr in \<open>auto simp: upgrades_def\<close>)
  next
    case info
    then obtain q m t where hd: "usDecode_GetFileInfoHandle E ?mem hp ?pp tr = (q, m, t)"
      and s: "send_payload E hp (d\<lparr>dv_mem := m\<rparr>) t = Some (r, d', tr')"
      using run' h by (auto split: prod.splits)
    show ?thesis by (rule pay_mem [OF s info_answers [OF hd] small_fits(2) [OF hd]]) (use l room(3) pr in simp_all)
  next
    case time
    then obtain q m t where hd: "usDecode_SyncSystemTimeHandle E ?mem hp ?pp (paylength - 24) tr = (q, m, t)"
      and s: "send_payload E hp (d\<lparr>dv_mem := m\<rparr>) t = Some (r, d', tr')"
      using run' h by (auto split: prod.splits)
    show ?thesis by (rule pay_mem [OF s sync_answers(1) [OF hd] small_fits(3) [OF hd]]) (use l room(3) pr in simp_all)
  next
    case cache
    then obtain q m t where hd: "usDecode_SyncCacheHandle E ?mem hp tr = (q, m, t)"
      and s: "send_payload E hp (d\<lparr>dv_mem := m\<rparr>) t = Some (r, d', tr')"
      using run' h by (auto split: prod.splits)
    show ?thesis by (rule pay_mem [OF s sync_answers(2) [OF hd] small_fits(4) [OF hd]]) (use l room(3) pr in simp_all)
  next
    case none
    then have "send_header E hp (d\<lparr>dv_mem := fail_hdr ?mem hp\<rparr>) tr = Some (r, d', tr')"
      using run' h by simp
    then show ?thesis by (rule head) (use l(1) set_answers(1) pr in \<open>simp_all add: fail_hdr_def\<close>)
  next
    case lst
    then show ?thesis using run' h by (auto simp: bind_eq_Some_conv probes_def h_def [symmetric])
  qed
  qed
qed


text \<open>
  Every request but the listing, which sends its own parts, is answered: when the dispatch reports
  success, one message was carried to the phone, and it answers the request. Handling a
  safe removal never reports success: the packet it sends is empty, which either transport refuses.
\<close>

definition answered :: "bytes \<Rightarrow> nat \<Rightarrow> bytes \<Rightarrow> bool" where
  "answered mem hp msg = (let h = hdr_at mem hp in
     if probes h then probe_answer mem hp msg
     else fs_ctrid h \<noteq> USTOR_FSONDEV_SAFEREMOVE \<and> reply_to h msg)"

lemma send_nothing: "send_reply E hp 0 d tr = Some (r, d', tr') \<Longrightarrow> r \<noteq> EUSTOR_OK"
  by (auto simp: send_reply_def usProtocol_SendPackage_def itunes_SendProPackage_def aoa_SendProPackage_def peek_def
      bind_eq_Some_conv split: if_splits)

lemma handle_answers:
  assumes run: "usStorage_ProtocolHandle E c hp buffsize paylength d tr = Some (EUSTOR_OK, d', tr')"
    and h: "fs_ctrid (hdr_at (dv_mem d) hp) = USTOR_FSONDEV_LIST \<Longrightarrow> probes (hdr_at (dv_mem d) hp)"
    and fit: "upgrades (hdr_at (dv_mem d) hp) \<Longrightarrow> fits (unat buffsize) (dv_mem d) hp"
    and ready: "phone_ready (dv_phone d)" and room: "36 \<le> hp" "hp + unat buffsize \<le> length (dv_mem d)"
      "4096 \<le> unat buffsize" "unat buffsize < 2147483648"
  shows "\<exists>t msg. phone_carried (dv_phone d) t tr' msg \<and> answered (dv_mem d) hp msg"
proof -
  define h where "h = hdr_at (dv_mem d) hp"
  obtain d1 t where p: "prepared hp (unat buffsize) d d1"
    and s: "send_reply E hp (reply_size h (hdr_at (dv_mem d1) hp)) d1 t = Some (EUSTOR_OK, d', tr')"
    using dispatched [OF run room] h(1) unfolding replied_def h_def by blast
  have kept: "phone_ready (dv_phone d1)" "dv_phone d1 = dv_phone d" "length (dv_mem d1) = length (dv_mem d)"
    using p ready by (simp_all add: prepared_def)
  show ?thesis
  proof (cases "probes h")
    case True
    let ?msg = "peek (dv_mem d1) hp 24"
    have "phone_carried (dv_phone d) t tr' ?msg"
      using s True kept room phone_tp.send_law [of E "dv_phone d1" "dv_mem d1" hp 24 t]
      by (auto simp: send_reply_def reply_size_def bind_eq_Some_conv)
    moreover have "probe_answer (dv_mem d) hp ?msg"
      using p True by (simp add: prepared_def h_def [symmetric] Let_def)
    ultimately show ?thesis using True by (auto simp: answered_def h_def Let_def)
  next
    case False
    then have proper: "proper h" using s by (auto simp: proper_def reply_size_def dest: send_nothing)
    have d1: "answers (dv_mem d) hp (dv_mem d1)" "fits (unat buffsize) (dv_mem d1) hp"
      using p proper fit by (simp_all add: prepared_def h_def [symmetric] Let_def)
    let ?k = "24 + fs_len (hdr_at (dv_mem d1) hp)"
    have uk: "unat ?k = 24 + unat (fs_len (hdr_at (dv_mem d1) hp))"
      using d1(2) room(4) by (simp add: fits_def unat_word_ariths)
    have "send_reply E hp ?k d1 t = Some (EUSTOR_OK, d', tr')"
      using s False proper by (simp add: reply_size_def proper_def)
    from send_reply_ok [OF this kept(1) uk room(1) _ d1(1)]
    have "\<exists>msg. phone_carried (dv_phone d) t tr' msg \<and> reply_to h msg"
      using kept d1 uk room by (auto simp: fits_def h_def)
    then show ?thesis using False proper by (auto simp: answered_def proper_def h_def Let_def)
  qed
qed

text \<open>Whatever the request and however its handling ends, the program can go on.\<close>

lemma handle_kept:
  assumes run: "usStorage_ProtocolHandle E c hp buffsize paylength d tr = Some (r, d', tr')"
    and ready: "phone_ready (dv_phone d)" and room: "36 \<le> hp" "hp + unat buffsize \<le> length (dv_mem d)"
      "4096 \<le> unat buffsize" "unat buffsize < 2147483648"
  shows "phone_kept (dv_phone d) (dv_phone d') \<and> length (dv_mem d') = length (dv_mem d) \<and>
    dv_notify d' \<in> {dv_notify d, notify0}"
  using dispatched [OF run room]
proof (elim disjE exE conjE)
  assume "replied E hp (unat buffsize) d r d' tr'"
  then show ?thesis unfolding replied_def prepared_def using send_any_kept ready by fastforce
next
  fix q
  assume l: "usDecode_ListHandle E (dv_phone d) (dv_mem d) hp (hp + 24) (buffsize - 24) tr = Some (q, dv_phone d', dv_mem d', tr')"
    and n: "dv_notify d' = dv_notify d"
  have "unat (buffsize - 24) = unat buffsize - 24" using room(3) by (simp add: unat_sub word_le_nat_alt)
  then have "278 \<le> unat (buffsize - 24)" "hp + 24 + unat (buffsize - 24) \<le> length (dv_mem d)" using room by simp_all
  from list_handle_ok [OF l ready room(1) refl this] n show ?thesis by (simp add: answers_def)
qed

end
