(* ===== verification/Ustor_Daemon.thy ===== *)
theory Ustor_Daemon
  imports Ustor_Env
begin

text \<open>
  Going into the background and ignoring signals: \<open>daemonize\<close> and \<open>handler_sig\<close> of usStorage.c, and
  their counterparts of comlib.c. The model follows one process: where the code exits, its parent after a
  fork included, the result is \<open>Inl\<close> with the exit code, and where it returns \<open>Inr\<close> with the value.
\<close>

section \<open>Signals and descriptors\<close>

text \<open>The dispositions set one after the other until one fails.\<close>

fun ignore_signals :: "os \<Rightarrow> bytes list \<Rightarrow> trace \<Rightarrow> trace" where
  "ignore_signals E [] tr = tr"
| "ignore_signals E (s # ss) tr =
     (let (r, tr) = ret_call E (Sys (IgnoreSignal s)) tr in if r = -1 then tr else ignore_signals E ss tr)"

definition handler_sig :: "os \<Rightarrow> trace \<Rightarrow> int \<times> trace" where
  "handler_sig E tr =
     (let tr = ignore_signals E [str ''SIGCHLD'', str ''SIGTERM'', str ''SIGSEGV''] tr
      in (0, just_call E (Sys (IgnoreSignal (str ''SIGPIPE''))) tr))"

definition dm_handler_sig :: "os \<Rightarrow> trace \<Rightarrow> int \<times> trace" where
  "dm_handler_sig E tr =
     (let tr = ignore_signals E [str ''SIGCHLD'', str ''SIGINT'', str ''SIGSEGV''] tr
      in (0, just_call E (Sys (IgnoreSignal (str ''SIGPIPE''))) tr))"

text \<open>The loop that closes the descriptors from \<open>n\<close> down to 0.\<close>

fun close_down :: "os \<Rightarrow> nat \<Rightarrow> trace \<Rightarrow> trace" where
  "close_down E 0 tr = just_call E (File (CloseFd 0)) tr"
| "close_down E (Suc n) tr = close_down E n (just_call E (File (CloseFd (int (Suc n)))) tr)"

definition close_all :: "os \<Rightarrow> int \<Rightarrow> trace \<Rightarrow> trace" where
  "close_all E n tr = (if n < 0 then tr else close_down E (nat n) tr)"

definition exit_with :: "os \<Rightarrow> int \<Rightarrow> trace \<Rightarrow> (int \<times> trace) + (int \<times> trace)" where
  "exit_with E code tr = Inl (code, just_call E (Sys (ExitProcess code)) tr)"

section \<open>Into the background\<close>

definition daemonize :: "os \<Rightarrow> trace \<Rightarrow> (int \<times> trace) + (int \<times> trace)" where
  "daemonize E tr =
     (let (pp, tr) = ret_call E (Sys Getppid) tr in
      if pp = 1 then Inr (0, tr)
      else
        let (pid, tr) = ret_call E (Sys Fork) tr in
        if pid < 0 then Inr (pid, tr)
        else if 0 < pid then exit_with E 0 tr
        else
          let (sid, tr) = ret_call E (Sys Setsid) tr in
          if sid < 0 then Inr (-1, tr)
          else
            let (n, tr) = ret_call E (Sys Getdtablesize) tr;
                (pid, tr) = ret_call E (Sys Fork) (close_all E n tr) in
            if pid < 0 then Inr (pid, tr)
            else if 0 < pid then exit_with E 0 tr
            else
              let (r, tr) = ret_call E (File (Chdir (str ''/''))) tr in
              if r < 0 then Inr (-2, tr)
              else
                let (a, tr) = do_call E (File (Freopen (str ''/dev/null'') (str ''stdin''))) tr in
                if a_num a = 0 then Inr (-3, tr)
                else
                  let (a, tr) = do_call E (File (Freopen (str ''/dev/null'') (str ''stdout''))) tr in
                  if a_num a = 0 then Inr (-3, tr) else Inr (0, tr))"

definition dm_daemon :: "os \<Rightarrow> bytes option \<Rightarrow> trace \<Rightarrow> (int \<times> trace) + (int \<times> trace)" where
  "dm_daemon E workdir tr =
     (let (pid, tr) = ret_call E (Sys Fork) tr in
      if pid = -1 then exit_with E 1 tr
      else if pid \<noteq> 0 then exit_with E 0 tr
      else
        let (sid, tr) = ret_call E (Sys Setsid) tr in
        if sid < 0 then exit_with E 1 tr
        else
          let (n, tr) = ret_call E (Sys Getdtablesize) tr; tr = close_all E n tr;
              (i, tr) = ret_call E (File (Open (str ''/dev/null'') O_RDWR)) tr;
              tr = just_call E (File (Dup i)) (just_call E (File (Dup i)) tr);
              tr = just_call E (File (Umask 0)) tr;
              tr = (case workdir of Some d \<Rightarrow> just_call E (File (Chdir d)) tr | None \<Rightarrow> tr)
          in Inr (0, tr))"

section \<open>What is closed\<close>

lemma close_down_calls: "calls (close_down E n tr) = calls tr @ map (\<lambda>i. File (CloseFd (int i))) (rev [0..<Suc n])"
  by (induction E n tr rule: close_down.induct) (simp_all add: just_call_eq)

lemma close_all_calls:
  "calls (close_all E n tr) = calls tr @ map (\<lambda>i. File (CloseFd (int i))) (rev [0..<nat (n + 1)])"
  using close_down_calls [of E "nat n" tr] by (auto simp: close_all_def nat_add_distrib)

text \<open>
  The process that goes on in the background, and was not there before, has been forked twice, has
  closed every descriptor up to the limit, and has the null device as standard input and output.
\<close>

lemma daemonize_calls:
  assumes "daemonize E tr = Inr (0, tr')" "a_ret (E tr (Sys Getppid)) \<noteq> 1"
  shows "\<exists>n. calls tr' = calls tr @ [Sys Getppid, Sys Fork, Sys Setsid, Sys Getdtablesize] @
    map (\<lambda>i. File (CloseFd (int i))) (rev [0..<n]) @ [Sys Fork, File (Chdir (str ''/'')),
      File (Freopen (str ''/dev/null'') (str ''stdin'')), File (Freopen (str ''/dev/null'') (str ''stdout''))]"
  using assms by (auto simp: daemonize_def exit_with_def ret_call_def do_call_eq close_all_calls Let_def split: if_splits)

end
