(* ===== verification/Ustor_Main.thy ===== *)
theory Ustor_Main
  imports Ustor_Storage Ustor_Daemon
begin

text \<open>
  usStorage.c: the notification of a disk change and the main loop, as steps that the rounds of the
  event thread interleave with, the invariant of every reachable state, and the automaton of the
  connection that the steps refine.
\<close>

section \<open>Notifying the phone\<close>

text \<open>
  \<open>tmpbuf\<close> is what the stack holds in the local buffer; \<open>reserved\<close> is sent as it was found there.
  The result of the send is ignored.
\<close>

definition usStorage_notifyPlug ::
    "os \<Rightarrow> bytes \<Rightarrow> usPhoneinfo \<Rightarrow> nofiyStruct \<Rightarrow> u32 \<Rightarrow> trace \<Rightarrow> (usPhoneinfo \<times> nofiyStruct \<times> u32 \<times> trace) option" where
  "usStorage_notifyPlug E tmpbuf phone notifyInfo dwtag tr =
     (let (_, event, notifyInfo, tr) = usDisk_getNotifyInfo E notifyInfo tr in
      case event of None \<Rightarrow> Some (phone, notifyInfo, dwtag, tr)
      | Some _ \<Rightarrow> do {
          (_, phone, _, tr) \<leftarrow> usProtocol_SendPackage E phone
             (set_hdr (\<lambda>h. h\<lparr>fs_head := PRO_REVER_MAGIC, fs_version := 1, fs_relag := 0, fs_wtag := dwtag,
                fs_ctrid := USTOR_FSONDEV_DISKLUN, fs_len := 0\<rparr>) tmpbuf 36) 36 PRO_HDR_SZIE tr;
          Some (phone, notifyInfo, dwtag + 1, tr)
        })"

section \<open>The main loop\<close>

text \<open>
  The state of the program: the globals and statics of its files, the event thread's sockets and
  where the main thread is in its loop. The main thread shares \<open>phonePlugin\<close> and the notification
  slot with the event thread; each of its steps touches one of them at most once, so that every
  interleaving of the threads is one of steps.
\<close>

datatype loop_point = Loop_top | Loop_detect | Loop_connect | Loop_receive | Loop_handle u32 | Loop_next | Loop_notify

record uHost =
  uh_context :: usStor
  uh_conState :: connect_state
  uh_phonePlugin :: u8
  uh_notifyInfo :: nofiyStruct
  uh_fd :: int
  uh_dwtag :: u32
  uh_conf :: usConfig
  uh_tcport :: u16
  uh_socks :: "int \<times> int"
  uh_at :: loop_point

definition phoneCallBack :: "int \<Rightarrow> uHost \<Rightarrow> trace \<Rightarrow> uHost \<times> trace" where
  "phoneCallBack state u tr = (u\<lparr>uh_phonePlugin := word_of_int state\<rparr>, tr)"

definition diskCallBack :: "os \<Rightarrow> int \<Rightarrow> bytes \<Rightarrow> uHost \<Rightarrow> trace \<Rightarrow> uHost \<times> trace" where
  "diskCallBack E action dev u tr =
     (let (nf, tr) = usDisk_PlugCallBack E action dev (uh_notifyInfo u) tr in (u\<lparr>uh_notifyInfo := nf\<rparr>, tr))"

definition eventarg :: "os \<Rightarrow> uHost usEventArg" where
  "eventarg E = \<lparr>eventDiskCall = Some (diskCallBack E), eventPhoneCall = Some phoneCallBack\<rparr>"

abbreviation set_phone :: "usPhoneinfo \<Rightarrow> uHost \<Rightarrow> uHost" where
  "set_phone p u \<equiv> u\<lparr>uh_context := (uh_context u)\<lparr>us_phone := p\<rparr>\<rparr>"

text \<open>What an error of receiving or handling a request leads to.\<close>

definition loop_error :: "os \<Rightarrow> int \<Rightarrow> uHost \<Rightarrow> trace \<Rightarrow> uHost \<times> trace" where
  "loop_error E res u tr =
     (if res = EUSTOR_USB_TIMEOUT then (u, tr)
      else if res = EUSTOR_PRO_REFUSE then (u\<lparr>uh_conState := CON_CNTING\<rparr>, tr)
      else
        let (phone, tr) = usProtocol_PhoneRelease E (us_phone (uh_context u)) tr
        in ((set_phone phone u)\<lparr>uh_conState := CON_INIT\<rparr>, just_call E (Sys (Usleep 500000)) tr))"

definition main_step :: "os \<Rightarrow> MD5_CTX \<Rightarrow> bytes \<Rightarrow> uHost \<Rightarrow> trace \<Rightarrow> (uHost \<times> trace) option" where
  "main_step E c tmpbuf u tr =
     (let ctx = uh_context u; phone = us_phone ctx; sleep = (\<lambda>n. just_call E (Sys (Usleep n))) in
      case uh_at u of
        Loop_top \<Rightarrow>
          if uh_phonePlugin u = 0 then Some (u, sleep 500000 tr) else Some (u\<lparr>uh_at := Loop_detect\<rparr>, tr)
      | Loop_detect \<Rightarrow>
          if uh_conState u = CON_INIT then
            let (res, phone, tr) = usProtocol_PhoneDetect E (uh_conf u) phone tr; u = set_phone phone u in
            if res = EUSTOR_OK then Some (u\<lparr>uh_conState := CON_CNTING, uh_at := Loop_connect\<rparr>, tr)
            else Some (u\<lparr>uh_at := Loop_top\<rparr>, sleep 500000 tr)
          else Some (u\<lparr>uh_at := Loop_connect\<rparr>, tr)
      | Loop_connect \<Rightarrow>
          if uh_conState u = CON_CNTING then do {
            (res, tcport, phone, tr) \<leftarrow> usProtocol_ConnectPhone E (uh_conf u) (uh_tcport u) phone tr;
            let u = (set_phone phone u)\<lparr>uh_tcport := tcport\<rparr> in
            if res = EUSTOR_OK then Some (u\<lparr>uh_conState := CON_CNTED, uh_at := Loop_receive\<rparr>, tr)
            else Some (u\<lparr>uh_at := Loop_next\<rparr>, sleep 300000 tr)
          }
          else Some (u\<lparr>uh_at := Loop_receive\<rparr>, tr)
      | Loop_receive \<Rightarrow> do {
          (res, phone, mem, truRecvSize, tr) \<leftarrow>
             usStorage_RecvPackage E phone (us_usbuf ctx) (us_uspayload ctx) (us_uspaylen ctx) tr;
          let u = u\<lparr>uh_context := ctx\<lparr>us_phone := phone, us_usbuf := mem\<rparr>\<rparr> in
          if res \<noteq> EUSTOR_OK then
            let (u, tr) = loop_error E res u tr in Some (u\<lparr>uh_at := Loop_next\<rparr>, tr)
          else if truRecvSize \<noteq> 0 then Some (u\<lparr>uh_at := Loop_handle truRecvSize\<rparr>, tr)
          else Some (u\<lparr>uh_at := Loop_next\<rparr>, tr)
        }
      | Loop_handle truRecvSize \<Rightarrow> do {
          (res, d, tr) \<leftarrow> usStorage_ProtocolHandle E c (us_uspayload ctx) (word_of_int (us_uspaylen ctx)) truRecvSize
             \<lparr>dv_phone = phone, dv_mem = us_usbuf ctx, dv_notify = uh_notifyInfo u, dv_fd = uh_fd u\<rparr> tr;
          let u = u\<lparr>uh_context := ctx\<lparr>us_phone := dv_phone d, us_usbuf := dv_mem d\<rparr>,
             uh_notifyInfo := dv_notify d, uh_fd := dv_fd d\<rparr>;
              (u, tr) = (if res \<noteq> EUSTOR_OK then loop_error E res u tr else (u, tr))
          in Some (u\<lparr>uh_at := Loop_next\<rparr>, tr)
        }
      | Loop_next \<Rightarrow>
          if uh_phonePlugin u = 0 then
            let (phone, tr) = usProtocol_PhoneRelease E phone tr
            in Some ((set_phone phone u)\<lparr>uh_conState := CON_INIT, uh_at := Loop_top\<rparr>, tr)
          else if uh_conState u = CON_CNTED then Some (u\<lparr>uh_at := Loop_notify\<rparr>, tr)
          else Some (u\<lparr>uh_at := Loop_top\<rparr>, tr)
      | Loop_notify \<Rightarrow> do {
          (phone, nf, dwtag, tr) \<leftarrow> usStorage_notifyPlug E tmpbuf phone (uh_notifyInfo u) (uh_dwtag u) tr;
          Some ((set_phone phone u)\<lparr>uh_notifyInfo := nf, uh_dwtag := dwtag, uh_at := Loop_top\<rparr>, tr)
        })"

text \<open>
  What \<open>main\<close> does before the loop; \<open>None\<close> when it returns because USB could not be set up, or when it is
  the process that leaves another in the background.
\<close>

definition main_init :: "os \<Rightarrow> trace \<Rightarrow> (uHost \<times> trace) option" where
  "main_init E tr =
     (let (res, _, tr) = usUsb_Init E 0 tr in
      if res \<noteq> EUSTOR_OK then None
      else
        let (_, conf) = usProtocol_init None globalConf0;
            (_, nf) = usDisk_init notify0;
            u = \<lparr>uh_context = usStorage_init, uh_conState = CON_INIT, uh_phonePlugin = 0, uh_notifyInfo = nf,
                  uh_fd = -1, uh_dwtag = 0, uh_conf = conf, uh_tcport = 1, uh_socks = (0, 0),
                  uh_at = Loop_top\<rparr>;
            (_, _, tr) = usEvent_init E (Some (eventarg E)) \<lparr>eventDiskCall = None, eventPhoneCall = None\<rparr> tr
        in Some (u, tr))"

definition main_entry :: "os \<Rightarrow> int \<Rightarrow> trace \<Rightarrow> (uHost \<times> trace) option" where
  "main_entry E argc tr =
     (if argc \<le> 1 then
        case daemonize E tr of
          Inl _ \<Rightarrow> None
        | Inr (_, tr) \<Rightarrow> let (_, tr) = handler_sig E tr in main_init E tr
      else main_init E tr)"

text \<open>A step of the program is one of the main thread, or one round of the event thread.\<close>

inductive uHost_step :: "os \<Rightarrow> uHost \<times> trace \<Rightarrow> uHost \<times> trace \<Rightarrow> bool" for E where
  Main: "main_step E c tmpbuf u tr = Some s \<Longrightarrow> length tmpbuf = 1024 \<Longrightarrow> uHost_step E (u, tr) s"
| Event: "event_round E (eventarg E) (uh_socks u) u tr = (socks, u', tr') \<Longrightarrow>
    uHost_step E (u, tr) (u'\<lparr>uh_socks := socks\<rparr>, tr')"

inductive uHost_reach :: "os \<Rightarrow> uHost \<times> trace \<Rightarrow> bool" for E where
  Init: "main_entry E argc [] = Some s \<Longrightarrow> uHost_reach E s"
| Step: "uHost_reach E s \<Longrightarrow> uHost_step E s s' \<Longrightarrow> uHost_reach E s'"

inductive_cases uHost_stepE: "uHost_step E (u, tr) s"


section \<open>The invariant\<close>

text \<open>
  In every state the program can reach: the buffer has its size and place, the notification slot is
  a terminated name, the connection's state is sound; there is a phone of a known type with an OUT
  and an IN endpoint exactly when the program is past detection; and the loop points are entered
  in the right connection state.
\<close>

definition notify_wf :: "nofiyStruct \<Rightarrow> bool" where
  "notify_wf nf = (length (nf_dev nf) = 16 \<and> last (nf_dev nf) = 0)"

definition context_wf :: "usStor \<Rightarrow> bool" where
  "context_wf c = (length (us_usbuf c) = US_BUFFER_SIZE \<and> us_uspayload c = US_RESERVED_SIZE \<and>
     us_uspaylen c = 266392 \<and> phone_ready (us_phone c))"

fun at_wf :: "loop_point \<Rightarrow> connect_state \<Rightarrow> bool" where
  "at_wf Loop_connect s = (s \<noteq> CON_INIT)"
| "at_wf Loop_receive s = (s = CON_CNTED)"
| "at_wf (Loop_handle n) s = (s = CON_CNTED \<and> n \<noteq> 0)"
| "at_wf Loop_notify s = (s = CON_CNTED)"
| "at_wf _ s = True"

definition uHost_inv :: "uHost \<Rightarrow> bool" where
  "uHost_inv u = (context_wf (uh_context u) \<and> notify_wf (uh_notifyInfo u) \<and> at_wf (uh_at u) (uh_conState u) \<and>
     (let p = us_phone (uh_context u) in
      if uh_conState u = CON_INIT then phoneType p = 0 else usable (phoneType p) (phone_usb p)))"

lemma phone0 [simp]: "phone_ready usPhoneinfo0" "phoneType usPhoneinfo0 = 0"
  by (simp_all add: usPhoneinfo0_def phone_ready_def mux_inv_def mux_itunes0_def)

lemma release_0 [simp]: "fst (usProtocol_PhoneRelease E p tr) = usPhoneinfo0"
  by (simp add: usProtocol_PhoneRelease_def Let_def)

lemma notify0_wf [simp]: "notify_wf notify0"
  by (simp add: notify_wf_def notify0_def)

lemma plug_callback_wf:
  assumes "notify_wf nf"
  shows "notify_wf (fst (usDisk_PlugCallBack E action dev nf tr))"
proof -
  have d: "nf_dev nf = take 15 (nf_dev nf) @ [0]"
  proof -
    have "nf_dev nf \<noteq> []" using assms by (auto simp: notify_wf_def)
    from append_butlast_last_id [OF this] show ?thesis using assms by (simp add: notify_wf_def butlast_conv_take)
  qed
  have "drop 15 (nf_dev nf) = [0]" by (metis append_take_drop_id same_append_eq d)
  then have "poke (nf_dev nf) 0 (strncpy dev 15) = strncpy dev 15 @ [0]" by (simp add: poke_def)
  then show ?thesis
    using assms by (auto simp: usDisk_PlugCallBack_def notify_wf_def Let_def call_eqs strncpy_def)
qed

lemma get_notify_wf: "notify_wf nf \<Longrightarrow> usDisk_getNotifyInfo E nf tr = (r, ev, nf', tr') \<Longrightarrow> notify_wf nf'"
  by (auto simp: usDisk_getNotifyInfo_def notify_wf_def Let_def split: if_splits)

lemma detect_usable:
  assumes "usProtocol_PhoneDetect E conf p tr = (r, p', tr')" "phoneType p = 0"
  shows "phone_ready p' \<and> (if r = EUSTOR_OK then usable (phoneType p') (phone_usb p') else phoneType p' = 0)"
  using detect_result [OF assms]
  by (auto simp: phone_usb_def phone_ready_def mux_inv_def mux_itunes0_def usPhoneinfo0_def usable_def split: if_splits)

lemma usable_kept: "phone_kept p q \<Longrightarrow> usable (phoneType q) (phone_usb q) = usable (phoneType p) (phone_usb p)"
  by (simp add: phone_kept_def)

text \<open>The event thread.\<close>

interpretation uHost_events: event_client "eventarg E" uHost_inv
proof unfold_locales
  fix f action dev s tr
  assume "eventDiskCall (eventarg E) = Some f" "uHost_inv s"
  then show "uHost_inv (fst (f action dev s tr))"
    using plug_callback_wf by (auto simp: eventarg_def diskCallBack_def uHost_inv_def case_prod_beta Let_def)
next
  fix g state s tr
  assume "eventPhoneCall (eventarg E) = Some g" "uHost_inv s"
  then show "uHost_inv (fst (g state s tr))"
    by (auto simp: eventarg_def phoneCallBack_def uHost_inv_def)
qed

text \<open>The main thread.\<close>

lemma uHost_inv_refused: "uHost_inv u \<Longrightarrow> uh_conState u = CON_CNTED \<Longrightarrow> at_wf l CON_CNTING \<Longrightarrow>
   uHost_inv (u\<lparr>uh_conState := CON_CNTING, uh_at := l\<rparr>)"
  by (simp add: uHost_inv_def Let_def)

lemma uHost_inv_released: "uHost_inv u \<Longrightarrow> at_wf l CON_INIT \<Longrightarrow>
   uHost_inv ((set_phone usPhoneinfo0 u)\<lparr>uh_conState := CON_INIT, uh_at := l\<rparr>)"
  by (simp add: uHost_inv_def context_wf_def Let_def)

lemma uHost_inv_next: "uHost_inv u \<Longrightarrow> uHost_inv (u\<lparr>uh_at := Loop_next\<rparr>)"
  by (simp add: uHost_inv_def)

lemma loop_error_inv:
  assumes "uHost_inv u" "uh_conState u = CON_CNTED" "loop_error E res u tr = (u', tr')"
  shows "uHost_inv (u'\<lparr>uh_at := Loop_next\<rparr>)"
proof -
  consider "u' = u" | "u' = u\<lparr>uh_conState := CON_CNTING\<rparr>" | "u' = (set_phone usPhoneinfo0 u)\<lparr>uh_conState := CON_INIT\<rparr>"
    using assms(3) by (simp add: loop_error_def case_prod_beta Let_def split: if_split_asm)
  then show ?thesis
    using assms(1,2) uHost_inv_refused uHost_inv_released uHost_inv_next by cases simp_all
qed

lemma notify_plug_kept:
  assumes run: "usStorage_notifyPlug E tmpbuf p nf w tr = Some (p', nf', w', tr')"
    and "phone_ready p" "notify_wf nf"
  shows "phone_kept p p' \<and> notify_wf nf'"
proof -
  obtain r ev nf1 t1 where g: "usDisk_getNotifyInfo E nf tr = (r, ev, nf1, t1)" by (metis prod_cases4)
  note w = get_notify_wf [OF assms(3) g]
  show ?thesis
  proof (cases ev)
    case None
    then show ?thesis using run g w assms(2) by (simp add: usStorage_notifyPlug_def)
  next
    case (Some e)
    have sent: "\<exists>q m. x = Some (q, a, m, t) \<and> b = nf1" if "x \<bind> (\<lambda>(_, phone, _, tr). Some (phone, nf1, k, tr)) = Some (a, b, c, t)"
      for x :: "(int \<times> usPhoneinfo \<times> bytes \<times> trace) option" and k c :: u32 and a b t
      using that by (auto simp: bind_eq_Some_conv)
    show ?thesis
      using sent [OF run [unfolded usStorage_notifyPlug_def g Some Let_def prod.case option.case]] w send_kept [OF _ assms(2)] by blast
  qed
qed

lemma main_init_inv: "main_init E tr = Some (u, tr') \<Longrightarrow> uHost_inv u"
  by (auto simp: main_init_def uHost_inv_def context_wf_def usStorage_init_def usDisk_init_def zeros_def Let_def
      split: if_splits prod.splits)

lemma main_entry_inv: "main_entry E argc tr = Some (u, tr') \<Longrightarrow> uHost_inv u"
  using main_init_inv by (auto simp: main_entry_def Let_def split: if_splits sum.splits prod.splits)

text \<open>With an argument the program stays in the foreground.\<close>

lemma main_foreground: "main_init E [] = Some s \<Longrightarrow> uHost_reach E s"
  by (rule uHost_reach.Init [where argc = 2]) (simp add: main_entry_def)

lemma uHost_inv_at: "uHost_inv u \<Longrightarrow> at_wf l (uh_conState u) \<Longrightarrow> uHost_inv (u\<lparr>uh_at := l\<rparr>)"
  by (simp add: uHost_inv_def)

lemma uHost_inv_fields [simp]:
  "uHost_inv (u\<lparr>uh_tcport := x\<rparr>) = uHost_inv u" "uHost_inv (u\<lparr>uh_dwtag := y\<rparr>) = uHost_inv u"
  "uHost_inv (u\<lparr>uh_fd := z\<rparr>) = uHost_inv u" "uHost_inv (u\<lparr>uh_socks := w\<rparr>) = uHost_inv u"
  by (simp_all add: uHost_inv_def)

lemma detect_step_inv:
  assumes "uHost_inv u" "uh_conState u = CON_INIT"
    and d: "usProtocol_PhoneDetect E conf (us_phone (uh_context u)) tr = (r, p, t)"
  shows "if r = EUSTOR_OK then uHost_inv ((set_phone p u)\<lparr>uh_conState := CON_CNTING, uh_at := Loop_connect\<rparr>)
    else uHost_inv ((set_phone p u)\<lparr>uh_at := Loop_top\<rparr>)"
proof -
  have "phoneType (us_phone (uh_context u)) = 0" using assms by (simp add: uHost_inv_def Let_def)
  from detect_usable [OF d this] show ?thesis
    using assms by (simp add: uHost_inv_def context_wf_def Let_def)
qed

lemma connect_step_inv:
  assumes "uHost_inv u" "uh_conState u = CON_CNTING"
    and d: "usProtocol_ConnectPhone E conf port (us_phone (uh_context u)) tr = Some (r, port', p, t)"
  shows "uHost_inv ((set_phone p u)\<lparr>uh_tcport := port', uh_conState := CON_CNTED, uh_at := Loop_receive\<rparr>)"
    and "uHost_inv ((set_phone p u)\<lparr>uh_tcport := port', uh_at := Loop_next\<rparr>)"
proof -
  have "phone_ready (us_phone (uh_context u))" using assms(1) by (simp add: uHost_inv_def context_wf_def)
  note k = connect_kept [OF d this]
  show "uHost_inv ((set_phone p u)\<lparr>uh_tcport := port', uh_conState := CON_CNTED, uh_at := Loop_receive\<rparr>)"
    using assms k by (simp add: uHost_inv_def context_wf_def Let_def phone_kept_def)
  show "uHost_inv ((set_phone p u)\<lparr>uh_tcport := port', uh_at := Loop_next\<rparr>)"
    using assms k by (simp add: uHost_inv_def context_wf_def Let_def phone_kept_def)
qed

lemma receive_step_inv:
  assumes "uHost_inv u"
    and d: "usStorage_RecvPackage E (us_phone (uh_context u)) (us_usbuf (uh_context u)) off k tr = Some (r, p, m, n, t)"
  shows "uHost_inv (u\<lparr>uh_context := (uh_context u)\<lparr>us_phone := p, us_usbuf := m\<rparr>\<rparr>)"
proof -
  have "phone_ready (us_phone (uh_context u))" using assms(1) by (simp add: uHost_inv_def context_wf_def)
  from recv_package_kept [OF d this] show ?thesis
    using assms(1) by (auto simp: uHost_inv_def context_wf_def phone_kept_def Let_def split: if_splits)
qed

lemma handle_step_inv:
  assumes "uHost_inv u"
    and d: "usStorage_ProtocolHandle E c (us_uspayload (uh_context u)) (word_of_int (us_uspaylen (uh_context u))) n
      \<lparr>dv_phone = us_phone (uh_context u), dv_mem = us_usbuf (uh_context u), dv_notify = uh_notifyInfo u, dv_fd = fd\<rparr> tr
      = Some (r, d', t)"
  shows "uHost_inv (u\<lparr>uh_context := (uh_context u)\<lparr>us_phone := dv_phone d', us_usbuf := dv_mem d'\<rparr>,
    uh_notifyInfo := dv_notify d', uh_fd := dv_fd d'\<rparr>)"
proof -
  have w: "phone_ready (us_phone (uh_context u))" "notify_wf (uh_notifyInfo u)" "length (us_usbuf (uh_context u)) = US_BUFFER_SIZE"
    "us_uspayload (uh_context u) = US_RESERVED_SIZE" "us_uspaylen (uh_context u) = 266392"
    using assms(1) by (simp_all add: uHost_inv_def context_wf_def)
  have "phone_kept (us_phone (uh_context u)) (dv_phone d') \<and> length (dv_mem d') = length (us_usbuf (uh_context u)) \<and>
    dv_notify d' \<in> {uh_notifyInfo u, notify0}"
    using handle_kept [OF d] w by simp
  then show ?thesis
    using assms(1) w(2) by (auto simp: uHost_inv_def context_wf_def phone_kept_def Let_def split: if_splits)
qed

lemma notify_step_inv:
  assumes "uHost_inv u" "at_wf l (uh_conState u)"
    and d: "usStorage_notifyPlug E tmpbuf (us_phone (uh_context u)) (uh_notifyInfo u) (uh_dwtag u) tr = Some (p, nf, k, t)"
  shows "uHost_inv ((set_phone p u)\<lparr>uh_notifyInfo := nf, uh_dwtag := k, uh_at := l\<rparr>)"
proof -
  have "phone_ready (us_phone (uh_context u))" "notify_wf (uh_notifyInfo u)"
    using assms(1) by (simp_all add: uHost_inv_def context_wf_def)
  from notify_plug_kept [OF d this] show ?thesis
    using assms(1,2) by (auto simp: uHost_inv_def context_wf_def phone_kept_def Let_def split: if_splits)
qed

lemma detect_point:
  assumes run: "main_step E c tmpbuf u tr = Some (u', tr')" and inv: "uHost_inv u" and point: "uh_at u = Loop_detect"
  shows "uHost_inv u'"
proof -
  note run = run [unfolded main_step_def Let_def]
  show ?thesis
  proof (cases "uh_conState u = CON_INIT")
    case True
    obtain r p t where d: "usProtocol_PhoneDetect E (uh_conf u) (us_phone (uh_context u)) tr = (r, p, t)" by (metis prod_cases3)
    show ?thesis using run point True d detect_step_inv [OF inv True d] by (simp split: if_splits)
  next
    case False
    then show ?thesis using run point inv by (auto intro: uHost_inv_at)
  qed
qed

lemma connect_point:
  assumes run: "main_step E c tmpbuf u tr = Some (u', tr')" and inv: "uHost_inv u" and point: "uh_at u = Loop_connect"
  shows "uHost_inv u'"
proof -
  note run = run [unfolded main_step_def Let_def]
  have at: "at_wf (uh_at u) (uh_conState u)" using inv by (simp add: uHost_inv_def)
  show ?thesis
  proof (cases "uh_conState u = CON_CNTING")
    case True
    then obtain r port p t where d: "usProtocol_ConnectPhone E (uh_conf u) (uh_tcport u) (us_phone (uh_context u)) tr = Some (r, port, p, t)"
      and u: "u' = (if r = EUSTOR_OK then ((set_phone p u)\<lparr>uh_tcport := port\<rparr>)\<lparr>uh_conState := CON_CNTED, uh_at := Loop_receive\<rparr>
        else ((set_phone p u)\<lparr>uh_tcport := port\<rparr>)\<lparr>uh_at := Loop_next\<rparr>)"
      using run point by (auto simp: bind_eq_Some_conv split: if_splits)
    show ?thesis using u connect_step_inv [OF inv True d] by (simp split: if_splits)
  next
    case False
    then have "uh_conState u = CON_CNTED" using at point by (cases "uh_conState u") simp_all
    then show ?thesis using run point inv by (auto intro: uHost_inv_at)
  qed
qed

lemma receive_point:
  assumes run: "main_step E c tmpbuf u tr = Some (u', tr')" and inv: "uHost_inv u" and point: "uh_at u = Loop_receive"
  shows "uHost_inv u'"
proof -
  note run = run [unfolded main_step_def Let_def]
  have at: "at_wf (uh_at u) (uh_conState u)" using inv by (simp add: uHost_inv_def)
  then have s: "uh_conState u = CON_CNTED" using point by simp
  obtain r p m n t where d: "usStorage_RecvPackage E (us_phone (uh_context u)) (us_usbuf (uh_context u))
      (us_uspayload (uh_context u)) (us_uspaylen (uh_context u)) tr = Some (r, p, m, n, t)"
    using run point by (auto simp: bind_eq_Some_conv)
  let ?u = "u\<lparr>uh_context := (uh_context u)\<lparr>us_phone := p, us_usbuf := m\<rparr>\<rparr>"
  note inv1 = receive_step_inv [OF inv d]
  show ?thesis
  proof (cases "r = EUSTOR_OK")
    case True
    then show ?thesis using run point d s uHost_inv_at [OF inv1] by (auto split: if_splits)
  next
    case False
    obtain u1 t1 where e: "loop_error E r ?u t = (u1, t1)" by fastforce
    then show ?thesis using run point d False s loop_error_inv [OF inv1 _ e] by auto
  qed
qed

lemma handle_point:
  assumes run: "main_step E c tmpbuf u tr = Some (u', tr')" and inv: "uHost_inv u" and point: "uh_at u = Loop_handle n"
  shows "uHost_inv u'"
proof -
  note run = run [unfolded main_step_def Let_def]
  have at: "at_wf (uh_at u) (uh_conState u)" using inv by (simp add: uHost_inv_def)
  then have s: "uh_conState u = CON_CNTED" using point by simp
  obtain r d' t where d: "usStorage_ProtocolHandle E c (us_uspayload (uh_context u)) (word_of_int (us_uspaylen (uh_context u))) n
      \<lparr>dv_phone = us_phone (uh_context u), dv_mem = us_usbuf (uh_context u), dv_notify = uh_notifyInfo u, dv_fd = uh_fd u\<rparr> tr
      = Some (r, d', t)"
    using run point by (auto simp: bind_eq_Some_conv)
  let ?u = "u\<lparr>uh_context := (uh_context u)\<lparr>us_phone := dv_phone d', us_usbuf := dv_mem d'\<rparr>,
    uh_notifyInfo := dv_notify d', uh_fd := dv_fd d'\<rparr>"
  note inv1 = handle_step_inv [OF inv d]
  show ?thesis
  proof (cases "r = EUSTOR_OK")
    case True
    then show ?thesis using run point d s uHost_inv_at [OF inv1] by auto
  next
    case False
    obtain u1 t1 where e: "loop_error E r ?u t = (u1, t1)" by fastforce
    then show ?thesis using run point d False s loop_error_inv [OF inv1 _ e] by auto
  qed
qed

lemma main_step_inv:
  assumes run: "main_step E c tmpbuf u tr = Some (u', tr')" and inv: "uHost_inv u"
  shows "uHost_inv u'"
proof (cases "uh_at u")
  case Loop_top
  then show ?thesis using run inv by (auto simp: main_step_def intro: uHost_inv_at split: if_splits)
next
  case Loop_detect
  then show ?thesis by (rule detect_point [OF run inv])
next
  case Loop_connect
  then show ?thesis by (rule connect_point [OF run inv])
next
  case Loop_receive
  then show ?thesis by (rule receive_point [OF run inv])
next
  case (Loop_handle n)
  then show ?thesis by (rule handle_point [OF run inv])
next
  case Loop_next
  show ?thesis
  proof (cases "uh_phonePlugin u = 0")
    case True
    then show ?thesis using run [unfolded main_step_def Let_def] Loop_next uHost_inv_released [OF inv, of Loop_top] by (simp add: case_prod_beta)
  next
    case False
    then show ?thesis using run [unfolded main_step_def Let_def] Loop_next inv by (auto intro: uHost_inv_at split: if_splits)
  qed
next
  case Loop_notify
  then obtain p nf k t where d: "usStorage_notifyPlug E tmpbuf (us_phone (uh_context u)) (uh_notifyInfo u) (uh_dwtag u) tr = Some (p, nf, k, t)"
    and u: "u' = (set_phone p u)\<lparr>uh_notifyInfo := nf, uh_dwtag := k, uh_at := Loop_top\<rparr>"
    using run [unfolded main_step_def Let_def] by (auto simp: bind_eq_Some_conv)
  show ?thesis using u notify_step_inv [OF inv _ d, of Loop_top] by simp
qed

text \<open>Every step of either thread keeps the invariant, so it holds in every reachable state.\<close>

lemma uHost_step_inv: "uHost_step E s s' \<Longrightarrow> uHost_inv (fst s) \<Longrightarrow> uHost_inv (fst s')"
proof (induction rule: uHost_step.induct)
  case (Main c tmpbuf u tr s)
  then show ?case using main_step_inv [of E c tmpbuf u tr "fst s" "snd s"] by simp
next
  case (Event u tr socks u' tr')
  then show ?case using uHost_events.round_inv [where E = E and s = u] by (metis fst_conv snd_conv uHost_inv_fields(4))
qed

lemma uHost_reach_inv: "uHost_reach E s \<Longrightarrow> uHost_inv (fst s)"
proof (induction rule: uHost_reach.induct)
  case (Init argc s)
  then show ?case using main_entry_inv [of E argc "[]" "fst s" "snd s"] by simp
next
  case (Step s s')
  then show ?case using uHost_step_inv by blast
qed

text \<open>
  The notification: when a change is pending it is taken, and the message is the header of a
  request that announces no payload, numbered by \<open>dwtag\<close>. It carries no more than that: the phone
  asks for the disks then.
\<close>

lemma notify_message:
  assumes run: "usStorage_notifyPlug E tmpbuf p nf w tr = Some (p', nf', w', tr')"
    and pending: "usDisk_getNotifyInfo E nf tr = (q, Some ev, nf1, t1)"
    and ready: "phone_ready p" "length tmpbuf = 1024"
  shows "nf' = nf1 \<and> w' = w + 1 \<and> (\<exists>r msg. (r = EUSTOR_OK \<longrightarrow> phone_carried p t1 tr' msg) \<and>
    (\<exists>m m'. usProtocol_SendPackage E p m 36 24 t1 = Some (r, p', m', tr') \<and> msg = peek m 36 24) \<and>
    fs_head (dec_fsOnDev msg) = PRO_REVER_MAGIC \<and> fs_wtag (dec_fsOnDev msg) = w \<and>
    fs_ctrid (dec_fsOnDev msg) = USTOR_FSONDEV_DISKLUN \<and> fs_len (dec_fsOnDev msg) = 0)"
proof -
  define m where "m = set_hdr (\<lambda>h. h\<lparr>fs_head := PRO_REVER_MAGIC, fs_version := 1, fs_relag := 0, fs_wtag := w,
    fs_ctrid := USTOR_FSONDEV_DISKLUN, fs_len := 0\<rparr>) tmpbuf 36"
  have sent: "\<exists>q m. x = Some (q, a, m, t) \<and> b = nf1 \<and> c = k"
    if "x \<bind> (\<lambda>(_, phone, _, tr). Some (phone, nf1, k, tr)) = Some (a, b, c, t)"
    for x :: "(int \<times> usPhoneinfo \<times> bytes \<times> trace) option" and k c :: u32 and a b t
    using that by (auto simp: bind_eq_Some_conv)
  obtain r m' where send: "usProtocol_SendPackage E p m 36 24 t1 = Some (r, p', m', tr')" and eq: "nf' = nf1" "w' = w + 1"
    using sent [OF run [unfolded usStorage_notifyPlug_def pending Let_def prod.case option.case]] by (auto simp: m_def)
  have l: "36 + 24 \<le> length tmpbuf" using ready(2) by simp
  then have "r = EUSTOR_OK \<longrightarrow> phone_carried p t1 tr' (peek m 36 24)"
    using phone_tp.send_law [OF send ready(1)] by (simp add: m_def)
  moreover have "dec_fsOnDev (peek m 36 24) = hdr_at m 36" using fs_on_dev.dec_peek [of m 36] by (simp add: hdr_at_def)
  ultimately show ?thesis using send eq l
    by (intro conjI exI [of _ r] exI [of _ "peek m 36 24"] exI [of _ m] exI [of _ m']) (simp_all add: m_def)
qed

section \<open>The connection automaton\<close>

text \<open>
  The connection to the phone, abstractly: what can happen to it, and the state that follows. In no
  other state can the event happen.
\<close>

datatype link_event = No_event | Phone_found | Link_opened | Turned_away | Phone_lost

fun link_next :: "connect_state \<Rightarrow> link_event \<Rightarrow> connect_state option" where
  "link_next s No_event = Some s"
| "link_next CON_INIT Phone_found = Some CON_CNTING"
| "link_next CON_CNTING Link_opened = Some CON_CNTED"
| "link_next CON_CNTED Turned_away = Some CON_CNTING"
| "link_next s Phone_lost = Some CON_INIT"
| "link_next _ _ = None"

text \<open>What a result of receiving or handling a request says of the connection.\<close>

definition result_event :: "int \<Rightarrow> link_event" where
  "result_event res = (if res = EUSTOR_OK \<or> res = EUSTOR_USB_TIMEOUT then No_event
     else if res = EUSTOR_PRO_REFUSE then Turned_away else Phone_lost)"

lemma main_entry_state: "main_entry E argc tr = Some (u, tr') \<Longrightarrow> uh_conState u = CON_INIT"
  by (auto simp: main_entry_def main_init_def Let_def split: if_splits sum.splits prod.splits)

text \<open>
  What happens to the connection in a step of the main thread, from the results of the operations of
  the transport: a phone is found by a detection that succeeds, the connection is opened by a
  connect that succeeds, refused or lost by the result of a request, lost when the phone is
  unplugged.
\<close>

definition step_event :: "os \<Rightarrow> MD5_CTX \<Rightarrow> uHost \<Rightarrow> trace \<Rightarrow> link_event" where
  "step_event E c u tr =
     (let ctx = uh_context u; phone = us_phone ctx in
      case uh_at u of
        Loop_detect \<Rightarrow>
          if uh_conState u = CON_INIT \<and> fst (usProtocol_PhoneDetect E (uh_conf u) phone tr) = EUSTOR_OK
          then Phone_found else No_event
      | Loop_connect \<Rightarrow>
          if uh_conState u = CON_CNTING \<and>
            map_option fst (usProtocol_ConnectPhone E (uh_conf u) (uh_tcport u) phone tr) = Some EUSTOR_OK
          then Link_opened else No_event
      | Loop_receive \<Rightarrow>
          (case usStorage_RecvPackage E phone (us_usbuf ctx) (us_uspayload ctx) (us_uspaylen ctx) tr of
             None \<Rightarrow> No_event | Some y \<Rightarrow> result_event (fst y))
      | Loop_handle n \<Rightarrow>
          (case usStorage_ProtocolHandle E c (us_uspayload ctx) (word_of_int (us_uspaylen ctx)) n
               \<lparr>dv_phone = phone, dv_mem = us_usbuf ctx, dv_notify = uh_notifyInfo u, dv_fd = uh_fd u\<rparr> tr of
             None \<Rightarrow> No_event | Some y \<Rightarrow> result_event (fst y))
      | Loop_next \<Rightarrow> if uh_phonePlugin u = 0 then Phone_lost else No_event
      | _ \<Rightarrow> No_event)"

text \<open>The event that a step saw moves the state, and a lost phone leaves nothing behind.\<close>

definition follows :: "link_event \<Rightarrow> uHost \<Rightarrow> uHost \<Rightarrow> bool" where
  "follows ev u u' = (link_next (uh_conState u) ev = Some (uh_conState u') \<and>
     (ev = Phone_lost \<longrightarrow> us_phone (uh_context u') = usPhoneinfo0))"

lemma link_next_lost [simp]: "link_next s Phone_lost = Some CON_INIT"
  by (cases s) simp_all

lemma error_follows:
  assumes "loop_error E res u tr = (u', tr')" "uh_conState u = CON_CNTED" "res \<noteq> EUSTOR_OK"
  shows "follows (result_event res) u (u'\<lparr>uh_at := l\<rparr>)"
  using assms by (auto simp: follows_def loop_error_def result_event_def case_prod_beta Let_def split: if_split_asm)

lemma ok_follows: "follows (result_event EUSTOR_OK) u (u\<lparr>uh_at := l\<rparr>)"
  by (simp add: follows_def result_event_def)

lemma follows_fields [simp]:
  "follows ev (u\<lparr>uh_context := x\<rparr>) u' = follows ev u u'" "follows ev (u\<lparr>uh_notifyInfo := y\<rparr>) u' = follows ev u u'"
  "follows ev (u\<lparr>uh_fd := z\<rparr>) u' = follows ev u u'"
  by (simp_all add: follows_def)

lemma main_link:
  assumes run: "main_step E c tmpbuf u tr = Some (u', tr')" and inv: "uHost_inv u"
  shows "follows (step_event E c u tr) u u'"
proof (cases "uh_at u")
  case Loop_receive
  then have s: "uh_conState u = CON_CNTED" using inv by (simp add: uHost_inv_def)
  obtain r p m n t where d: "usStorage_RecvPackage E (us_phone (uh_context u)) (us_usbuf (uh_context u))
      (us_uspayload (uh_context u)) (us_uspaylen (uh_context u)) tr = Some (r, p, m, n, t)"
    using run Loop_receive by (auto simp: main_step_def Let_def bind_eq_Some_conv)
  let ?u = "u\<lparr>uh_context := (uh_context u)\<lparr>us_phone := p, us_usbuf := m\<rparr>\<rparr>"
  obtain u1 t1 where e: "loop_error E r ?u t = (u1, t1)" by fastforce
  show ?thesis
    using run Loop_receive d s e error_follows [OF e] ok_follows [of ?u]
    by (auto simp: main_step_def step_event_def Let_def split: if_splits)
next
  case (Loop_handle n)
  then have s: "uh_conState u = CON_CNTED" using inv by (simp add: uHost_inv_def)
  obtain r d' t where d: "usStorage_ProtocolHandle E c (us_uspayload (uh_context u)) (word_of_int (us_uspaylen (uh_context u))) n
      \<lparr>dv_phone = us_phone (uh_context u), dv_mem = us_usbuf (uh_context u), dv_notify = uh_notifyInfo u, dv_fd = uh_fd u\<rparr> tr
      = Some (r, d', t)"
    using run Loop_handle by (auto simp: main_step_def Let_def bind_eq_Some_conv)
  let ?u = "u\<lparr>uh_context := (uh_context u)\<lparr>us_phone := dv_phone d', us_usbuf := dv_mem d'\<rparr>,
    uh_notifyInfo := dv_notify d', uh_fd := dv_fd d'\<rparr>"
  obtain u1 t1 where e: "loop_error E r ?u t = (u1, t1)" by fastforce
  show ?thesis
    using run Loop_handle d s e error_follows [OF e] ok_follows [of ?u]
    by (auto simp: main_step_def step_event_def Let_def split: if_splits)
next
  case Loop_connect
  show ?thesis
  proof (cases "uh_conState u = CON_CNTING")
    case True
    then obtain r port p t where d: "usProtocol_ConnectPhone E (uh_conf u) (uh_tcport u) (us_phone (uh_context u)) tr = Some (r, port, p, t)"
      using run Loop_connect by (auto simp: main_step_def Let_def bind_eq_Some_conv)
    show ?thesis using run Loop_connect True d by (cases "r = EUSTOR_OK") (auto simp: main_step_def step_event_def follows_def Let_def)
  qed (use run Loop_connect in \<open>auto simp: main_step_def step_event_def follows_def\<close>)
next
  case Loop_next
  show ?thesis
    using run Loop_next release_0 [of E "us_phone (uh_context u)" tr]
    by (cases "usProtocol_PhoneRelease E (us_phone (uh_context u)) tr")
      (auto simp: main_step_def step_event_def follows_def Let_def simp del: release_0 split: if_splits)
qed (use run in \<open>auto simp: main_step_def step_event_def follows_def Let_def bind_eq_Some_conv split: if_splits prod.splits\<close>)

text \<open>The event thread changes nothing but the plug state, the notification slot and its sockets.\<close>

interpretation uHost_quiet: event_client "eventarg E" "\<lambda>v. (uh_conState v, uh_context v, uh_at v) = k"
  by unfold_locales (auto simp: eventarg_def diskCallBack_def phoneCallBack_def case_prod_beta Let_def)

lemma event_link:
  "event_round E (eventarg E) socks u tr = (socks', u', tr') \<Longrightarrow>
   uh_conState u' = uh_conState u \<and> uh_context u' = uh_context u \<and> uh_at u' = uh_at u"
  using uHost_quiet.round_inv [where E = E and Ea = E and s = u and tr = tr and socks = socks and k = "(uh_conState u, uh_context u, uh_at u)"]
  by simp

text \<open>Requests are received and handled, and changes announced, only while connected.\<close>

lemma served_connected:
  "uHost_inv u \<Longrightarrow> uh_at u \<in> {Loop_receive, Loop_notify} \<union> range Loop_handle \<Longrightarrow> uh_conState u = CON_CNTED"
  by (auto simp: uHost_inv_def)

end
