(* ===== verification/Ustor_Runs.thy ===== *)
theory Ustor_Runs
  imports Ustor_Main
begin

text \<open>
  Concrete environments, devices and messages, and the bundles of equations that evaluate the
  model on them: the runs at which the properties of the root theory are instantiated.
\<close>

section \<open>Environments\<close>

text \<open>An environment that replays a list of answers, and one that accepts every transfer.\<close>

definition replay :: "answer list \<Rightarrow> os" where
  "replay as = (\<lambda>tr c. if length tr < length as then as ! length tr else answer0)"

definition accepting :: os where
  "accepting = (\<lambda>tr c. answer0\<lparr>a_num := 64\<rparr>)"

lemma replay_at [simp]: "replay as tr c = (if length tr < length as then as ! length tr else answer0)"
  by (simp add: replay_def)

lemma accepting_simps [simp]: "accepting tr c = answer0\<lparr>a_num := 64\<rparr>"
  by (simp add: accepting_def)

lemma answer0_simps [simp]:
  "a_ret answer0 = 0" "a_errno answer0 = 0" "a_num answer0 = 0" "a_data answer0 = []" "a_list answer0 = []"
  by (simp_all add: answer0_def)

lemma accepting_progress: "bulk_progress accepting"
  by (simp add: bulk_progress_def)

section \<open>Evaluation\<close>

lemmas eval_mem = get8_def get16_def get32_def get64_def put16_def put32_def put64_def htonl_def htons_def peek_def
  poke_def zeros_def

lemmas eval_call = do_call_eq ret_call_def just_call_def bulk_out_def bulk_in_def fault_if_def memcpy_def read_fd_def
  write_fd_def

lemmas eval_usb = usUsb_BlukPacketSend_def usUsb_BlukPacketReceive_def bulk_send_loop.simps bulk_error_def

lemmas eval_mux = itunes_RecvProPackage_def itunes_recv_loop.simps itunes_recv_finish_def itunes_SendTCP_def send_tail_def
  itunes_SendProPackage_def itunes_send_loop.simps mux_header_size_def dec_mux_header_def dec_tcphdr_def enc_mux_header_def
  enc_tcphdr_def mux_of_def tcp_of_def irx_update_def rx_update_def bump_itx_def

section \<open>Devices\<close>

definition usb1 :: usbInfo where
  "usb1 = usbInfo0\<lparr>ui_osPriv := 1, ui_ep_out := 2, ui_ep_in := 0x81, ui_wMaxPacketSize := 512\<rparr>"

lemma usb1_simps [simp]: "ui_osPriv usb1 = 1" "ui_ep_out usb1 = 2" "ui_ep_in usb1 = 0x81" "ui_wMaxPacketSize usb1 = 512"
  by (simp_all add: usb1_def usbInfo0_def)

text \<open>An iPhone on an open connection, with the packet buffer \<open>buf\<close>.\<close>

definition ios1 :: "bytes \<Rightarrow> mux_itunes" where
  "ios1 buf = mux_itunes0\<lparr>mx_version := 2, mx_sport := 1, mx_dport := 5, mx_tx_seq := 1, mx_tx_ack := 1,
     mx_tx_win := 512, mx_rx_win := 512, mx_usbIOS := usb1, mx_interBuf := buf\<rparr>"

lemma accepting_send:
  "length data \<le> 64 \<Longrightarrow> usUsb_BlukPacketSend accepting usb1 data t tr =
     Some (EUSTOR_OK, tr @ [Did (Usb (BulkOut 1 2 data t)) (answer0\<lparr>a_num := 64\<rparr>)])"
  by (simp add: usUsb_BlukPacketSend_def bulk_send_loop.simps [of accepting] bulk_out_def do_call_eq
      bulk_error_def Let_def)

text \<open>A data frame of the peer with four bytes of payload.\<close>

definition frame1 :: bytes where
  "frame1 = [0,0,0,6, 0,0,0,40, 254,237,250,206, 0,0, 0,0, 0,5, 0,1, 0,0,0,1, 0,0,0,1, 0x50,0x10, 0,2, 0,0, 0,0, 1,2,3,4]"

definition android1 :: usPhoneinfo where
  "android1 = usPhoneinfo0\<lparr>phoneType := PRO_ANDROID, phoneAndroid := usb1\<rparr>"

lemma android1_ready: "phone_ready android1"
  by (simp add: android1_def phone_ready_def usPhoneinfo0_def mux_inv_def mux_itunes0_def)

text \<open>The answers of a version 2 peer that accepts the connection.\<close>

definition peer_accepts :: os where
  "peer_accepts = replay [answer0\<lparr>a_num := 64\<rparr>,
     answer0\<lparr>a_data := [0,0,0,0, 0,0,0,20, 0,0,0,2, 0,0,0,0, 0,0,0,0]\<rparr>, answer0\<lparr>a_num := 64\<rparr>, answer0\<lparr>a_num := 64\<rparr>,
     answer0\<lparr>a_data := [0,0,0,6, 0,0,0,36, 254,237,250,206, 0,0, 0,0, 0,5, 0,1, 0,0,0,0, 0,0,0,1, 0x50,0x12, 0,2, 0,0, 0,0]\<rparr>,
     answer0\<lparr>a_num := 64\<rparr>]"

text \<open>A bus with one Android accessory that nobody has configured.\<close>

definition accessory_bus :: os where
  "accessory_bus = replay [answer0\<lparr>a_ret := 1, a_list := [7]\<rparr>, answer0, answer0,
     answer0\<lparr>a_desc := \<lparr>idVendor = 0x18D1, idProduct = 0x2D00, bNumConfigurations = 1\<rparr>\<rparr>,
     answer0\<lparr>a_num := 5\<rparr>, answer0\<lparr>a_num := 1\<rparr>,
     answer0\<lparr>a_intfs := [\<lparr>bInterfaceNumber = 0, bInterfaceClass = 255, bInterfaceSubClass = 255, bInterfaceProtocol = 0,
       bNumEndpoints = 2, endpoints = [0x81, 2]\<rparr>]\<rparr>, answer0, answer0, answer0\<lparr>a_ret := 512\<rparr>, answer0\<lparr>a_ret := -1\<rparr>]"

section \<open>Files and sockets\<close>

text \<open>
  Every file and socket opens as descriptor 3 and yields \<open>content\<close> from where it was read up to; every
  write is taken whole; \<open>fgets\<close> yields \<open>line\<close> each time, or fails when it is empty.
\<close>

definition serving :: "bytes \<Rightarrow> bytes \<Rightarrow> os" where
  "serving content line = (\<lambda>tr c. case c of
     File (Read fd n) \<Rightarrow> answer0\<lparr>a_data := drop (length (read_in fd tr)) content\<rparr>
   | File (Write fd data) \<Rightarrow> answer0\<lparr>a_ret := int (length data)\<rparr>
   | File (Open path m) \<Rightarrow> answer0\<lparr>a_ret := 3\<rparr>
   | File (Fopen path) \<Rightarrow> answer0\<lparr>a_num := 4\<rparr>
   | File (Fgets fp n) \<Rightarrow> answer0\<lparr>a_num := length line, a_data := line\<rparr>
   | Sys (Socket k) \<Rightarrow> answer0\<lparr>a_ret := 3\<rparr>
   | Sys (Calloc n) \<Rightarrow> answer0\<lparr>a_num := 1\<rparr>
   | Sys (Realloc q n) \<Rightarrow> answer0\<lparr>a_num := 2\<rparr>
   | _ \<Rightarrow> answer0)"

lemma serving_simps [simp]:
  "serving reply line tr (File (Read fd n)) = answer0\<lparr>a_data := drop (length (read_in fd tr)) reply\<rparr>"
  "serving reply line tr (File (Write fd data)) = answer0\<lparr>a_ret := int (length data)\<rparr>"
  "serving reply line tr (File (Open path m)) = answer0\<lparr>a_ret := 3\<rparr>"
  "serving reply line tr (File (Lseek fd off)) = answer0" "serving reply line tr (File (CloseFd fd)) = answer0"
  "serving reply line tr (File (Fopen path)) = answer0\<lparr>a_num := 4\<rparr>" "serving reply line tr (File (Fclose fp)) = answer0"
  "serving reply line tr (File (Fgets fp n)) = answer0\<lparr>a_num := length line, a_data := line\<rparr>"
  "serving reply line tr (Sys (Free q)) = answer0" "serving reply line tr (Sys (System cmd)) = answer0"
  "serving reply line tr (Sys MutexLock) = answer0" "serving reply line tr (Sys MutexUnlock) = answer0"
  "serving reply line tr (Sys Time) = answer0"
  "serving reply line tr (Sys (Socket fam)) = answer0\<lparr>a_ret := 3\<rparr>" "serving reply line tr (Sys (SockTimeout k t)) = answer0"
  "serving reply line tr (Sys (Connect k path)) = answer0"
  "serving reply line tr (Sys (Calloc n)) = answer0\<lparr>a_num := 1\<rparr>"
  "serving reply line tr (Sys (Realloc q n)) = answer0\<lparr>a_num := 2\<rparr>"
  by (simp_all add: serving_def)

lemma serving_serves: "read_in fd tr = [] \<Longrightarrow> serves (serving content line) fd content tr"
  by (auto simp: serves_def Let_def)

lemma le_nat_zeros [simp]: "le_nat (replicate n 0) = 0"
  by (induction n) simp_all

lemma manager_exchange:
  assumes "reply = enc_ipc_header h @ body" "sint (ih_len h) = int (length body)" "req \<noteq> []" "read_in 3 tr = []"
  shows "\<exists>p tr'. stor_ipc_double_duplex (serving reply []) req tr = (0, Some (p, reply), tr')"
  using assms
  by (simp add: stor_ipc_double_duplex_def ipc_client_init_def ipc_setsock_def ipc_write_def ipc_write_loop.simps
      ipc_read_def ipc_read_loop.simps eval_call Let_def IPC_PATH_MDISK_def str_def cstr_def
      ipc_hd.length_enc ipc_hd.dec_enc_append ipc_hd.dec_enc)

definition disk1 :: disk_disklist where
  "disk1 = \<lparr>dl_devname = str ''sda'' @ zeros 61, dl_vendor = zeros 64, dl_serical = zeros 512, dl_type = zeros 64,
     dl_disktag = zeros 64, dl_total = 1000, dl_status = 1, dl_partnum = 1\<rparr>"

definition lun_header :: "nat \<Rightarrow> ipc_header" where
  "lun_header n = \<lparr>ih_msg = MSG_DISK_DISKLIST, ih_len = of_nat (disklist_size * n), ih_direction = 0\<rparr>"

lemma disk1_wf: "wf_disklist disk1" "dl_status disk1 = DISK_MOUNTED"
  by (simp_all add: wf_disklist_def disk1_def str_def)

lemma manager_request:
  assumes "sint (ih_len h) = int (length body)"
  shows "\<exists>p t. disk_request (serving (enc_ipc_header h @ body) []) msg [] = (Some (p, enc_ipc_header h @ body), t)"
proof -
  have "enc_ipc_header \<lparr>ih_msg = msg, ih_len = 0, ih_direction = 0\<rparr> \<noteq> []"
    by (metis ipc_hd.length_enc length_0_conv zero_neq_numeral)
  then obtain p t where "stor_ipc_double_duplex (serving (enc_ipc_header h @ body) [])
      (enc_ipc_header \<lparr>ih_msg = msg, ih_len = 0, ih_direction = 0\<rparr>)
      [Did (Sys (Calloc 12)) (answer0\<lparr>a_num := 1\<rparr>)] = (0, Some (p, enc_ipc_header h @ body), t)"
    using manager_exchange [OF refl assms] by fastforce
  then show ?thesis by (simp add: disk_request_def eval_call Let_def)
qed

lemma serving_no_retry: "no_retry (serving content line)"
  by (auto simp: no_retry_def serving_def split: file_call.splits)

lemma serving_opened: "disk_opened (serving content line) name m off tr =
    (3, tr @ [Did (File (Open (cstr name) m)) (answer0\<lparr>a_ret := 3\<rparr>), Did (File (Lseek 3 off)) answer0])"
  by (simp add: disk_opened_def eval_call)

lemma serving_progress: "write_progress (serving content line)"
  using serving_no_retry by (simp add: write_progress_def)

definition ctx0 :: MD5_CTX where
  "ctx0 = \<lparr>md_count0 = 0, md_count1 = 0, md_state = (0, 0, 0, 0), md_buffer = zeros 64\<rparr>"

lemma md5_opened_serving: "md5_opened (serving content line) name off tr =
    (3, tr @ Did (File (Open (cstr name) O_RDONLY)) (answer0\<lparr>a_ret := 3\<rparr>) #
      (if off = 0 then [] else [Did (File (Lseek 3 off)) answer0]))"
  by (simp add: md5_opened_def eval_call)

lemma compute_md5_empty:
  "read_in 3 tr = [] \<Longrightarrow> \<exists>s t. compute_md5 (serving [] line) c name off tr = Some (0, s, t)"
  by (simp add: compute_md5_def md5_read_loop.simps eval_call Let_def)

lemma empty_checksum:
  assumes "read_in 3 tr = []"
  shows "\<exists>t. compute_md5 (serving [] line) ctx0 name off tr = Some (0, str ''d41d8cd98f00b204e9800998ecf8427e'', t)"
proof -
  obtain s t where r: "compute_md5 (serving [] line) ctx0 name off tr = Some (0, s, t)"
    using compute_md5_empty [OF assms] by blast
  have "s = hex (md5 [])"
    by (rule compute_md5_ok [OF r]) (simp_all add: ctx0_def zeros_def md5_opened_serving serving_serves assms)
  moreover have "hex (md5 []) = str ''d41d8cd98f00b204e9800998ecf8427e''"
    by (simp add: md5_empty hex_def hex_digit_def str_def)
  ultimately show ?thesis using r by simp
qed

text \<open>A request for three bytes of a file.\<close>

definition read_msg :: bytes where
  "read_msg = enc_fsOnDev \<lparr>fs_head = PRO_FSONDEV_MAGIC, fs_version = 1, fs_relag = 0, fs_wtag = 7, fs_ctrid = 1, fs_len = 16, fs_reserved = 0\<rparr> @
     enc_operation_rw \<lparr>rw_offset = 0, rw_size = 3, rw_pathlen = 2\<rparr> @ str ''/f'' @ zeros 8"

lemma read_msg_simps [simp]:
  "fs_version (hdr_at read_msg 0) = 1" "dec_operation_rw (drop 24 read_msg) = \<lparr>rw_offset = 0, rw_size = 3, rw_pathlen = 2\<rparr>"
  "length read_msg = 48"
  by (simp_all add: read_msg_def hdr_at_def fs_on_dev.dec_enc_append op_rw.dec_enc_append fs_on_dev.length_enc op_rw.length_enc str_def)

section \<open>Messages and runs of the properties\<close>

fun firmware_pieces :: "os \<Rightarrow> MD5_CTX \<Rightarrow> int \<Rightarrow> bytes list \<Rightarrow> trace \<Rightarrow> (int \<times> int \<times> trace) option" where
  "firmware_pieces E c fd [] tr = Some (EUSTOR_OK, fd, tr)"
| "firmware_pieces E c fd (p # ps) tr = do {
     (r, fd, tr) \<leftarrow> usFirmware_FirmwareUP E c fd p 0 (of_nat (length p)) USTOR_FSONDEV_UPDATE_DATA tr;
     if r \<noteq> EUSTOR_OK then Some (r, fd, tr) else firmware_pieces E c fd ps tr
   }"

definition delete_msg :: bytes where
  "delete_msg = enc_fsOnDev \<lparr>fs_head = PRO_FSONDEV_MAGIC, fs_version = 1, fs_relag = 0, fs_wtag = 7, fs_ctrid = 4, fs_len = 0, fs_reserved = 0\<rparr> @
     zeros 9 @ str ''/f'' @ zeros 8"

definition empty_list :: listCallback where
  "empty_list = \<lparr>lc_buffer = 60, lc_size = 600, lc_usedsize = 0, lc_proHeader = 36, lc_phone = android1, lc_mem = zeros 700\<rparr>"

lemma empty_list_inv: "list_inv 700 60 (hdr_at (zeros 700) 36) android1 empty_list"
  by (simp add: list_inv_def empty_list_def android1_ready zeros_def)

lemma listed_empty: "listed empty_list = []"
  by (simp add: listed_def empty_list_def)

definition add_keys :: "bytes list" where
  "add_keys = [str ''ACTION=add'', str ''DEVPATH=/usb1/1-1/1-1.1'', str ''SUBSYSTEM=usb'', str ''DEVTYPE=usb_device'', str ''MAJOR=189'']"

lemma add_keys_nonul: "\<forall>k\<in>set add_keys. 0 \<notin> set k"
  by (simp add: add_keys_def str_def)

lemma add_keys_values:
  "value_of ''ACTION='' add_keys = Some (str ''add'')" "value_of ''DEVPATH='' add_keys = Some (str ''/usb1/1-1/1-1.1'')"
  "phone_change add_keys = Some 1"
  by code_simp+

definition add_msg :: bytes where
  "add_msg = str ''add@/usb1/1-1/1-1.1'' @ 0 # packed add_keys"

definition kernel_adds :: os where
  "kernel_adds = (\<lambda>tr c. answer0\<lparr>a_num := 1, a_ret := int (length add_msg), a_data := add_msg\<rparr>)"

definition delete_device :: device where
  "delete_device = \<lparr>dv_phone = android1, dv_mem = zeros 36 @ delete_msg @ zeros 4096, dv_notify = notify0, dv_fd = -1\<rparr>"

lemma delete_device_simps:
  "hdr_at (dv_mem delete_device) 36 = \<lparr>fs_head = PRO_FSONDEV_MAGIC, fs_version = 1, fs_relag = 0, fs_wtag = 7, fs_ctrid = 4, fs_len = 0, fs_reserved = 0\<rparr>"
  "length (dv_mem delete_device) = 4175" "dv_phone delete_device = android1" "36 + unat (4096 :: u32) \<le> length (dv_mem delete_device)"
  by (simp_all add: delete_device_def delete_msg_def hdr_at_def fs_on_dev.dec_enc_append fs_on_dev.length_enc zeros_def str_def)

lemma delete_device_runs:
  "\<exists>d' tr'. usStorage_ProtocolHandle accepting ctx0 36 4096 24 delete_device [] = Some (EUSTOR_OK, d', tr')"
proof -
  have "\<exists>d' tr'. send_header accepting 36 (delete_device\<lparr>dv_mem := m\<rparr>) tr = Some (EUSTOR_OK, d', tr')" if "length m = 4175" for m tr
    using that delete_device_simps(3)
    by (simp add: send_header_def send_reply_def usProtocol_SendPackage_def android1_def usPhoneinfo0_def
        aoa_SendProPackage_def aoa_send_loop.simps accepting_send length_peek peek_def Let_def)
  moreover have "length (fst (snd (usDecode_DeleteHandle accepting (dv_mem delete_device) 36 60 []))) = 4175"
    using delete_device_simps(2) by (simp add: usDecode_DeleteHandle_def Let_def case_prod_beta)
  ultimately show ?thesis
    using delete_device_simps(1) by (simp add: usStorage_ProtocolHandle_def Let_def case_prod_beta)
qed

lemma accepting_starts: "\<exists>u tr. main_init accepting [] = Some (u, tr) \<and> uh_at u = Loop_top \<and> uh_phonePlugin u = 0"
  by (auto simp: main_init_def usUsb_Init_def usProtocol_init_def usDisk_init_def usEvent_init_def eval_call Let_def split: prod.split)

lemma idle_step:
  "uh_at u = Loop_top \<Longrightarrow> uh_phonePlugin u = 0 \<Longrightarrow>
   uHost_step accepting (u, tr) (u, tr @ [Did (Sys (Usleep 500000)) (answer0\<lparr>a_num := 64\<rparr>)])"
  by (rule uHost_step.Main [where c = ctx0 and tmpbuf = "zeros 1024"]) (simp_all add: main_step_def eval_call zeros_def Let_def)

end
