(* ===== verification/Ustor_Clib.thy ===== *)
theory Ustor_Clib
  imports Ustor_Event
begin

text \<open>
  The parts of the C library that the disk manager under diskm uses: numbers in text, the
  conversions of \<open>sscanf\<close> that its formats have, and reading a text file line by line.
\<close>

section \<open>Numbers in text\<close>

text \<open>What \<open>%d\<close> and \<open>%u\<close> print.\<close>

fun dec_str :: "nat \<Rightarrow> bytes" where
  "dec_str n = (if n < 10 then [48 + of_nat n] else dec_str (n div 10) @ [48 + of_nat (n mod 10)])"

declare dec_str.simps [simp del]

definition int_str :: "int \<Rightarrow> bytes" where
  "int_str n = (if n < 0 then 45 # dec_str (nat (- n)) else dec_str (nat n))"

text \<open>\<open>%02x\<close>, \<open>%02X\<close> of a byte.\<close>

definition xdigit :: "bool \<Rightarrow> u8 \<Rightarrow> u8" where
  "xdigit upper d = (if d < 10 then 48 + d else if upper then 55 + d else 87 + d)"

definition hex2 :: "bool \<Rightarrow> u8 \<Rightarrow> bytes" where
  "hex2 upper b = [xdigit upper (drop_bit 4 b), xdigit upper (b AND 15)]"

text \<open>An \<open>int\<close> read from text saturates, as \<open>strtol\<close> does.\<close>

definition clip32 :: "int \<Rightarrow> int" where
  "clip32 n = max (- (2 ^ 31)) (min (2 ^ 31 - 1) n)"

definition scan_num :: "bytes \<Rightarrow> (int \<times> bytes) option" where
  "scan_num s =
     (let s = dropWhile isspace s; neg = (take 1 s = [45]);
          s = (if neg \<or> take 1 s = [43] then tl s else s); d = takeWhile isdigit s
      in if d = [] then None
         else Some (if neg then - int (decimal s) else int (decimal s), dropWhile isdigit s))"

definition scan_int :: "bytes \<Rightarrow> (int \<times> bytes) option" where
  "scan_int s = map_option (\<lambda>(n, r). (clip32 n, r)) (scan_num s)"

definition scan_u64 :: "bytes \<Rightarrow> (u64 \<times> bytes) option" where
  "scan_u64 s = map_option (\<lambda>(n, r). (if 2 ^ 64 \<le> \<bar>n\<bar> then - 1 else word_of_int n, r)) (scan_num s)"

definition atoi :: "bytes \<Rightarrow> int" where
  "atoi s = (case scan_int (cstr s) of None \<Rightarrow> 0 | Some (n, _) \<Rightarrow> n)"

section \<open>Words in text\<close>

definition skip_space :: "bytes \<Rightarrow> bytes" where "skip_space s = dropWhile isspace s"

text \<open>\<open>%s\<close>, and \<open>%[^...]\<close> for a set of bytes that end it.\<close>

definition scan_word :: "bytes \<Rightarrow> (bytes \<times> bytes) option" where
  "scan_word s =
     (let s = skip_space s; w = takeWhile (\<lambda>b. \<not> isspace b) s
      in if w = [] then None else Some (w, drop (length w) s))"

definition scan_until :: "u8 list \<Rightarrow> bytes \<Rightarrow> (bytes \<times> bytes) option" where
  "scan_until stop s =
     (let w = takeWhile (\<lambda>b. b \<notin> set stop) s in if w = [] then None else Some (w, drop (length w) s))"

text \<open>A string written to a \<open>char\<close> array of \<open>n\<close> bytes with its NUL.\<close>

definition into :: "nat \<Rightarrow> bytes \<Rightarrow> trace \<Rightarrow> trace" where
  "into n s tr = fault_if (n \<le> length s) OutOfBounds tr"

text \<open>\<open>snprintf(buf, n, ...)\<close> of a text.\<close>

definition snprintf :: "nat \<Rightarrow> bytes \<Rightarrow> bytes" where
  "snprintf n s = take (n - 1) s"

definition sprintf_dev :: "bytes \<Rightarrow> bytes" where
  "sprintf_dev name = str ''/dev/'' @ name"

section \<open>The lines of a text file\<close>

text \<open>
  \<open>while (fgets(line, n, fp) != NULL) body\<close>: the body goes on with a new state or leaves the loop with a
  result. The file may be endless.
\<close>

partial_function (option) fgets_loop ::
    "os \<Rightarrow> ptr \<Rightarrow> nat \<Rightarrow> (bytes \<Rightarrow> 's \<Rightarrow> trace \<Rightarrow> (('r + 's) \<times> trace) option) \<Rightarrow> 's \<Rightarrow> trace \<Rightarrow>
     (('r + 's) \<times> trace) option" where
  "fgets_loop E fp n body s tr =
     (let (a, tr) = do_call E (File (Fgets fp n)) tr in
      if a_num a = 0 then Some (Inr s, tr)
      else do {
        (x, tr) \<leftarrow> body (cstr (take (n - 1) (a_data a))) s tr;
        case x of Inl r \<Rightarrow> Some (Inl r, tr) | Inr s \<Rightarrow> fgets_loop E fp n body s tr
      })"

declare fgets_loop.simps [code]

text \<open>What every body keeps, the loop keeps.\<close>

lemma fgets_loop_inv:
  assumes "\<And>line s tr x tr'. I s \<Longrightarrow> body line s tr = Some (x, tr') \<Longrightarrow> case x of Inl r \<Rightarrow> R r | Inr s' \<Rightarrow> I s'"
  shows "fgets_loop E fp n body s tr = Some (x, tr') \<Longrightarrow> I s \<Longrightarrow> case x of Inl r \<Rightarrow> R r | Inr s' \<Rightarrow> I s'"
proof -
  have "fgets_loop E fp n b s tr = Some y \<Longrightarrow> b = body \<Longrightarrow> I s \<Longrightarrow> case fst y of Inl r \<Rightarrow> R r | Inr s' \<Rightarrow> I s'" for b s tr y
  proof (induct rule: fgets_loop.raw_induct [rotated, consumes 1, case_names step])
    case (step loop E fp n b s tr y)
    define a where "a = E tr (File (Fgets fp n))"
    show ?case
    proof (cases "a_num a = 0")
      case True
      then show ?thesis using step.hyps(2) [unfolded do_call_eq a_def [symmetric] Let_def prod.case] step.prems(2) by auto
    next
      case False
      then obtain x1 t1 where b: "body (cstr (take (n - 1) (a_data a))) s (tr @ [Did (File (Fgets fp n)) a]) = Some (x1, t1)"
        and y: "(case x1 of Inl r \<Rightarrow> Some (Inl r, t1) | Inr s \<Rightarrow> loop E fp n body s t1) = Some y"
        using step.hyps(2) [unfolded step.prems(1) do_call_eq a_def [symmetric] Let_def prod.case]
        by (auto simp: bind_eq_Some_conv)
      note k = assms [OF step.prems(2) b]
      show ?thesis
      proof (cases x1)
        case (Inl r)
        then show ?thesis using y k by auto
      next
        case (Inr s1)
        then have "loop E fp n body s1 t1 = Some y" "I s1" using y k by auto
        then show ?thesis using step.hyps(1) by blast
      qed
    qed
  qed
  then show "fgets_loop E fp n body s tr = Some (x, tr') \<Longrightarrow> I s \<Longrightarrow> case x of Inl r \<Rightarrow> R r | Inr s' \<Rightarrow> I s'" by fastforce
qed

definition strchr :: "u8 \<Rightarrow> bytes \<Rightarrow> (bytes \<times> bytes) option" where
  "strchr c s = (if c \<in> set s then Some (takeWhile (\<lambda>b. b \<noteq> c) s, tl (dropWhile (\<lambda>b. b \<noteq> c) s)) else None)"

lemma strchr_rest: "strchr c s = Some (a, r) \<Longrightarrow> length r < length s"
proof -
  assume a: "strchr c s = Some (a, r)"
  then have "dropWhile (\<lambda>b. b \<noteq> c) s \<noteq> []" "r = tl (dropWhile (\<lambda>b. b \<noteq> c) s)" by (auto simp: strchr_def split: if_splits)
  moreover have "length (dropWhile (\<lambda>b. b \<noteq> c) s) \<le> length s" by (rule length_dropWhile_le)
  ultimately show ?thesis by (cases "dropWhile (\<lambda>b. b \<noteq> c) s") auto
qed

section \<open>Reading numbers back\<close>

lemma dec_str_digits: "b \<in> set (dec_str n) \<Longrightarrow> isdigit b"
proof (induction n rule: dec_str.induct)
  case (1 n)
  have "isdigit (48 + of_nat k)" if "k < 10" for k
  proof -
    have "k \<in> {0,1,2,3,4,5,6,7,8,9}" using that by auto
    then show ?thesis by (auto simp: isdigit_def)
  qed
  then show ?case using 1 by (subst (asm) dec_str.simps) (auto split: if_splits)
qed

lemma dec_str_nonempty [simp]: "dec_str n \<noteq> []"
  by (subst dec_str.simps) simp

end
