(* ===== verification/Ustor_Blkid.thy ===== *)
theory Ustor_Blkid
  imports Ustor_Clib
begin

text \<open>
  libblkid-tiny.c: the buffer that all probes share, what they store about a volume, and the label
  conversions. A pointer into the buffer is its address; it is read through \<open>at_ptr\<close>, which sees
  what the buffer holds then, and faults when the buffer has moved.
\<close>

section \<open>The shared buffer\<close>

record probe_buf =
  pb_ptr :: ptr
  pb_mem :: bytes

definition at_ptr :: "ptr \<Rightarrow> probe_buf \<Rightarrow> trace \<Rightarrow> bytes \<times> trace" where
  "at_ptr p b tr = (if p = pb_ptr b then (pb_mem b, tr) else ([], tr @ [Fault Dangling]))"

definition blkid_probe_get_buffer ::
    "os \<Rightarrow> int \<Rightarrow> int \<Rightarrow> nat \<Rightarrow> probe_buf \<Rightarrow> trace \<Rightarrow> ptr \<times> probe_buf \<times> trace" where
  "blkid_probe_get_buffer E fd off len b tr =
     (let (grown, b, tr) =
        (if length (pb_mem b) < len then
           let (a, tr) = do_call E (Sys (Realloc (pb_ptr b) len)) tr in
           if a_num a = 0 then (False, b, tr) else (True, \<lparr>pb_ptr = a_num a, pb_mem = zeros len\<rparr>, tr)
         else (True, b, tr))
      in if \<not> grown then (0, b, tr)
         else
           let tr = just_call E (File (Lseek fd off)) tr;
               (_, data, _, tr) = read_fd E fd len tr
           in (pb_ptr b, b\<lparr>pb_mem := data @ zeros (length (pb_mem b) - length data)\<rparr>, tr))"

section \<open>What a probe finds\<close>

text \<open>
  \<open>struct blkid_struct_probe\<close>; \<open>label\<close> is the memory of its 64 bytes, the other arrays are only written
  as strings. The id is the name of the file system.
\<close>

record blkid_struct_probe =
  pr_id :: "bytes option"
  pr_fd :: int
  pr_err :: int
  pr_dev :: bytes
  pr_uuid :: bytes
  pr_label :: bytes
  pr_name :: bytes
  pr_version :: bytes

definition probe0 :: blkid_struct_probe where
  "probe0 = \<lparr>pr_id = None, pr_fd = 0, pr_err = 0, pr_dev = [], pr_uuid = [], pr_label = zeros 64, pr_name = [],
     pr_version = []\<rparr>"

record blkid_idmag =
  mg_magic :: bytes
  mg_kboff :: nat
  mg_sboff :: nat

definition blkid_probe_set_version :: "blkid_struct_probe \<Rightarrow> bytes \<Rightarrow> int \<times> blkid_struct_probe" where
  "blkid_probe_set_version pr version = (if 63 < length version then (-1, pr) else (0, pr\<lparr>pr_version := version\<rparr>))"

definition blkid_probe_sprintf_version :: "blkid_struct_probe \<Rightarrow> bytes \<Rightarrow> blkid_struct_probe" where
  "blkid_probe_sprintf_version pr text = pr\<lparr>pr_version := snprintf 64 text\<rparr>"

definition blkid_probe_sprintf_uuid :: "blkid_struct_probe \<Rightarrow> bytes \<Rightarrow> blkid_struct_probe" where
  "blkid_probe_sprintf_uuid pr text = pr\<lparr>pr_uuid := snprintf 64 text\<rparr>"

text \<open>\<open>label\<close> is the memory from the pointer on. One byte more than its length is copied.\<close>

definition blkid_probe_set_label ::
    "blkid_struct_probe \<Rightarrow> bytes \<Rightarrow> nat \<Rightarrow> trace \<Rightarrow> int \<times> blkid_struct_probe \<times> trace" where
  "blkid_probe_set_label pr label len tr =
     (if 63 < len then (-1, pr, tr)
      else (0, pr\<lparr>pr_label := poke (pr_label pr) 0 (take (len + 1) (label @ zeros (len + 1)))\<rparr>,
        fault_if (length label < len + 1) OutOfBounds tr))"

section \<open>Labels in UTF-16\<close>

datatype blkid_enc = BLKID_ENC_UTF16BE | BLKID_ENC_UTF16LE

definition utf16_unit :: "blkid_enc \<Rightarrow> bytes \<Rightarrow> nat \<Rightarrow> u16" where
  "utf16_unit enc mem off =
     (case enc of BLKID_ENC_UTF16LE \<Rightarrow> push_bit 8 (ucast (get8 mem (off + 1))) OR ucast (get8 mem off)
      | BLKID_ENC_UTF16BE \<Rightarrow> push_bit 8 (ucast (get8 mem off)) OR ucast (get8 mem (off + 1)))"

definition utf8_unit :: "u16 \<Rightarrow> bytes" where
  "utf8_unit c =
     (if c < 0x80 then [ucast c]
      else if c < 0x800 then [ucast (0xc0 OR drop_bit 6 c), ucast (0x80 OR (c AND 0x3f))]
      else [ucast (0xe0 OR drop_bit 12 c), ucast (0x80 OR (drop_bit 6 c AND 0x3f)), ucast (0x80 OR (c AND 0x3f))])"

text \<open>\<open>blkid_encode_to_utf8\<close>: the string that it leaves in \<open>dest\<close>, whose size is \<open>len\<close>; \<open>count\<close> bytes of source at \<open>off\<close>.\<close>

fun blkid_encode_to_utf8 :: "blkid_enc \<Rightarrow> nat \<Rightarrow> bytes \<Rightarrow> nat \<Rightarrow> nat \<Rightarrow> bytes \<Rightarrow> trace \<Rightarrow> bytes \<times> trace" where
  "blkid_encode_to_utf8 enc len src off (Suc (Suc n)) dest tr =
     (let tr = fault_if (length src < off + 2) OutOfBounds tr; c = utf16_unit enc src off in
      if c = 0 then (dest, tr)
      else if len \<le> length dest + length (utf8_unit c) then (dest, tr)
      else blkid_encode_to_utf8 enc len src (off + 2) n (dest @ utf8_unit c) tr)"
| "blkid_encode_to_utf8 enc len src off _ dest tr = (dest, tr)"

text \<open>The \<open>isspace\<close> of this file.\<close>

definition is_blank :: "u8 \<Rightarrow> bool" where "is_blank b = (b \<in> {32, 9, 13, 10})"

definition blkid_rtrim_whitespace :: "bytes \<Rightarrow> bytes" where
  "blkid_rtrim_whitespace s = rev (dropWhile is_blank (rev (cstr s)))"

definition blkid_probe_set_utf8label ::
    "blkid_struct_probe \<Rightarrow> bytes \<Rightarrow> nat \<Rightarrow> nat \<Rightarrow> blkid_enc \<Rightarrow> trace \<Rightarrow> blkid_struct_probe \<times> trace" where
  "blkid_probe_set_utf8label pr mem off len enc tr =
     (let (s, tr) = blkid_encode_to_utf8 enc 64 mem off len [] tr;
          label = poke (pr_label pr) 0 (s @ [0]);
          label = poke label (length (blkid_rtrim_whitespace label)) [0]
      in (pr\<lparr>pr_label := label\<rparr>, tr))"

section \<open>Reading a volume\<close>

text \<open>
  The device behind \<open>fd\<close> holds \<open>img\<close>: a read right after a seek yields the bytes from there on, fewer only
  at the end. The buffer can grow.
\<close>

definition volume :: "os \<Rightarrow> int \<Rightarrow> bytes \<Rightarrow> bool" where
  "volume E fd img = (\<forall>tr off a n. let r = E (tr @ [Did (File (Lseek fd off)) a]) (File (Read fd n)) in
     0 \<le> a_ret r \<and> (0 \<le> off \<longrightarrow> take n (a_data r) = peek img (nat off) n))"

definition can_grow :: "os \<Rightarrow> bool" where
  "can_grow E = (\<forall>tr p n. a_num (E tr (Sys (Realloc p n))) \<noteq> 0)"

text \<open>The bytes of the image at a place, as the buffer shows them: with zeros behind the end.\<close>

definition img_at :: "bytes \<Rightarrow> int \<Rightarrow> nat \<Rightarrow> nat \<Rightarrow> bytes" where
  "img_at img off len sz = peek img (nat off) len @ zeros (sz - length (peek img (nat off) len))"

lemma get_buffer_volume:
  assumes "volume E fd img" "can_grow E" "0 \<le> off" "pb_mem b \<noteq> [] \<longrightarrow> pb_ptr b \<noteq> 0" "0 < len"
  shows "\<exists>p tr'. blkid_probe_get_buffer E fd off len b tr =
      (p, \<lparr>pb_ptr = p, pb_mem = img_at img off len (max len (length (pb_mem b)))\<rparr>, tr') \<and> p \<noteq> 0 \<and> clean tr tr' \<and>
    (len \<le> length (pb_mem b) \<longrightarrow> p = pb_ptr b)"
proof -
  have r: "read_fd E fd len (t @ [Did (File (Lseek fd off)) a]) =
      (int (length (peek img (nat off) len)), peek img (nat off) len, a_errno (E (t @ [Did (File (Lseek fd off)) a]) (File (Read fd len))),
       t @ [Did (File (Lseek fd off)) a, Did (File (Read fd len)) (E (t @ [Did (File (Lseek fd off)) a]) (File (Read fd len)))])" for t a
    using assms(1,3) by (simp add: volume_def read_fd_def do_call_eq Let_def not_less)
  show ?thesis
  proof (cases "length (pb_mem b) < len")
    case True
    then show ?thesis
      using assms(2) by (simp add: blkid_probe_get_buffer_def do_call_eq just_call_eq r can_grow_def img_at_def
          zeros_def max_def Let_def clean_def)
  next
    case False
    then have "pb_ptr b \<noteq> 0" using assms(4,5) by auto
    then show ?thesis
      using False by (simp add: blkid_probe_get_buffer_def do_call_eq just_call_eq r img_at_def
          zeros_def max_def Let_def clean_def)
  qed
qed

lemma length_img_at: "len \<le> sz \<Longrightarrow> length (img_at img off len sz) = sz"
  by (simp add: img_at_def zeros_def)

end
