(* ===== verification/Ustor_Fat.thy ===== *)
theory Ustor_Fat
  imports Ustor_Blkid
begin

text \<open>
  vfat.c: recognising a FAT12, FAT16 or FAT32 volume and finding its label, which is in the boot
  sector or an entry of the root directory.
\<close>

section \<open>On the disk\<close>

text \<open>The two layouts of the boot sector; they share their first fields.\<close>

record msdos_super_block =
  ms_sysid :: bytes
  ms_sector_size :: u16
  ms_cluster_size :: u8
  ms_reserved :: u16
  ms_fats :: u8
  ms_dir_entries :: u16
  ms_sectors :: u16
  ms_media :: u8
  ms_fat_length :: u16
  ms_secs_track :: u16
  ms_heads :: u16
  ms_hidden :: u32
  ms_total_sect :: u32
  ms_serno :: bytes
  ms_label :: bytes
  ms_magic :: bytes
  ms_pmagic :: bytes

definition dec_msdos :: "bytes \<Rightarrow> msdos_super_block" where
  "dec_msdos m = \<lparr>ms_sysid = peek m 3 8, ms_sector_size = get16 m 0x0b, ms_cluster_size = get8 m 0x0d,
     ms_reserved = get16 m 0x0e, ms_fats = get8 m 0x10, ms_dir_entries = get16 m 0x11, ms_sectors = get16 m 0x13,
     ms_media = get8 m 0x15, ms_fat_length = get16 m 0x16, ms_secs_track = get16 m 0x18, ms_heads = get16 m 0x1a,
     ms_hidden = get32 m 0x1c, ms_total_sect = get32 m 0x20, ms_serno = peek m 0x27 4, ms_label = peek m 0x2b 11,
     ms_magic = peek m 0x36 8, ms_pmagic = peek m 0x1fe 2\<rparr>"

record vfat_super_block =
  vs_cluster_size :: u8
  vs_dir_entries :: u16
  vs_fat32_length :: u32
  vs_flags :: u16
  vs_version :: bytes
  vs_root_cluster :: u32
  vs_fsinfo_sector :: u16
  vs_backup_boot :: u16
  vs_serno :: bytes
  vs_label :: bytes
  vs_magic :: bytes

definition dec_vfat :: "bytes \<Rightarrow> vfat_super_block" where
  "dec_vfat m = \<lparr>vs_cluster_size = get8 m 0x0d, vs_dir_entries = get16 m 0x11, vs_fat32_length = get32 m 0x24,
     vs_flags = get16 m 0x28, vs_version = peek m 0x2a 2, vs_root_cluster = get32 m 0x2c,
     vs_fsinfo_sector = get16 m 0x30, vs_backup_boot = get16 m 0x32, vs_serno = peek m 0x43 4,
     vs_label = peek m 0x47 11, vs_magic = peek m 0x52 8\<rparr>"

record vfat_dir_entry =
  de_name :: bytes
  de_attr :: u8
  de_cluster_high :: u16
  de_cluster_low :: u16
  de_size :: u32

definition dec_dir_entry :: "bytes \<Rightarrow> vfat_dir_entry" where
  "dec_dir_entry m = \<lparr>de_name = peek m 0 11, de_attr = get8 m 11, de_cluster_high = get16 m 20,
     de_cluster_low = get16 m 26, de_size = get32 m 28\<rparr>"

record fat32_fsinfo =
  fi_signature1 :: bytes
  fi_signature2 :: bytes

definition dec_fsinfo :: "bytes \<Rightarrow> fat32_fsinfo" where
  "dec_fsinfo m = \<lparr>fi_signature1 = peek m 0 4, fi_signature2 = peek m 484 4\<rparr>"

abbreviation FAT12_MAX :: u32 where "FAT12_MAX \<equiv> 0xFF4"
abbreviation FAT16_MAX :: u32 where "FAT16_MAX \<equiv> 0xFFF4"
abbreviation FAT32_MAX :: u32 where "FAT32_MAX \<equiv> 0x0FFFFFF6"
abbreviation FAT_ATTR_VOLUME_ID :: u8 where "FAT_ATTR_VOLUME_ID \<equiv> 0x08"
abbreviation FAT_ATTR_DIR :: u8 where "FAT_ATTR_DIR \<equiv> 0x10"
abbreviation FAT_ATTR_LONG_NAME :: u8 where "FAT_ATTR_LONG_NAME \<equiv> 0x0f"
abbreviation FAT_ATTR_MASK :: u8 where "FAT_ATTR_MASK \<equiv> 0x3f"
abbreviation FAT_ENTRY_FREE :: u8 where "FAT_ENTRY_FREE \<equiv> 0xe5"

definition no_name :: bytes where "no_name = str ''NO NAME    ''"

section \<open>The root directory\<close>

text \<open>Entries from the \<open>i\<close>-th on, at most \<open>n\<close> of them; the result is the name of the label's entry.\<close>

fun search_entries :: "bytes \<Rightarrow> nat \<Rightarrow> nat \<Rightarrow> bytes option" where
  "search_entries dir i 0 = None"
| "search_entries dir i (Suc n) =
     (let ent = dec_dir_entry (drop (32 * i) dir) in
      if get8 (de_name ent) 0 = 0 then None
      else if get8 (de_name ent) 0 = FAT_ENTRY_FREE \<or> de_cluster_high ent \<noteq> 0 \<or> de_cluster_low ent \<noteq> 0 \<or>
        de_attr ent AND FAT_ATTR_MASK = FAT_ATTR_LONG_NAME
      then search_entries dir (i + 1) n
      else if de_attr ent AND (FAT_ATTR_VOLUME_ID OR FAT_ATTR_DIR) = FAT_ATTR_VOLUME_ID then Some (de_name ent)
      else search_entries dir (i + 1) n)"

definition search_fat_label ::
    "os \<Rightarrow> int \<Rightarrow> u64 \<Rightarrow> nat \<Rightarrow> probe_buf \<Rightarrow> trace \<Rightarrow> bytes option \<times> probe_buf \<times> trace" where
  "search_fat_label E fd offset entries b tr =
     (let (dir, b, tr) = blkid_probe_get_buffer E fd (sint offset) (entries * 32) b tr in
      if dir = 0 then (None, b, tr) else (search_entries (pb_mem b) 0 entries, b, tr))"

section \<open>A valid boot sector\<close>

definition is_power_of_2 :: "'a::len word \<Rightarrow> bool" where
  "is_power_of_2 num = (num \<noteq> 0 \<and> num AND (num - 1) = 0)"

text \<open>The result is the number of clusters and the size of the FATs.\<close>

definition fat_valid_superblock ::
    "blkid_idmag \<Rightarrow> msdos_super_block \<Rightarrow> vfat_super_block \<Rightarrow> (u32 \<times> u32) option" where
  "fat_valid_superblock mag ms vs =
     (if length (mg_magic mag) \<le> 2 \<and> (ms_pmagic ms \<noteq> [0x55, 0xAA] \<or>
        ms_magic ms = str ''JFS     '' \<or> ms_magic ms = str ''HPFS    '') then None
      else if ms_fats ms = 0 then None
      else if ms_reserved ms = 0 then None
      else if \<not> (0xf8 \<le> ms_media ms \<or> ms_media ms = 0xf0) then None
      else if \<not> is_power_of_2 (ms_cluster_size ms) then None
      else
        let sector_size = ms_sector_size ms in
        if \<not> is_power_of_2 sector_size \<or> sector_size < 512 \<or> 4096 < sector_size then None
        else
          let dir_entries = ms_dir_entries ms; reserved = ms_reserved ms;
              sect_count = (if ms_sectors ms = 0 then ms_total_sect ms else ucast (ms_sectors ms)) :: u32;
              fat_length = (if ms_fat_length ms = 0 then vs_fat32_length vs else ucast (ms_fat_length ms)) :: u32;
              fat_size = fat_length * ucast (ms_fats ms);
              dir_size = (ucast dir_entries * 32 + (ucast sector_size - 1)) div ucast sector_size :: u32;
              cluster_count = (sect_count - (ucast reserved + fat_size + dir_size)) div ucast (ms_cluster_size ms);
              max_count = (if ms_fat_length ms = 0 \<and> vs_fat32_length vs \<noteq> 0 then FAT32_MAX
                else if FAT12_MAX < cluster_count then FAT16_MAX else FAT12_MAX)
          in if max_count < cluster_count then None else Some (cluster_count, fat_size))"

section \<open>Probing\<close>

text \<open>\<open>label\<close> is the memory of the label and what is behind it in the same object.\<close>

definition set_label :: "blkid_struct_probe \<Rightarrow> bytes \<Rightarrow> trace \<Rightarrow> blkid_struct_probe \<times> trace" where
  "set_label pr label tr =
     (let t = rev (dropWhile (\<lambda>b. b = 32) (rev (take 11 label)));
          label = poke label 0 (t @ zeros (11 - length t))
      in if get8 label 0 = 0 then (pr, tr)
         else let (_, pr, tr) = blkid_probe_set_label pr label 11 tr in (pr, tr))"

text \<open>
  The search of a FAT32 root directory, cluster by cluster. \<open>maxloop\<close> is the variable of the code, which
  starts at 100 and is decremented before it is tested.
\<close>

fun fat32_search ::
    "os \<Rightarrow> int \<Rightarrow> u8 \<Rightarrow> u16 \<Rightarrow> u16 \<Rightarrow> u32 \<Rightarrow> u32 \<Rightarrow> nat \<Rightarrow> u32 \<Rightarrow> probe_buf \<Rightarrow> trace \<Rightarrow> bytes option \<times> probe_buf \<times> trace"
where
  "fat32_search E fd cluster_size sector_size reserved fat_size entries 0 nxt b tr = (None, b, tr)"
| "fat32_search E fd cluster_size sector_size reserved fat_size entries (Suc maxloop) nxt b tr =
     (let buf_size = ucast cluster_size * ucast sector_size :: u32;
          start_data_sect = ucast reserved + fat_size :: u32 in
      if nxt \<noteq> 0 \<and> nxt < entries \<and> maxloop \<noteq> 0 then
        let next_sect_off = (nxt - 2) * ucast cluster_size;
            next_off = ucast (start_data_sect + next_sect_off) * ucast sector_size :: u64;
            (vol_label, b, tr) = search_fat_label E fd next_off (unat (buf_size div 32)) b tr
        in case vol_label of Some l \<Rightarrow> (Some l, b, tr)
           | None \<Rightarrow>
             let fat_entry_off = ucast reserved * ucast sector_size + ucast (nxt * 4) :: u64;
                 (buf, b, tr) = blkid_probe_get_buffer E fd (sint fat_entry_off) (unat buf_size) b tr
             in if buf = 0 then (None, b, tr)
                else fat32_search E fd cluster_size sector_size reserved fat_size entries maxloop
                  (get32 (pb_mem b) 0 AND 0x0fffffff) b tr
      else (None, b, tr))"

text \<open>
  FAT32 should have a signature in the information sector; one that is all zeros is tolerated.
  The result is false when the probe gives up.
\<close>

definition fsinfo_ok :: "os \<Rightarrow> int \<Rightarrow> u16 \<Rightarrow> u16 \<Rightarrow> probe_buf \<Rightarrow> trace \<Rightarrow> bool \<times> probe_buf \<times> trace" where
  "fsinfo_ok E fd fsinfo_sect sector_size b tr =
     (if fsinfo_sect = 0 then (True, b, tr)
      else
        let (buf, b, tr) = blkid_probe_get_buffer E fd (sint (ucast fsinfo_sect * ucast sector_size :: u64)) 512 b tr in
        if buf = 0 then (False, b, tr)
        else
          let fsinfo = dec_fsinfo (pb_mem b) in
          (fi_signature1 fsinfo \<in> {[0x52, 0x52, 0x61, 0x41], [0x52, 0x52, 0x64, 0x41], [0, 0, 0, 0]} \<and>
           fi_signature2 fsinfo \<in> {[0x72, 0x72, 0x41, 0x61], [0, 0, 0, 0]}, b, tr))"

definition serno_uuid :: "bytes \<Rightarrow> bytes" where
  "serno_uuid s = hex2 False (get8 s 3) @ hex2 False (get8 s 2) @ str ''-'' @ hex2 False (get8 s 1) @ hex2 False (get8 s 0)"

text \<open>
  The end of \<open>probe_vfat\<close>: the label is the bytes from the label's first on, as far as the object they are in
  goes: the 11 bytes of a local copy, or the boot sector.
\<close>

definition vfat_found ::
    "blkid_struct_probe \<Rightarrow> bytes option \<Rightarrow> bytes option \<Rightarrow> bytes option \<Rightarrow> trace \<Rightarrow> blkid_struct_probe \<times> trace" where
  "vfat_found pr vol_label vol_serno version tr =
     (let (pr, tr) = (case vol_label of
            Some l \<Rightarrow> if take 11 l \<noteq> no_name then set_label pr l tr else (pr, tr)
          | None \<Rightarrow> (pr, tr));
          pr = (case vol_serno of Some s \<Rightarrow> blkid_probe_sprintf_uuid pr (serno_uuid s) | None \<Rightarrow> pr);
          pr = (case version of Some v \<Rightarrow> snd (blkid_probe_set_version pr v) | None \<Rightarrow> pr)
      in (pr, tr))"

definition probe_vfat ::
    "os \<Rightarrow> blkid_struct_probe \<Rightarrow> blkid_idmag \<Rightarrow> probe_buf \<Rightarrow> trace \<Rightarrow> int \<times> blkid_struct_probe \<times> probe_buf \<times> trace" where
  "probe_vfat E pr mag b tr =
     (let fd = pr_fd pr; off = int (push_bit 10 (mg_kboff mag));
          (msp, b, tr) = blkid_probe_get_buffer E fd off 512 b tr in
      if msp = 0 then (0, pr, b, tr)
      else
        let (vsp, b, tr) = blkid_probe_get_buffer E fd off 512 b tr in
        if vsp = 0 then (0, pr, b, tr)
        else
          let (m, tr) = at_ptr msp b tr; (v, tr) = at_ptr vsp b tr; m = take 512 m; v = take 512 v;
              ms = dec_msdos m; vs = dec_vfat v in
          case fat_valid_superblock mag ms vs of
            None \<Rightarrow> (1, pr, b, tr)
          | Some (cluster_count, fat_size) \<Rightarrow>
              let sector_size = ms_sector_size ms; reserved = ms_reserved ms in
              if ms_fat_length ms \<noteq> 0 then
                let root_start = (ucast reserved + fat_size) * ucast sector_size :: u32;
                    (vol_label, b, tr) = search_fat_label E fd (ucast root_start) (unat (vs_dir_entries vs)) b tr;
                    vol_label = (case vol_label of
                      Some l \<Rightarrow> if l = no_name then drop 0x2b m else l | None \<Rightarrow> drop 0x2b m);
                    version = (if cluster_count < FAT12_MAX then Some (str ''FAT12'')
                      else if cluster_count < FAT16_MAX then Some (str ''FAT16'') else None);
                    (pr, tr) = vfat_found pr (Some vol_label) (Some (ms_serno ms)) version tr
                in (0, pr, b, tr)
              else if vs_fat32_length vs \<noteq> 0 then
                let entries = vs_fat32_length vs * ucast sector_size div 4;
                    (vol_label, b, tr) = fat32_search E fd (vs_cluster_size vs) sector_size reserved fat_size entries 100
                      (vs_root_cluster vs) b tr;
                    vol_label = (case vol_label of Some l \<Rightarrow> if l = no_name then None else Some l | None \<Rightarrow> None);
                    (good, b, tr) = fsinfo_ok E fd (vs_fsinfo_sector vs) sector_size b tr
                in if \<not> good then (-1, pr, b, tr)
                   else
                     let (pr, tr) = vfat_found pr vol_label (Some (vs_serno vs)) (Some (str ''FAT32'')) tr in (0, pr, b, tr)
              else
                let (pr, tr) = vfat_found pr None None None tr in (0, pr, b, tr))"

definition vfat_magics :: "blkid_idmag list" where
  "vfat_magics = [
     \<lparr>mg_magic = str ''FAT32   '', mg_kboff = 0, mg_sboff = 0x52\<rparr>,
     \<lparr>mg_magic = str ''MSDOS'', mg_kboff = 0, mg_sboff = 0x36\<rparr>,
     \<lparr>mg_magic = str ''MSWIN'', mg_kboff = 0, mg_sboff = 0x52\<rparr>,
     \<lparr>mg_magic = str ''FAT16   '', mg_kboff = 0, mg_sboff = 0x36\<rparr>,
     \<lparr>mg_magic = str ''FAT12   '', mg_kboff = 0, mg_sboff = 0x36\<rparr>,
     \<lparr>mg_magic = str ''FAT     '', mg_kboff = 0, mg_sboff = 0x36\<rparr>]"

end
