(* ===== verification/Ustor_Fs.thy ===== *)
theory Ustor_Fs
  imports Ustor_Fat
begin

text \<open>
  ntfs.c, exfat.c and hfs.c: recognising these volumes and finding their labels. The pointers of the
  code into the shared buffer are read at the point where the code reads them.
\<close>

section \<open>NTFS\<close>

record ntfs_super_block =
  ns_sector_size :: u16
  ns_sectors_per_cluster :: u8
  ns_reserved_sectors :: u16
  ns_fats :: u8
  ns_root_entries :: u16
  ns_sectors :: u16
  ns_sectors_per_fat :: u16
  ns_large_sectors :: u32
  ns_number_of_sectors :: u64
  ns_mft_cluster_location :: u64
  ns_mft_mirror_cluster_location :: u64
  ns_clusters_per_mft_record :: u8
  ns_volume_serial :: u64

definition dec_ntfs :: "bytes \<Rightarrow> ntfs_super_block" where
  "dec_ntfs m = \<lparr>ns_sector_size = get16 m 11, ns_sectors_per_cluster = get8 m 13, ns_reserved_sectors = get16 m 14,
     ns_fats = get8 m 16, ns_root_entries = get16 m 17, ns_sectors = get16 m 19, ns_sectors_per_fat = get16 m 22,
     ns_large_sectors = get32 m 32, ns_number_of_sectors = get64 m 40, ns_mft_cluster_location = get64 m 48,
     ns_mft_mirror_cluster_location = get64 m 56, ns_clusters_per_mft_record = get8 m 64,
     ns_volume_serial = get64 m 72\<rparr>"

record master_file_table_record =
  mft_magic :: bytes
  mft_attrs_offset :: u16
  mft_bytes_allocated :: u32

definition dec_mft :: "bytes \<Rightarrow> master_file_table_record" where
  "dec_mft m = \<lparr>mft_magic = peek m 0 4, mft_attrs_offset = get16 m 20, mft_bytes_allocated = get32 m 28\<rparr>"

record file_attribute =
  fa_type :: u32
  fa_len :: u32
  fa_value_len :: u32
  fa_value_offset :: u16

definition dec_attribute :: "bytes \<Rightarrow> file_attribute" where
  "dec_attribute m = \<lparr>fa_type = get32 m 0, fa_len = get32 m 4, fa_value_len = get32 m 16, fa_value_offset = get16 m 20\<rparr>"

abbreviation MFT_RECORD_VOLUME :: u32 where "MFT_RECORD_VOLUME \<equiv> 3"
abbreviation NTFS_MAX_CLUSTER_SIZE :: nat where "NTFS_MAX_CLUSTER_SIZE \<equiv> 65536"
abbreviation MFT_RECORD_ATTR_VOLUME_NAME :: u32 where "MFT_RECORD_ATTR_VOLUME_NAME \<equiv> 0x60"
abbreviation MFT_RECORD_ATTR_END :: u32 where "MFT_RECORD_ATTR_END \<equiv> 0xffffffff"

text \<open>The checks of the boot sector; the result is the size of a record of the file table.\<close>

definition ntfs_valid :: "ntfs_super_block \<Rightarrow> u32 option" where
  "ntfs_valid ns =
     (let sector_size = ns_sector_size ns; spc = ns_sectors_per_cluster ns; cpm = ns_clusters_per_mft_record ns in
      if sector_size < 256 \<or> 4096 < sector_size then None
      else if spc \<notin> {1, 2, 4, 8, 16, 32, 64, 128} then None
      else if NTFS_MAX_CLUSTER_SIZE < unat sector_size * unat spc then None
      else if ns_reserved_sectors ns \<noteq> 0 \<or> ns_root_entries ns \<noteq> 0 \<or> ns_sectors ns \<noteq> 0 \<or> ns_sectors_per_fat ns \<noteq> 0 \<or>
        ns_large_sectors ns \<noteq> 0 \<or> ns_fats ns \<noteq> 0 then None
      else if (cpm < 0xe1 \<or> 0xf7 < cpm) \<and> cpm \<notin> {1, 2, 4, 8, 16, 32, 64} then None
      else
        let mft_record_size = (if 0 < sint cpm then ucast cpm * ucast spc * ucast sector_size
              else push_bit (nat (- sint cpm)) 1) :: u32;
            nr_clusters = ns_number_of_sectors ns div ucast spc
        in if nr_clusters < ns_mft_cluster_location ns \<or> nr_clusters < ns_mft_mirror_cluster_location ns then None
           else Some mft_record_size)"

text \<open>The attributes of the volume's record, up to its name.\<close>

function ntfs_attributes ::
    "u32 \<Rightarrow> bytes \<Rightarrow> u32 \<Rightarrow> blkid_struct_probe \<Rightarrow> trace \<Rightarrow> blkid_struct_probe \<times> trace" where
  "ntfs_attributes mft_record_size mem attr_off pr tr =
     (if attr_off < mft_record_size \<and> attr_off \<le> mft_bytes_allocated (dec_mft mem) then
        let attr = dec_attribute (drop (unat attr_off) mem); attr_len = fa_len attr;
            tr = fault_if (length mem < unat attr_off + 8) OutOfBounds tr
        in if attr_len = 0 then (pr, tr)
           else if fa_type attr = MFT_RECORD_ATTR_END then (pr, tr)
           else if fa_type attr = MFT_RECORD_ATTR_VOLUME_NAME then
             blkid_probe_set_utf8label pr mem (unat attr_off + unat (fa_value_offset attr)) (unat (fa_value_len attr))
               BLKID_ENC_UTF16LE (fault_if (length mem < unat attr_off + 22) OutOfBounds tr)
           else if 0xffffffff - attr_len < attr_off then (pr, tr)
           else ntfs_attributes mft_record_size mem (attr_off + attr_len) pr tr
      else (pr, tr))"
  by pat_completeness auto
termination
proof (relation "measure (\<lambda>(n, mem, off, pr, tr). 2 ^ 32 - unat off)")
  fix n off k :: u32
  fix mem pr tr and attr :: file_attribute and tr' :: trace
  assume a: "k \<noteq> 0" "\<not> 0xffffffff - k < off"
  have lim: "unat x < 4294967296" for x :: u32 using unsigned_less [of x] by simp
  have "unat k + unat off < 4294967296"
  proof -
    have "k \<le> 0xffffffff" using lim [of k] by (simp add: word_le_nat_alt)
    then have "unat (0xffffffff - k) = 4294967295 - unat k" by (simp add: unat_sub)
    moreover have "unat off \<le> unat (0xffffffff - k)" using a(2) by (simp add: word_le_nat_alt not_less)
    ultimately show ?thesis using lim [of k] by linarith
  qed
  then have "unat (off + k) = unat off + unat k" by (subst unat_add_lem [THEN iffD1]) simp_all
  moreover have "0 < unat k" using a(1) by (simp add: unat_gt_0)
  moreover have "unat off < 2 ^ 32" using unsigned_less [of off] by simp
  ultimately show "((n, mem, off + k, pr, tr'), (n, mem, off, pr, tr)) \<in> measure (\<lambda>(n, mem, off, pr, tr). 2 ^ 32 - unat off)"
    by simp
qed simp

declare ntfs_attributes.simps [simp del]

text \<open>
  \<open>probe_ntfs\<close>; \<open>ns\<close> is a pointer into the shared buffer, which is used again at the end, when the
  buffer holds something else.
\<close>

definition probe_ntfs ::
    "os \<Rightarrow> blkid_struct_probe \<Rightarrow> blkid_idmag \<Rightarrow> probe_buf \<Rightarrow> trace \<Rightarrow> int \<times> blkid_struct_probe \<times> probe_buf \<times> trace" where
  "probe_ntfs E pr mag b tr =
     (let fd = pr_fd pr; (nsp, b, tr) = blkid_probe_get_buffer E fd (int (push_bit 10 (mg_kboff mag))) 84 b tr in
      if nsp = 0 then (-1, pr, b, tr)
      else
        let (m, tr) = at_ptr nsp b tr; ns = dec_ntfs m in
        case ntfs_valid ns of None \<Rightarrow> (1, pr, b, tr)
        | Some mft_record_size \<Rightarrow>
          let start = ns_mft_cluster_location ns * ucast (ns_sector_size ns) * ucast (ns_sectors_per_cluster ns);
              (buf_mft, b, tr) = blkid_probe_get_buffer E fd (sint start) (unat mft_record_size) b tr in
          if buf_mft = 0 then (1, pr, b, tr)
          else if peek (pb_mem b) 0 4 \<noteq> str ''FILE'' then (1, pr, b, tr)
          else
            let start = start + ucast (MFT_RECORD_VOLUME * mft_record_size);
                (buf_mft, b, tr) = blkid_probe_get_buffer E fd (sint start) (unat mft_record_size) b tr in
            if buf_mft = 0 then (1, pr, b, tr)
            else if peek (pb_mem b) 0 4 \<noteq> str ''FILE'' then (1, pr, b, tr)
            else
              let (pr, tr) = ntfs_attributes mft_record_size (pb_mem b) (ucast (mft_attrs_offset (dec_mft (pb_mem b)))) pr tr;
                  (m, tr) = at_ptr nsp b tr
              in (0, blkid_probe_sprintf_uuid pr (concat (map (hex2 True) (rev (put64 (ns_volume_serial (dec_ntfs m)))))), b, tr))"

definition ntfs_magics :: "blkid_idmag list" where
  "ntfs_magics = [\<lparr>mg_magic = str ''NTFS '', mg_kboff = 0, mg_sboff = 3\<rparr>]"

section \<open>exFAT\<close>

record exfat_super_block =
  ex_fat_block_start :: u32
  ex_cluster_block_start :: u32
  ex_rootdir_cluster :: u32
  ex_volume_serial :: bytes
  ex_version_minor :: u8
  ex_version_major :: u8
  ex_block_bits :: u8
  ex_bpc_bits :: u8

definition dec_exfat :: "bytes \<Rightarrow> exfat_super_block" where
  "dec_exfat m = \<lparr>ex_fat_block_start = get32 m 80, ex_cluster_block_start = get32 m 88, ex_rootdir_cluster = get32 m 96,
     ex_volume_serial = peek m 100 4, ex_version_minor = get8 m 104, ex_version_major = get8 m 105,
     ex_block_bits = get8 m 108, ex_bpc_bits = get8 m 109\<rparr>"

abbreviation EXFAT_FIRST_DATA_CLUSTER :: u32 where "EXFAT_FIRST_DATA_CLUSTER \<equiv> 2"
abbreviation EXFAT_LAST_DATA_CLUSTER :: u32 where "EXFAT_LAST_DATA_CLUSTER \<equiv> 0xffffff6"
abbreviation EXFAT_ENTRY_SIZE :: nat where "EXFAT_ENTRY_SIZE \<equiv> 32"
abbreviation EXFAT_ENTRY_EOD :: u8 where "EXFAT_ENTRY_EOD \<equiv> 0x00"
abbreviation EXFAT_ENTRY_LABEL :: u8 where "EXFAT_ENTRY_LABEL \<equiv> 0x83"

definition CLUSTER_SIZE :: "exfat_super_block \<Rightarrow> u32" where
  "CLUSTER_SIZE sb = push_bit (unat (ex_bpc_bits sb)) (push_bit (unat (ex_block_bits sb)) 1)"

definition block_to_offset :: "exfat_super_block \<Rightarrow> u64 \<Rightarrow> u64" where
  "block_to_offset sb block = push_bit (unat (ex_block_bits sb)) block"

definition cluster_to_block :: "exfat_super_block \<Rightarrow> u32 \<Rightarrow> u64" where
  "cluster_to_block sb cluster =
     ucast (ex_cluster_block_start sb) + push_bit (unat (ex_bpc_bits sb)) (ucast (cluster - EXFAT_FIRST_DATA_CLUSTER))"

definition cluster_to_offset :: "exfat_super_block \<Rightarrow> u32 \<Rightarrow> u64" where
  "cluster_to_offset sb cluster = block_to_offset sb (cluster_to_block sb cluster)"

text \<open>\<open>sb\<close> is the pointer to the super block; it is in the buffer that the reads below overwrite.\<close>

definition next_cluster :: "os \<Rightarrow> int \<Rightarrow> ptr \<Rightarrow> u32 \<Rightarrow> probe_buf \<Rightarrow> trace \<Rightarrow> u32 \<times> probe_buf \<times> trace" where
  "next_cluster E fd sb cluster b tr =
     (let (m, tr) = at_ptr sb b tr;
          fat_offset = block_to_offset (dec_exfat m) (ucast (ex_fat_block_start (dec_exfat m))) + ucast cluster * 4;
          (nxt, b, tr) = blkid_probe_get_buffer E fd (sint fat_offset) 4 b tr
      in if nxt = 0 then (0, b, tr) else (get32 (pb_mem b) 0, b, tr))"

partial_function (option) find_label_loop ::
    "os \<Rightarrow> int \<Rightarrow> ptr \<Rightarrow> u32 \<Rightarrow> u64 \<Rightarrow> probe_buf \<Rightarrow> trace \<Rightarrow> (bytes option \<times> probe_buf \<times> trace) option" where
  "find_label_loop E fd sb cluster offset b tr =
     (let (entry, b, tr) = blkid_probe_get_buffer E fd (sint offset) EXFAT_ENTRY_SIZE b tr in
      if entry = 0 then Some (None, b, tr)
      else if get8 (pb_mem b) 0 = EXFAT_ENTRY_EOD then Some (None, b, tr)
      else if get8 (pb_mem b) 0 = EXFAT_ENTRY_LABEL then Some (Some (take 32 (pb_mem b)), b, tr)
      else
        let offset = offset + of_nat EXFAT_ENTRY_SIZE; (m, tr) = at_ptr sb b tr in
        if sint offset mod sint (CLUSTER_SIZE (dec_exfat m)) = 0 then
          let (cluster, b, tr) = next_cluster E fd sb cluster b tr in
          if cluster < EXFAT_FIRST_DATA_CLUSTER then Some (None, b, tr)
          else if EXFAT_LAST_DATA_CLUSTER < cluster then Some (None, b, tr)
          else let (m, tr) = at_ptr sb b tr in find_label_loop E fd sb cluster (cluster_to_offset (dec_exfat m) cluster) b tr
        else find_label_loop E fd sb cluster offset b tr)"

declare find_label_loop.simps [code]

definition find_label :: "os \<Rightarrow> int \<Rightarrow> ptr \<Rightarrow> probe_buf \<Rightarrow> trace \<Rightarrow> (bytes option \<times> probe_buf \<times> trace) option" where
  "find_label E fd sb b tr =
     (let (m, tr) = at_ptr sb b tr; cluster = ex_rootdir_cluster (dec_exfat m)
      in find_label_loop E fd sb cluster (cluster_to_offset (dec_exfat m) cluster) b tr)"

definition exfat_uuid :: "bytes \<Rightarrow> bytes" where
  "exfat_uuid s = hex2 True (get8 s 3) @ hex2 True (get8 s 2) @ str ''-'' @ hex2 True (get8 s 1) @ hex2 True (get8 s 0)"

definition probe_exfat ::
    "os \<Rightarrow> blkid_struct_probe \<Rightarrow> blkid_idmag \<Rightarrow> probe_buf \<Rightarrow> trace \<Rightarrow> (int \<times> blkid_struct_probe \<times> probe_buf \<times> trace) option"
where
  "probe_exfat E pr mag b tr =
     (let (sb, b, tr) = blkid_probe_get_buffer E (pr_fd pr) (int (push_bit 10 (mg_kboff mag))) 113 b tr in
      if sb = 0 then Some (-1, pr, b, tr)
      else
        let (m, tr) = at_ptr sb b tr; x = dec_exfat m;
            pr = blkid_probe_sprintf_uuid pr (exfat_uuid (ex_volume_serial x));
            pr = blkid_probe_sprintf_version pr
              (dec_str (unat (ex_version_major x)) @ str ''.'' @ dec_str (unat (ex_version_minor x)))
        in do {
          (label, b, tr) \<leftarrow> find_label E (pr_fd pr) sb b tr;
          let (pr, tr) = (case label of None \<Rightarrow> (pr, tr)
            | Some e \<Rightarrow> blkid_probe_set_utf8label pr e 2 (min (unat (get8 e 1) * 2) 30) BLKID_ENC_UTF16LE tr)
          in Some (0, pr, b, tr)
        })"

definition exfat_magics :: "blkid_idmag list" where
  "exfat_magics = [\<lparr>mg_magic = str ''EXFAT   '', mg_kboff = 0, mg_sboff = 3\<rparr>]"

end
