(* ===== verification/Ustor_Volume.thy ===== *)
theory Ustor_Volume
  imports Ustor_Fs
begin

text \<open>
  hfs.c, and the entry points of libblkid-tiny.c: which file system a volume has, and whether a disk and
  a partition are partitioned and reserved by EFI.
\<close>

section \<open>HFS and HFS+\<close>

record hfs_mdb =
  hm_signature :: bytes
  hm_al_blk_size :: u32
  hm_al_bl_st :: u16
  hm_label_len :: u8
  hm_embed_sig :: bytes
  hm_embed_startblock :: u16

definition dec_hfs_mdb :: "bytes \<Rightarrow> hfs_mdb" where
  "dec_hfs_mdb m = \<lparr>hm_signature = peek m 0 2, hm_al_blk_size = htonl (get32 m 20), hm_al_bl_st = htons (get16 m 28),
     hm_label_len = get8 m 36, hm_embed_sig = peek m 124 2, hm_embed_startblock = htons (get16 m 126)\<rparr>"

record hfsplus_extent =
  he_start_block :: u32
  he_block_count :: u32

definition dec_extent :: "bytes \<Rightarrow> hfsplus_extent" where
  "dec_extent m = \<lparr>he_start_block = htonl (get32 m 0), he_block_count = htonl (get32 m 4)\<rparr>"

record hfsplus_vol_header =
  hv_signature :: bytes
  hv_blocksize :: u32
  hv_cat_extents :: "hfsplus_extent list"

definition dec_vol_header :: "bytes \<Rightarrow> hfsplus_vol_header" where
  "dec_vol_header m = \<lparr>hv_signature = peek m 0 2, hv_blocksize = htonl (get32 m 40),
     hv_cat_extents = dec_array dec_extent 8 8 (drop 288 m)\<rparr>"

record hfsplus_bheader_record =
  hb_leaf_count :: u32
  hb_leaf_head :: u32
  hb_node_size :: u16

definition dec_bheader :: "bytes \<Rightarrow> hfsplus_bheader_record" where
  "dec_bheader m = \<lparr>hb_leaf_count = htonl (get32 m 6), hb_leaf_head = htonl (get32 m 10), hb_node_size = htons (get16 m 18)\<rparr>"

abbreviation HFSPLUS_SECTOR_SIZE :: u32 where "HFSPLUS_SECTOR_SIZE \<equiv> 512"

definition is_hfsplus :: "bytes \<Rightarrow> bool" where "is_hfsplus sig = (sig = str ''H+'' \<or> sig = str ''HX'')"

definition probe_hfs ::
    "os \<Rightarrow> blkid_struct_probe \<Rightarrow> blkid_idmag \<Rightarrow> probe_buf \<Rightarrow> trace \<Rightarrow> int \<times> blkid_struct_probe \<times> probe_buf \<times> trace" where
  "probe_hfs E pr mag b tr =
     (let (hfs, b, tr) = blkid_probe_get_buffer E (pr_fd pr) (int (push_bit 10 (mg_kboff mag))) 130 b tr in
      if hfs = 0 then (-1, pr, b, tr)
      else
        let h = dec_hfs_mdb (pb_mem b) in
        if is_hfsplus (hm_embed_sig h) then (1, pr, b, tr)
        else
          let (_, pr, tr) = blkid_probe_set_label pr (drop 37 (pb_mem b)) (unat (hm_label_len h)) tr
          in (0, pr, b, tr))"

text \<open>The extent of the catalogue that has the block, with its first block: the loop over \<open>ext\<close>.\<close>

fun find_extent :: "hfsplus_extent list \<Rightarrow> u32 \<Rightarrow> (u32 \<times> u32) option" where
  "find_extent [] leaf_block = None"
| "find_extent (e # es) leaf_block =
     (if he_block_count e = 0 then None
      else if leaf_block < he_block_count e then Some (he_start_block e, leaf_block)
      else find_extent es (leaf_block - he_block_count e))"

definition probe_hfsplus ::
    "os \<Rightarrow> blkid_struct_probe \<Rightarrow> blkid_idmag \<Rightarrow> probe_buf \<Rightarrow> trace \<Rightarrow> int \<times> blkid_struct_probe \<times> probe_buf \<times> trace" where
  "probe_hfsplus E pr mag b tr =
     (let fd = pr_fd pr; start = int (push_bit 10 (mg_kboff mag));
          (sbd, b, tr) = blkid_probe_get_buffer E fd start 130 b tr in
      if sbd = 0 then (-1, pr, b, tr)
      else
        let sb = dec_hfs_mdb (pb_mem b); embedded = (hm_signature sb = str ''BD'') in
        if embedded \<and> \<not> is_hfsplus (hm_embed_sig sb) then (1, pr, b, tr)
        else
          let off = (if embedded then ucast (hm_al_bl_st sb) * 512 + ucast (hm_embed_startblock sb) * hm_al_blk_size sb
                else 0) :: u32;
              (hfsplus, b, tr) = blkid_probe_get_buffer E fd
                (if embedded then int (unat (off + of_nat (mg_kboff mag * 1024))) else start) 512 b tr
          in if hfsplus = 0 then (-1, pr, b, tr)
             else
               let h = dec_vol_header (pb_mem b); blocksize = hv_blocksize h; extents = hv_cat_extents h in
               if \<not> is_hfsplus (hv_signature h) then (1, pr, b, tr)
               else if blocksize < HFSPLUS_SECTOR_SIZE then (-1, pr, b, tr)
               else
                 let cat_block = he_start_block (extents ! 0);
                     (buf, b, tr) = blkid_probe_get_buffer E fd
                       (sint (ucast off + ucast cat_block * ucast blocksize :: u64)) 0x2000 b tr
                 in if buf = 0 then (0, pr, b, tr)
                    else
                      let bnode = dec_bheader (drop 14 (pb_mem b)) in
                      if hb_leaf_count bnode = 0 then (0, pr, b, tr)
                      else
                        (case find_extent extents (hb_leaf_head bnode * ucast (hb_node_size bnode) div blocksize) of
                          None \<Rightarrow> (0, pr, b, tr)
                        | Some (first, leaf_block) \<Rightarrow>
                            let leaf_off = (first + leaf_block) * blocksize;
                                (_, b, tr) = blkid_probe_get_buffer E fd (sint (ucast off + ucast leaf_off :: u64))
                                  (unat (hb_node_size bnode)) b tr
                            in (0, pr, b, tr)))"

definition hfs_magics :: "blkid_idmag list" where
  "hfs_magics = [\<lparr>mg_magic = str ''BD'', mg_kboff = 1, mg_sboff = 0\<rparr>]"

definition hfsplus_magics :: "blkid_idmag list" where
  "hfsplus_magics = map (\<lambda>s. \<lparr>mg_magic = s, mg_kboff = 1, mg_sboff = 0\<rparr>) [str ''BD'', str ''H+'', str ''HX'']"

section \<open>Probing a device\<close>

record blkid_idinfo =
  id_name :: bytes
  id_probefunc :: "os \<Rightarrow> blkid_struct_probe \<Rightarrow> blkid_idmag \<Rightarrow> probe_buf \<Rightarrow> trace \<Rightarrow>
    (int \<times> blkid_struct_probe \<times> probe_buf \<times> trace) option"
  id_magics :: "blkid_idmag list"

definition idinfos :: "blkid_idinfo list" where
  "idinfos = [
     \<lparr>id_name = str ''vfat'', id_probefunc = (\<lambda>E pr mag b tr. Some (probe_vfat E pr mag b tr)), id_magics = vfat_magics\<rparr>,
     \<lparr>id_name = str ''ntfs'', id_probefunc = (\<lambda>E pr mag b tr. Some (probe_ntfs E pr mag b tr)), id_magics = ntfs_magics\<rparr>,
     \<lparr>id_name = str ''exfat'', id_probefunc = probe_exfat, id_magics = exfat_magics\<rparr>,
     \<lparr>id_name = str ''hfsplus'', id_probefunc = (\<lambda>E pr mag b tr. Some (probe_hfsplus E pr mag b tr)), id_magics = hfsplus_magics\<rparr>,
     \<lparr>id_name = str ''hfs'', id_probefunc = (\<lambda>E pr mag b tr. Some (probe_hfs E pr mag b tr)), id_magics = hfs_magics\<rparr>]"

text \<open>The first magic that the device has at its place; \<open>magic\<close> is a zeroed array of 32 bytes.\<close>

fun find_magic :: "os \<Rightarrow> int \<Rightarrow> blkid_idmag list \<Rightarrow> trace \<Rightarrow> blkid_idmag option \<times> trace" where
  "find_magic E fd [] tr = (None, tr)"
| "find_magic E fd (mag # mags) tr =
     (let tr = just_call E (File (Lseek fd (int (mg_kboff mag * 1024 + mg_sboff mag)))) tr; n = length (mg_magic mag);
          (_, data, _, tr) = read_fd E fd n tr
      in if take n (data @ zeros 32) = mg_magic mag then (Some mag, tr) else find_magic E fd mags tr)"

fun probe_loop ::
    "os \<Rightarrow> bytes \<Rightarrow> blkid_idinfo list \<Rightarrow> blkid_struct_probe \<Rightarrow> probe_buf \<Rightarrow> trace \<Rightarrow>
     (blkid_struct_probe \<times> probe_buf \<times> trace) option" where
  "probe_loop E block [] pr b tr = Some (pr, b, tr)"
| "probe_loop E block (info # infos) pr b tr =
     (let (mag, tr) = find_magic E (pr_fd pr) (id_magics info) tr in
      case mag of
        None \<Rightarrow> probe_loop E block infos pr b tr
      | Some mag \<Rightarrow> do {
          (err, pr, b, tr) \<leftarrow> id_probefunc info E pr mag b tr;
          let pr = pr\<lparr>pr_err := err, pr_id := Some (id_name info), pr_dev := block\<rparr>; tr = into 32 block tr in
          if err = 0 then Some (pr, b, tr) else probe_loop E block infos pr b tr
        })"

abbreviation S_IFMT :: nat where "S_IFMT \<equiv> 61440"
abbreviation S_IFBLK :: nat where "S_IFBLK \<equiv> 24576"
abbreviation S_IFREG :: nat where "S_IFREG \<equiv> 32768"

definition probe_block ::
    "os \<Rightarrow> bytes \<Rightarrow> blkid_struct_probe \<Rightarrow> probe_buf \<Rightarrow> trace \<Rightarrow> (int \<times> blkid_struct_probe \<times> probe_buf \<times> trace) option" where
  "probe_block E block pr b tr =
     (let (s, tr) = do_call E (File (Stat block)) tr in
      if a_ret s \<noteq> 0 \<or> a_num s AND S_IFMT \<notin> {S_IFBLK, S_IFREG} then Some (-1, pr, b, tr)
      else
        let (fd, tr) = ret_call E (File (Open block O_RDONLY)) tr; pr = pr\<lparr>pr_err := -1, pr_fd := fd\<rparr> in
        if fd = 0 then Some (-1, pr, b, tr)
        else do {
          (pr, b, tr) \<leftarrow> probe_loop E block idinfos pr b tr;
          Some (0, pr, b, just_call E (File (CloseFd (pr_fd pr))) tr)
        })"

section \<open>Partition tables\<close>

definition dev_name :: "bytes \<Rightarrow> bytes" where
  "dev_name block = (if starts_with (str ''/dev/'') block then cstr block else sprintf_dev (cstr block))"

text \<open>The device is opened after \<open>access\<close>; a failed \<open>open\<close> is closed, too.\<close>

definition open_disk :: "os \<Rightarrow> bytes \<Rightarrow> trace \<Rightarrow> int option \<times> trace" where
  "open_disk E devname tr =
     (let (r, tr) = ret_call E (File (Access devname)) tr in
      if r \<noteq> 0 then (None, tr @ [Fault Uninitialised])
      else let (fd, tr) = ret_call E (File (Open devname O_RDONLY)) tr in
        if fd < 0 then (None, just_call E (File (CloseFd fd)) tr) else (Some fd, tr))"

definition probe_ptable_gpt :: "os \<Rightarrow> bytes \<Rightarrow> trace \<Rightarrow> int \<times> trace" where
  "probe_ptable_gpt E block tr =
     (let (fd, tr) = open_disk E (dev_name block) (into 256 (dev_name block) tr) in
      case fd of None \<Rightarrow> (-1, tr)
      | Some fd \<Rightarrow>
        let (n, sector, _, tr) = read_fd E fd 512 tr; tr = just_call E (File (CloseFd fd)) tr in
        if n \<noteq> 512 then (-1, tr)
        else if \<not> (get8 sector 510 = 0x55 \<and> get8 sector 511 = 0xaa) then (-1, tr)
        else (if get8 sector 0x1C2 \<in> {0xEE, 0xEF} then 1 else 0, tr))"

definition GPT_EFI_UID :: bytes where
  "GPT_EFI_UID = [0x28, 0x73, 0x2A, 0xC1, 0x1F, 0xF8, 0xD2, 0x11, 0xBA, 0x4B, 0x00, 0xA0, 0xC9, 0x3E, 0xC9, 0x3B]"

definition GPT_EFI_UID_INTEL :: bytes where
  "GPT_EFI_UID_INTEL = [0xC1, 0x2A, 0x73, 0x28, 0xF8, 0x1F, 0x11, 0xD2, 0xBA, 0x4B, 0x00, 0xA0, 0xC9, 0x3E, 0xC9, 0x3B]"

definition GPT_MSR_UID :: bytes where
  "GPT_MSR_UID = [0x16, 0xE3, 0xC9, 0xE3, 0x5C, 0x0B, 0xB8, 0x4D, 0x81, 0x7D, 0xF9, 0x2D, 0xF0, 0x02, 0x15, 0xAE]"

text \<open>A partition's name, in UTF-16, padded to the 72 bytes of its field.\<close>

definition utf16_name :: "string \<Rightarrow> bytes" where
  "utf16_name s = take 72 (concat (map (\<lambda>b. [b, 0]) (str s)) @ zeros 72)"

definition GPT_PT_MSR :: bytes where "GPT_PT_MSR = utf16_name ''Microsoft reserved partition''"
definition GPT_PT_EFI :: bytes where "GPT_PT_EFI = utf16_name ''EFI System Partition''"
definition GPT_PT_EFI_WIN :: bytes where "GPT_PT_EFI_WIN = utf16_name ''EFI system partition''"

definition gpt_signature :: bytes where "gpt_signature = [0x45, 0x46, 0x49, 0x20, 0x50, 0x41, 0x52, 0x54]"

abbreviation DISK_GPT_PT_SIZE :: nat where "DISK_GPT_PT_SIZE \<equiv> 128"
abbreviation DISK_GPT_CD_LEN :: nat where "DISK_GPT_CD_LEN \<equiv> 72"
abbreviation DISK_GPT_CD_OFFSET :: nat where "DISK_GPT_CD_OFFSET \<equiv> 0x38"

text \<open>Whether the entry of a partition says that it is reserved.\<close>

definition efi_entry :: "bytes \<Rightarrow> bool" where
  "efi_entry ptable =
     (take 16 ptable \<in> {GPT_EFI_UID, GPT_EFI_UID_INTEL, GPT_MSR_UID} \<or>
      peek ptable DISK_GPT_CD_OFFSET DISK_GPT_CD_LEN \<in> {GPT_PT_EFI, GPT_PT_EFI_WIN, GPT_PT_MSR})"

definition probe_efi_partition :: "os \<Rightarrow> bytes \<Rightarrow> bytes \<Rightarrow> trace \<Rightarrow> int \<times> trace" where
  "probe_efi_partition E dev pdev tr =
     (let n = length (cstr dev); close = (\<lambda>fd. just_call E (File (CloseFd fd))) in
      if take n (cstr pdev) \<noteq> cstr dev then (-1, tr)
      else
        let ptnum = atoi (drop n (cstr pdev));
            (fd, tr) = open_disk E (dev_name dev) (into 256 (dev_name dev) tr) in
        case fd of None \<Rightarrow> (-1, tr)
        | Some fd \<Rightarrow>
          let (r, tr) = ret_call E (File (Lseek fd 512)) tr in
          if r < 0 then (-1, close fd tr)
          else
            let (k, sector, _, tr) = read_fd E fd 512 tr in
            if k \<noteq> 512 then (-1, close fd tr)
            else if take 8 sector \<noteq> gpt_signature then (0, close fd tr)
            else
              let (r, tr) = ret_call E (File (LseekCur fd ((ptnum - 1) * int DISK_GPT_PT_SIZE))) tr in
              if r < 0 then (-1, close fd tr)
              else
                let (k, ptable, _, tr) = read_fd E fd DISK_GPT_PT_SIZE tr; tr = close fd tr in
                if k \<noteq> int DISK_GPT_PT_SIZE then (-1, tr)
                else (if efi_entry ptable then 1 else 0, tr))"

end
