(* ===== verification/Ustor_Registry.thy ===== *)
theory Ustor_Registry
  imports Ustor_Volume
begin

text \<open>
  disk_manager.c, first part, with sg_io.c: the disk manager's list of disks and partitions, what it reads
  from its configuration, and how a disk or a partition gets into the list. A \<open>char\<close> array that is
  only written by string functions is the string in it; a C list is the list of its nodes and a
  pointer to a node its position.
\<close>

section \<open>The device (sg_io.c)\<close>

text \<open>A device that cannot be opened for writing because it is write-protected is opened for reading.\<close>

definition sg_open :: "os \<Rightarrow> bytes \<Rightarrow> trace \<Rightarrow> int \<times> trace" where
  "sg_open E devname tr =
     (let (a, tr) = do_call E (File (Open devname (O_RDWR + O_NONBLOCK))) tr in
      if a_ret a < 0 \<and> a_errno a = EROFS then ret_call E (File (Open devname (O_RDONLY + O_NONBLOCK))) tr
      else (a_ret a, tr))"

definition sg_get_disk_vendor_serical :: "os \<Rightarrow> bytes \<Rightarrow> trace \<Rightarrow> (bytes \<times> bytes) option \<times> trace" where
  "sg_get_disk_vendor_serical E devname tr =
     (let (fd, tr) = sg_open E devname tr in
      if fd < 0 then (None, tr)
      else
        let (a, tr) = do_call E (File (SgIo fd [0x12, 0, 0, 0, 36, 0])) tr; tr = just_call E (File (CloseFd fd)) tr;
            buff = take 64 (a_data a) @ zeros 64
        in if a_ret a < 0 then (None, tr) else (Some (cstr (peek buff 8 8), cstr (peek buff 16 16)), tr))"

definition be32 :: "bytes \<Rightarrow> nat \<Rightarrow> u32" where
  "be32 m off = push_bit 24 (ucast (get8 m off)) OR push_bit 16 (ucast (get8 m (off + 1))) OR
     push_bit 8 (ucast (get8 m (off + 2))) OR ucast (get8 m (off + 3))"

text \<open>The number of the last block is a 32-bit number, and so is one more than it.\<close>

definition sg_get_disk_space :: "os \<Rightarrow> bytes \<Rightarrow> trace \<Rightarrow> u64 option \<times> trace" where
  "sg_get_disk_space E devname tr =
     (let (fd, tr) = sg_open E devname tr in
      if fd < 0 then (None, tr)
      else
        let (a, tr) = do_call E (File (SgIo fd [0x25, 0, 0, 0, 0, 0])) tr; tr = just_call E (File (CloseFd fd)) tr;
            rcap = take 8 (a_data a) @ zeros 8; lastblock = be32 rcap 0; blocksize = be32 rcap 4
        in if a_ret a < 0 then (None, tr) else (Some (ucast (lastblock + 1) * ucast blocksize), tr))"

definition ioctl_get_disk_space :: "os \<Rightarrow> bytes \<Rightarrow> trace \<Rightarrow> u64 option \<times> trace" where
  "ioctl_get_disk_space E devname tr =
     (let (fd, tr) = sg_open E devname tr in
      if fd < 0 then (None, tr)
      else
        let (a, tr) = do_call E (File (BlkGetSize fd)) tr; tr = just_call E (File (CloseFd fd)) tr
        in if a_ret a \<noteq> 0 then (None, tr) else (Some (of_nat (a_num a)), tr))"

definition sg_sleep_disk :: "os \<Rightarrow> bytes \<Rightarrow> int \<Rightarrow> trace \<Rightarrow> int \<times> trace" where
  "sg_sleep_disk E devname action tr =
     (let dev = (if contains (str ''/dev'') devname then devname else sprintf_dev devname); tr = into 64 dev tr;
          (fd, tr) = sg_open E dev tr in
      if fd < 0 then (-1, tr)
      else
        let (r, tr) = ret_call E (File (SgIo fd [0x1b, 0, 0, 0, if action = 1 then 1 else 0, 0])) tr
        in (if r < 0 then -1 else 0, just_call E (File (CloseFd fd)) tr))"

section \<open>State\<close>

abbreviation DISK_SFREMOVE :: int where "DISK_SFREMOVE \<equiv> 2"
abbreviation DISK_WAKEUP :: int where "DISK_WAKEUP \<equiv> 3"
abbreviation DISK_UDEV_ADD :: int where "DISK_UDEV_ADD \<equiv> 4"
abbreviation DISK_UDEV_REMOVE :: int where "DISK_UDEV_REMOVE \<equiv> 5"
abbreviation DISK_UDEV_POWEROFF :: int where "DISK_UDEV_POWEROFF \<equiv> 6"

record hub_info =
  hb_flag :: bytes
  hb_location :: bytes
  hb_speed :: int

record disk_mnt_para =
  mp_fsname :: bytes
  mp_readahead :: bytes
  mp_rw :: int
  mp_umask :: bytes
  mp_iocharset :: bytes
  mp_shortname :: bytes
  mp_errors :: bytes

record disktag =
  tg_busflag :: bytes
  tg_disktag :: bytes
  tg_diskvolume :: bytes
  tg_displayname :: bytes

record disk_major =
  mj_major :: int
  mj_name :: bytes

record disk_baseinfo =
  bi_devname :: bytes
  bi_major :: int
  bi_minor :: int
  bi_total :: u64
  bi_used :: u64

record disk_partinfo =
  pt_info :: disk_baseinfo
  pt_mounted :: int
  pt_fstype :: bytes
  pt_label :: bytes
  pt_mntpoint :: bytes
  pt_display :: bytes
  pt_enablewrite :: int
  pt_uptime :: int

record disk_maininfo =
  mi_info :: disk_baseinfo
  mi_vendor :: bytes
  mi_serical :: bytes
  mi_type :: bytes
  mi_disktag :: bytes
  mi_display :: bytes
  mi_status :: int
  mi_partnum :: int
  mi_isgpt :: int
  mi_speed :: int
  mi_plugcount :: u32
  mi_partlist :: "disk_partinfo list"

text \<open>\<open>curnum\<close> is the length of the list of hubs, of which the array has 8.\<close>

record disk_info =
  di_list :: "disk_maininfo list"
  di_disk_num :: int
  di_major :: "disk_major list"
  di_parameter :: "disk_mnt_para list"
  di_disktag :: "disktag list"
  di_hubs :: "hub_info list"

definition baseinfo0 :: disk_baseinfo where
  "baseinfo0 = \<lparr>bi_devname = [], bi_major = 0, bi_minor = 0, bi_total = 0, bi_used = 0\<rparr>"

definition partinfo0 :: disk_partinfo where
  "partinfo0 = \<lparr>pt_info = baseinfo0, pt_mounted = 0, pt_fstype = [], pt_label = [], pt_mntpoint = [], pt_display = [],
     pt_enablewrite = 0, pt_uptime = 0\<rparr>"

definition maininfo0 :: disk_maininfo where
  "maininfo0 = \<lparr>mi_info = baseinfo0, mi_vendor = [], mi_serical = [], mi_type = [], mi_disktag = [], mi_display = [],
     mi_status = 0, mi_partnum = 0, mi_isgpt = 0, mi_speed = 0, mi_plugcount = 0, mi_partlist = []\<rparr>"

definition para0 :: disk_mnt_para where
  "para0 = \<lparr>mp_fsname = [], mp_readahead = [], mp_rw = 0, mp_umask = [], mp_iocharset = [], mp_shortname = [], mp_errors = []\<rparr>"

definition disk_info0 :: disk_info where
  "disk_info0 = \<lparr>di_list = [], di_disk_num = 0, di_major = [], di_parameter = [], di_disktag = [], di_hubs = []\<rparr>"

text \<open>
  The manager: the structure in hand, whether \<open>i4disk\<close> points to it yet, and the statics: the counter of
  plugs, the prefix of the mount points, the buffer of the probes. \<open>Calloc\<close> has the sizes of the
  target's structs.
\<close>

record manager =
  dm_disk :: disk_info
  dm_ready :: bool
  dm_plugcount :: u32
  dm_prefix :: bytes
  dm_buf :: probe_buf

abbreviation maininfo_size :: nat where "maininfo_size \<equiv> 896"
abbreviation partinfo_size :: nat where "partinfo_size \<equiv> 1264"

abbreviation mi_devname :: "disk_maininfo \<Rightarrow> bytes" where "mi_devname m \<equiv> bi_devname (mi_info m)"
abbreviation pt_devname :: "disk_partinfo \<Rightarrow> bytes" where "pt_devname p \<equiv> bi_devname (pt_info p)"

section \<open>Hubs and majors\<close>

definition disk_gethub_speed :: "os \<Rightarrow> bytes \<Rightarrow> trace \<Rightarrow> int \<times> trace" where
  "disk_gethub_speed E spath tr =
     (let (fd, tr) = ret_call E (File (Open (snprintf 4095 (spath @ str ''/speed'')) O_RDONLY)) tr in
      if fd < 0 then (-1, tr)
      else
        let (n, data, _, tr) = read_fd E fd 64 tr; tr = just_call E (File (CloseFd fd)) tr
        in if n \<le> 0 then (-1, tr)
           else (atoi data, fault_if (length data = 64 \<and> 0 \<notin> set data) OutOfBounds tr))"

partial_function (option) hub_subdir_loop ::
    "os \<Rightarrow> ptr \<Rightarrow> bytes \<Rightarrow> hub_info list \<Rightarrow> trace \<Rightarrow> (hub_info list \<times> trace) option" where
  "hub_subdir_loop E subdir locadir hubs tr =
     (let (ent, tr) = do_call E (File (Readdir subdir)) tr; name = cstr (a_data ent) in
      if a_num ent = 0 then Some (hubs, tr)
      else if get8 name 0 = 46 \<or> \<not> starts_with (str ''usb'') name then hub_subdir_loop E subdir locadir hubs tr
      else
        let (speed, tr) = disk_gethub_speed E (snprintf 4095 (locadir @ str ''/'' @ name @ str ''/'')) tr in
        if speed < 0 then hub_subdir_loop E subdir locadir hubs tr
        else
          let tr = fault_if (8 \<le> length hubs \<or> 64 \<le> length name) OutOfBounds tr
          in hub_subdir_loop E subdir locadir (hubs @ [\<lparr>hb_flag = name, hb_location = locadir, hb_speed = speed\<rparr>]) tr)"

partial_function (option) hub_dir_loop ::
    "os \<Rightarrow> ptr \<Rightarrow> hub_info list \<Rightarrow> trace \<Rightarrow> (hub_info list \<times> trace) option" where
  "hub_dir_loop E dir hubs tr =
     (let (ent, tr) = do_call E (File (Readdir dir)) tr; name = cstr (a_data ent) in
      if a_num ent = 0 then Some (hubs, tr)
      else if get8 name 0 = 46 \<or> \<not> contains (str ''hci-platform'') name then hub_dir_loop E dir hubs tr
      else
        let locadir = snprintf 4095 (str ''/sys/devices/platform/'' @ name);
            (sub, tr) = do_call E (File (Opendir locadir)) tr in
        if a_num sub = 0 then hub_dir_loop E dir hubs tr
        else do {
          (hubs, tr) \<leftarrow> hub_subdir_loop E (a_num sub) locadir hubs tr;
          hub_dir_loop E dir hubs (just_call E (File (Closedir (a_num sub))) tr)
        })"

declare hub_subdir_loop.simps [code] hub_dir_loop.simps [code]

definition disk_gethub_info :: "os \<Rightarrow> trace \<Rightarrow> (int \<times> hub_info list \<times> trace) option" where
  "disk_gethub_info E tr =
     (let (dir, tr) = do_call E (File (Opendir (str ''/sys/devices/platform/''))) tr in
      if a_num dir = 0 then Some (DISK_FAILURE, [], tr)
      else do {
        (hubs, tr) \<leftarrow> hub_dir_loop E (a_num dir) [] tr;
        Some (DISK_SUCCESS, hubs, just_call E (File (Closedir (a_num dir))) tr)
      })"

text \<open>
  The loop goes up to \<open>curnum\<close>, one element more than there are: the one behind them is empty, so its
  flag is in every path; when all 8 are in use it is outside the array.
\<close>

fun usb_speed :: "bytes \<Rightarrow> nat \<Rightarrow> hub_info list \<Rightarrow> trace \<Rightarrow> int \<times> trace" where
  "usb_speed truepath i [] tr = (0, fault_if (8 \<le> i) OutOfBounds tr)"
| "usb_speed truepath i (h # hubs) tr =
     (if contains (hb_flag h) truepath then (hb_speed h, tr) else usb_speed truepath (i + 1) hubs tr)"

definition disk_get_usbspeed :: "os \<Rightarrow> hub_info list \<Rightarrow> bytes \<Rightarrow> trace \<Rightarrow> int \<times> trace" where
  "disk_get_usbspeed E hubs dev tr =
     (let (a, tr) = do_call E (File (Readlink (snprintf 4095 (str ''/sys/block/'' @ dev)) 4095)) tr in
      if a_ret a < 0 then (0, tr) else usb_speed (cstr (take 4095 (a_data a))) 0 hubs tr)"

text \<open>\<open>" %d %[^\n ]"\<close>\<close>

definition scan_major :: "bytes \<Rightarrow> (int \<times> bytes) option" where
  "scan_major line =
     (case scan_int line of None \<Rightarrow> None
      | Some (ma, r) \<Rightarrow> (case scan_until [10, 32] (skip_space r) of None \<Rightarrow> None | Some (name, _) \<Rightarrow> Some (ma, name)))"

definition disk_major_list_parse :: "os \<Rightarrow> disk_info \<Rightarrow> trace \<Rightarrow> (int \<times> disk_info \<times> trace) option" where
  "disk_major_list_parse E pdisk tr =
     (let (f, tr) = do_call E (File (Fopen (str ''/proc/devices''))) tr; close = (\<lambda>tr. just_call E (File (Fclose (a_num f))) tr) in
      if a_num f = 0 then Some (DISK_FAILURE, pdisk, tr)
      else do {
        (x, tr) \<leftarrow> fgets_loop E (a_num f) 64
          (\<lambda>line pdisk tr. case scan_major line of None \<Rightarrow> Some (Inr pdisk, tr)
            | Some (ma, ptname) \<Rightarrow>
              if ptname \<noteq> str ''sd'' \<and> ptname \<noteq> str ''mmc'' then Some (Inr pdisk, tr)
              else let (a, tr) = do_call E (Sys (Calloc 76)) tr in
                if a_num a = 0 then Some (Inl pdisk, close tr)
                else Some (Inr (pdisk\<lparr>di_major := di_major pdisk @ [\<lparr>mj_major = ma, mj_name = ptname\<rparr>]\<rparr>), tr))
          pdisk tr;
        case x of Inl pdisk \<Rightarrow> Some (DISK_FAILURE, pdisk, tr) | Inr pdisk \<Rightarrow> Some (DISK_SUCCESS, pdisk, close tr)
      })"

section \<open>Mount options\<close>

text \<open>\<open>"%[^=]=%[^\n ]"\<close> into \<open>key\<close> and \<open>value\<close>, of 64 bytes each.\<close>

definition scan_option :: "bytes \<Rightarrow> trace \<Rightarrow> (bytes \<times> bytes) option \<times> trace" where
  "scan_option s tr =
     (case scan_until [61] s of None \<Rightarrow> (None, tr)
      | Some (key, r) \<Rightarrow>
        let tr = into 64 key tr in
        case scan_until [10, 32] (tl r) of
          None \<Rightarrow> (None, tr)
        | Some (value, _) \<Rightarrow> (Some (key, value), into 64 value tr))"

text \<open>The result tells whether the option counts.\<close>

definition set_option :: "bytes \<Rightarrow> bytes \<Rightarrow> disk_mnt_para \<Rightarrow> disk_mnt_para \<times> bool" where
  "set_option key value p =
     (if key = str ''readahead'' then (p\<lparr>mp_readahead := value\<rparr>, True)
      else if key = str ''rw'' then (p\<lparr>mp_rw := atoi value\<rparr>, True)
      else if key = str ''umask'' then (p\<lparr>mp_umask := value\<rparr>, True)
      else if key = str ''iocharset'' then (p\<lparr>mp_iocharset := value\<rparr>, True)
      else if key = str ''shortname'' then (p\<lparr>mp_shortname := value\<rparr>, True)
      else if key = str ''errors'' then (p\<lparr>mp_errors := value\<rparr>, True)
      else (p, False))"

text \<open>
  The loop over the options that commas separate; \<open>vaild\<close> counts the known ones and ends the loop when no
  comma is left.
\<close>

function option_loop :: "bytes \<Rightarrow> nat \<Rightarrow> disk_mnt_para \<Rightarrow> trace \<Rightarrow> nat \<times> disk_mnt_para \<times> trace" where
  "option_loop base vaild p tr =
     (case strchr 44 base of
        None \<Rightarrow>
          if vaild \<noteq> 0 then (vaild, p, tr)
          else
            let (kv, tr) = scan_option base tr in
            (case kv of None \<Rightarrow> (0, p, tr)
             | Some (key, value) \<Rightarrow> let (p, known) = set_option key value p in (if known then vaild + 1 else vaild, p, tr))
      | Some (opt, rest) \<Rightarrow>
          let (kv, tr) = scan_option opt tr in
          (case kv of None \<Rightarrow> (0, p, tr)
           | Some (key, value) \<Rightarrow>
             let (p, known) = set_option key value p in option_loop rest (if known then vaild + 1 else vaild) p tr))"
  by pat_completeness auto
termination by (relation "measure (\<lambda>(base, vaild, p, tr). length base)") (auto dest: strchr_rest)

declare option_loop.simps [simp del]

definition parameter_line :: "os \<Rightarrow> bytes \<Rightarrow> disk_info \<Rightarrow> trace \<Rightarrow> (disk_info + disk_info) \<times> trace" where
  "parameter_line E line pdisk tr =
     (case scan_word line of None \<Rightarrow> (Inr pdisk, tr)
      | Some (fstype, r) \<Rightarrow>
        let tr = into 64 fstype tr in
        (case scan_until [10, 32] (skip_space r) of None \<Rightarrow> (Inr pdisk, tr)
         | Some (fspara, _) \<Rightarrow>
           let (a, tr) = do_call E (Sys (Calloc 396)) tr in
           if a_num a = 0 then (Inl pdisk, tr)
           else
             let (vaild, p, tr) = option_loop fspara 0 (para0\<lparr>mp_fsname := fstype\<rparr>) tr in
             if vaild \<noteq> 0 then (Inr (pdisk\<lparr>di_parameter := di_parameter pdisk @ [p]\<rparr>), tr)
             else (Inr pdisk, just_call E (Sys (Free (a_num a))) tr)))"

definition disk_mnt_parameter_parse :: "os \<Rightarrow> disk_info \<Rightarrow> trace \<Rightarrow> (int \<times> disk_info \<times> trace) option" where
  "disk_mnt_parameter_parse E pdisk tr =
     (let (f, tr) = do_call E (File (Fopen (str ''/etc/config/mntpara''))) tr in
      if a_num f = 0 then Some (DISK_FAILURE, pdisk, tr)
      else do {
        (x, tr) \<leftarrow> fgets_loop E (a_num f) 512 (\<lambda>line pdisk tr. Some (parameter_line E line pdisk tr)) pdisk tr;
        let tr = just_call E (File (Fclose (a_num f))) tr in
        case x of Inl pdisk \<Rightarrow> Some (DISK_FAILURE, pdisk, tr) | Inr pdisk \<Rightarrow> Some (DISK_SUCCESS, pdisk, tr)
      })"

section \<open>Disk tags\<close>

text \<open>
  \<open>"%s  %s %s %[^\n ]"\<close>, or \<open>"%s  %s %[^\n ]"\<close> when that has no fourth word, each into 64 bytes.
\<close>

definition scan_tag :: "bytes \<Rightarrow> trace \<Rightarrow> disktag option \<times> trace" where
  "scan_tag line tr =
     (case scan_word line of None \<Rightarrow> (None, tr)
      | Some (flag, r) \<Rightarrow>
        let tr = into 64 flag tr in
        (case scan_word r of None \<Rightarrow> (None, tr)
         | Some (tag, r) \<Rightarrow>
           let tr = into 64 tag tr in
           (case scan_word r of None \<Rightarrow> (None, tr)
            | Some (vol, r4) \<Rightarrow>
              let tr = into 64 vol tr in
              (case scan_until [10, 32] (skip_space r4) of
                 Some (display, _) \<Rightarrow> (Some \<lparr>tg_busflag = flag, tg_disktag = tag, tg_diskvolume = vol, tg_displayname = display\<rparr>,
                   into 64 display tr)
               | None \<Rightarrow>
                   let vol = takeWhile (\<lambda>b. b \<notin> {10, 32}) (skip_space r) in
                   (Some \<lparr>tg_busflag = flag, tg_disktag = tag, tg_diskvolume = vol, tg_displayname = str ''NONE''\<rparr>,
                     into 64 vol tr)))))"

text \<open>
  For a flag that is in the list its tag is changed, but the volume and the display name are written
  to the node inserted last, which \<open>ntag\<close> still points to; and a new node is inserted all the same.
\<close>

definition update_tags :: "disktag \<Rightarrow> disktag list \<Rightarrow> disktag list" where
  "update_tags n tags =
     (let tags' = map (\<lambda>t. if tg_busflag t = tg_busflag n then t\<lparr>tg_disktag := tg_disktag n\<rparr> else t) tags in
      if \<exists>t\<in>set tags. tg_busflag t = tg_busflag n
      then butlast tags' @ [(last tags')\<lparr>tg_diskvolume := tg_diskvolume n, tg_displayname := tg_displayname n\<rparr>]
      else tags)"

definition disktag_line :: "os \<Rightarrow> bytes \<Rightarrow> disk_info \<Rightarrow> trace \<Rightarrow> (disk_info + disk_info) \<times> trace" where
  "disktag_line E line pdisk tr =
     (let (t, tr) = scan_tag line tr in
      case t of None \<Rightarrow> (Inr pdisk, tr)
      | Some n \<Rightarrow>
        let pdisk = pdisk\<lparr>di_disktag := update_tags n (di_disktag pdisk)\<rparr>; (a, tr) = do_call E (Sys (Calloc 264)) tr in
        if a_num a = 0 then (Inl pdisk, tr) else (Inr (pdisk\<lparr>di_disktag := di_disktag pdisk @ [n]\<rparr>), tr))"

definition disk_mnt_disktag_parse :: "os \<Rightarrow> disk_info \<Rightarrow> trace \<Rightarrow> (int \<times> disk_info \<times> trace) option" where
  "disk_mnt_disktag_parse E pdisk tr =
     (let (f, tr) = do_call E (File (Fopen (str ''/etc/init.d/disktag''))) tr in
      if a_num f = 0 then Some (DISK_SUCCESS, pdisk, tr)
      else do {
        (x, tr) \<leftarrow> fgets_loop E (a_num f) 512 (\<lambda>line pdisk tr. Some (disktag_line E line pdisk tr)) pdisk tr;
        let tr = just_call E (File (Fclose (a_num f))) tr in
        case x of Inl pdisk \<Rightarrow> Some (DISK_FAILURE, pdisk, tr) | Inr pdisk \<Rightarrow> Some (DISK_SUCCESS, pdisk, tr)
      })"

section \<open>Searching\<close>

definition disk_search_major_list :: "disk_major list \<Rightarrow> int \<Rightarrow> disk_major option" where
  "disk_search_major_list mlist maj = find (\<lambda>m. mj_major m = maj) mlist"

text \<open>The position of the disk; \<open>i\<close> is that of the first in the rest of the list.\<close>

fun search_main :: "disk_maininfo list \<Rightarrow> bytes \<Rightarrow> nat \<Rightarrow> nat option" where
  "search_main [] name i = None"
| "search_main (d # ds) name i = (if mi_devname d = name then Some i else search_main ds name (i + 1))"

text \<open>The first disk whose name starts the partition's decides.\<close>

fun search_part :: "disk_maininfo list \<Rightarrow> bytes \<Rightarrow> nat \<Rightarrow> nat option" where
  "search_part [] name i = None"
| "search_part (d # ds) name i =
     (if take (length (mi_devname d)) name = mi_devname d
      then if \<exists>p\<in>set (mi_partlist d). pt_devname p = name then Some i else None
      else search_part ds name (i + 1))"

definition disk_search_partition_list :: "disk_info \<Rightarrow> bytes \<Rightarrow> int \<Rightarrow> nat option" where
  "disk_search_partition_list pdisk name part =
     (if part = 0 then search_main (di_list pdisk) name 0
      else if part = 1 then search_part (di_list pdisk) name 0 else None)"

text \<open>\<open>disk_chk_partition_mounted\<close>.\<close>

definition disk_chk_partition_mounted :: "disk_info \<Rightarrow> bytes option \<Rightarrow> int" where
  "disk_chk_partition_mounted pdisk spedev =
     (if \<exists>d\<in>set (di_list pdisk). (case spedev of None \<Rightarrow> True | Some s \<Rightarrow> mi_devname d = s) \<and>
        (\<exists>p\<in>set (mi_partlist d). pt_mounted p = 1)
      then DISK_SUCCESS else DISK_FAILURE)"

section \<open>A new disk\<close>

text \<open>The first tag whose flag is in the link, when there is one, gives the disk its tag and display name.\<close>

definition apply_tag :: "disktag \<Rightarrow> disk_maininfo \<Rightarrow> trace \<Rightarrow> disk_maininfo \<times> trace" where
  "apply_tag t d tr =
     (let tag = (if strcaseeq (tg_disktag t) (str ''None'') then tg_diskvolume t else tg_disktag t @ str ''/'' @ tg_diskvolume t)
      in (d\<lparr>mi_disktag := tag, mi_display := tg_displayname t\<rparr>, into 64 tag tr))"

text \<open>
  Without a tag the code means to test for the type \<open>SD\<close> but calls \<open>strcpy\<close>, which sets it; the test is
  never true.
\<close>

definition disk_fill_main_partition_baseinfo :: "os \<Rightarrow> disk_info \<Rightarrow> disk_maininfo \<Rightarrow> trace \<Rightarrow> disk_maininfo \<times> trace" where
  "disk_fill_main_partition_baseinfo E pdisk d tr =
     (let devbuf = sprintf_dev (mi_devname d); tr = into 64 devbuf tr;
          (vs, tr) = sg_get_disk_vendor_serical E devbuf tr;
          d = (case vs of None \<Rightarrow> d | Some (v, s) \<Rightarrow> d\<lparr>mi_vendor := v, mi_serical := s\<rparr>);
          (cap, tr) = sg_get_disk_space E devbuf tr;
          (cap, tr) = (case cap of Some c \<Rightarrow> (Some c, tr) | None \<Rightarrow> ioctl_get_disk_space E devbuf tr);
          info = mi_info d; info = (case cap of Some c \<Rightarrow> info\<lparr>bi_total := c\<rparr> | None \<Rightarrow> info);
          d = d\<lparr>mi_info := info\<lparr>bi_used := 0\<rparr>\<rparr>;
          (speed, tr) = disk_get_usbspeed E (di_hubs pdisk) (mi_devname d) tr;
          (gpt, tr) = probe_ptable_gpt E devbuf tr;
          d = d\<lparr>mi_speed := speed, mi_isgpt := (if gpt = 1 then 1 else 0)\<rparr>;
          (a, tr) = do_call E (File (Readlink (str ''/sys/block/'' @ mi_devname d) 511)) tr
      in if a_ret a = -1 then (d\<lparr>mi_disktag := []\<rparr>, tr)
         else
           case find (\<lambda>t. contains (tg_busflag t) (cstr (take 511 (a_data a)))) (di_disktag pdisk) of
             Some t \<Rightarrow> apply_tag t d tr
           | None \<Rightarrow> (d\<lparr>mi_type := str ''SD'', mi_disktag := []\<rparr>, tr))"

definition make_node :: "os \<Rightarrow> bytes \<Rightarrow> int \<Rightarrow> int \<Rightarrow> trace \<Rightarrow> trace" where
  "make_node E devbuf ma mi tr =
     (let (r, tr) = ret_call E (File (Access devbuf)) tr in
      if r \<noteq> 0 then just_call E (File (Mknod devbuf (makedev (word_of_int ma) (word_of_int mi)))) tr else tr)"

text \<open>\<open>" %d %d %d %[^\n ]"\<close> and \<open>" %d %d %llu %[^\n ]"\<close>, the name into 64 bytes.\<close>

definition scan_name :: "bytes \<Rightarrow> trace \<Rightarrow> bytes option \<times> trace" where
  "scan_name r tr = (case scan_until [10, 32] (skip_space r) of None \<Rightarrow> (None, tr) | Some (name, _) \<Rightarrow> (Some name, into 64 name tr))"

definition scan_partition32 :: "bytes \<Rightarrow> trace \<Rightarrow> (int \<times> int \<times> int \<times> bytes) option \<times> trace" where
  "scan_partition32 line tr =
     (case scan_int line of None \<Rightarrow> (None, tr) | Some (ma, r) \<Rightarrow>
      (case scan_int r of None \<Rightarrow> (None, tr) | Some (mi, r) \<Rightarrow>
       (case scan_int r of None \<Rightarrow> (None, tr) | Some (sz, r) \<Rightarrow>
        let (name, tr) = scan_name r tr in (map_option (\<lambda>name. (ma, mi, sz, name)) name, tr))))"

definition scan_partition :: "bytes \<Rightarrow> trace \<Rightarrow> (int \<times> int \<times> u64 \<times> bytes) option \<times> trace" where
  "scan_partition line tr =
     (case scan_int line of None \<Rightarrow> (None, tr) | Some (ma, r) \<Rightarrow>
      (case scan_int r of None \<Rightarrow> (None, tr) | Some (mi, r) \<Rightarrow>
       (case scan_u64 r of None \<Rightarrow> (None, tr) | Some (sz, r) \<Rightarrow>
        let (name, tr) = scan_name r tr in (map_option (\<lambda>name. (ma, mi, sz, name)) name, tr))))"

definition add_disk :: "disk_maininfo \<Rightarrow> disk_info \<Rightarrow> disk_info" where
  "add_disk d pdisk = pdisk\<lparr>di_list := di_list pdisk @ [d], di_disk_num := di_disk_num pdisk + 1\<rparr>"

text \<open>\<open>sz * DSIZ_KB\<close> is a product of two \<open>int\<close>s. The new disk is the last of the list.\<close>

definition insert_main_line ::
    "os \<Rightarrow> bytes \<Rightarrow> bytes \<Rightarrow> disk_info \<Rightarrow> trace \<Rightarrow> (bool \<times> disk_info + disk_info) \<times> trace" where
  "insert_main_line E devname line pdisk tr =
     (let (sc, tr) = scan_partition32 line tr in
      case sc of None \<Rightarrow> (Inr pdisk, tr)
      | Some (ma, mi, sz, ptname) \<Rightarrow>
        if ptname \<noteq> devname then (Inr pdisk, tr)
        else
          let tr = make_node E (sprintf_dev ptname) ma mi tr; (a, tr) = do_call E (Sys (Calloc maininfo_size)) tr in
          if a_num a = 0 then (Inl (False, pdisk), tr)
          else
            let d = maininfo0\<lparr>mi_info := baseinfo0\<lparr>bi_devname := devname, bi_major := ma, bi_minor := mi,
                  bi_total := scast (word_of_int sz * 1024 :: u32)\<rparr>\<rparr>;
                (d, tr) = disk_fill_main_partition_baseinfo E pdisk d tr
            in (Inl (True, add_disk d pdisk), tr))"

definition disk_insert_main_partition :: "os \<Rightarrow> disk_info \<Rightarrow> bytes \<Rightarrow> trace \<Rightarrow> (int \<times> disk_info \<times> trace) option" where
  "disk_insert_main_partition E pdisk devname tr =
     (let (f, tr) = do_call E (File (Fopen (str ''/proc/partitions''))) tr in
      if a_num f = 0 then Some (DISK_FAILURE, pdisk, tr)
      else do {
        (x, tr) \<leftarrow> fgets_loop E (a_num f) 512 (\<lambda>line pdisk tr. Some (insert_main_line E devname line pdisk tr)) pdisk tr;
        let tr = just_call E (File (Fclose (a_num f))) tr in
        case x of Inl (good, pdisk) \<Rightarrow> Some (if good then DISK_SUCCESS else DISK_FAILURE, pdisk, tr)
        | Inr pdisk \<Rightarrow> Some (DISK_FAILURE, pdisk, tr)
      })"

section \<open>A new partition\<close>

datatype disk_type = DISK_MMC_MAIN | DISK_MMC_PART | DISK_USB_MAIN | DISK_USB_PART

definition strip_digits :: "bytes \<Rightarrow> bytes" where
  "strip_digits s = rev (dropWhile isdigit (rev s))"

text \<open>
  What the name and the numbers of a device say: its kind and the name of the disk it is or is on. An
  empty name, and one of digits alone, makes the code read before the array.
\<close>

definition dev_kind :: "disk_major \<Rightarrow> disk_baseinfo \<Rightarrow> trace \<Rightarrow> (disk_type \<times> bytes) option \<times> trace" where
  "dev_kind dmajor pinfo tr =
     (let ptname = bi_devname pinfo in
      if mj_name dmajor = str ''mmc'' \<and> mj_major dmajor \<noteq> 8 then
        if bi_minor pinfo mod 8 = 0 then (Some (DISK_MMC_MAIN, ptname), tr)
        else
          let tpbuf = takeWhile (\<lambda>b. \<not> isdigit b) (take 63 ptname);
              devname = tpbuf @ int_str (atoi (drop (length tpbuf) ptname))
          in (Some (DISK_MMC_PART, devname), into 64 devname tr)
      else if mj_name dmajor = str ''sd'' \<and> mj_major dmajor = 8 then
        if ptname = [] then (Some (DISK_USB_MAIN, ptname), tr @ [Fault OutOfBounds])
        else if \<not> isdigit (last ptname) then (Some (DISK_USB_MAIN, ptname), tr)
        else (Some (DISK_USB_PART, strip_digits ptname), fault_if (strip_digits ptname = []) OutOfBounds tr)
      else (None, tr))"

definition disk_trigger_udevadd :: "os \<Rightarrow> bytes \<Rightarrow> int \<Rightarrow> trace \<Rightarrow> trace" where
  "disk_trigger_udevadd E devname maj tr =
     just_call E (Sys (System (str ''/usr/sbin/disktriger 4 '' @ int_str maj @ str '' '' @ devname))) tr"

definition insert_main ::
    "os \<Rightarrow> disk_type \<Rightarrow> disk_baseinfo \<Rightarrow> manager \<Rightarrow> trace \<Rightarrow> int \<times> manager \<times> trace" where
  "insert_main E kind pinfo s tr =
     (let (a, tr) = do_call E (Sys (Calloc maininfo_size)) tr in
      if a_num a = 0 then (DISK_FAILURE, s, tr)
      else
        let d = maininfo0\<lparr>mi_info := pinfo\<lparr>bi_used := 0\<rparr>, mi_plugcount := dm_plugcount s,
              mi_type := (if kind = DISK_USB_MAIN then str ''USB'' else str ''SD'')\<rparr>;
            (d, tr) = disk_fill_main_partition_baseinfo E (dm_disk s) d tr
        in (DISK_SUCCESS, s\<lparr>dm_disk := add_disk d (dm_disk s), dm_plugcount := dm_plugcount s + 1\<rparr>, tr))"

definition add_part :: "nat \<Rightarrow> disk_partinfo \<Rightarrow> disk_info \<Rightarrow> disk_info" where
  "add_part i p pdisk =
     (let d = di_list pdisk ! i in pdisk\<lparr>di_list := (di_list pdisk)[i := d\<lparr>mi_partnum := mi_partnum d + 1,
        mi_partlist := mi_partlist d @ [p]\<rparr>]\<rparr>)"

definition insert_part ::
    "os \<Rightarrow> nat \<Rightarrow> disk_baseinfo \<Rightarrow> manager \<Rightarrow> trace \<Rightarrow> int \<times> manager \<times> trace" where
  "insert_part E i pinfo s tr =
     (if disk_search_partition_list (dm_disk s) (bi_devname pinfo) 1 \<noteq> None then (DISK_SUCCESS, s, tr)
      else
        let (a, tr) = do_call E (Sys (Calloc partinfo_size)) tr in
        if a_num a = 0 then (DISK_FAILURE, s, tr)
        else (DISK_SUCCESS, s\<lparr>dm_disk := add_part i (partinfo0\<lparr>pt_info := pinfo\<rparr>) (dm_disk s)\<rparr>, tr))"

definition disk_insert_partition_list ::
    "os \<Rightarrow> disk_baseinfo \<Rightarrow> manager \<Rightarrow> trace \<Rightarrow> (int \<times> manager \<times> trace) option" where
  "disk_insert_partition_list E pinfo s tr =
     (case disk_search_major_list (di_major (dm_disk s)) (bi_major pinfo) of
        None \<Rightarrow> Some (DISK_FAILURE, s, tr)
      | Some dmajor \<Rightarrow>
        let (kind, tr) = dev_kind dmajor pinfo tr in
        case kind of
          None \<Rightarrow> Some (DISK_FAILURE, s, tr)
        | Some (kind, devname) \<Rightarrow>
          let tr = make_node E (sprintf_dev (bi_devname pinfo)) (bi_major pinfo) (bi_minor pinfo)
                (into 64 (sprintf_dev (bi_devname pinfo)) tr);
              dmain = disk_search_partition_list (dm_disk s) devname 0 in
          if kind = DISK_USB_MAIN \<or> kind = DISK_MMC_MAIN then
            if dmain \<noteq> None then Some (DISK_SUCCESS, s, tr) else Some (insert_main E kind pinfo s tr)
          else
            case dmain of
              Some i \<Rightarrow> Some (insert_part E i pinfo s tr)
            | None \<Rightarrow>
              if dm_ready s then Some (DISK_FAILURE, s, disk_trigger_udevadd E devname (mj_major dmajor) tr)
              else do {
                (ret, pdisk, tr) \<leftarrow> disk_insert_main_partition E (dm_disk s) devname tr;
                let s = s\<lparr>dm_disk := pdisk\<rparr> in
                if ret \<noteq> 0 then Some (DISK_FAILURE, s, tr)
                else Some (insert_part E (length (di_list pdisk) - 1) pinfo s tr)
              })"

section \<open>A setting of the file server\<close>

definition disk_check_smb_user_onoff :: "os \<Rightarrow> bytes option \<Rightarrow> trace \<Rightarrow> (int \<times> trace) option" where
  "disk_check_smb_user_onoff E config tr =
     (case config of
        None \<Rightarrow> Some (1, tr)
      | Some file \<Rightarrow>
          let (a, tr) = do_call E (File (Fopen file)) tr; key = str ''smb_public'' in
          if a_num a = 0 then Some (1, tr)
          else do {
            (x, tr) \<leftarrow> fgets_loop E (a_num a) 2048 (\<lambda>line s tr.
              Some (if take (length key + 1) line = key @ str ''='' then Inl (atoi (drop (length key + 1) line)) else Inr s, tr)) () tr;
            let tr = just_call E (File (Fclose (a_num a))) tr in
            Some (case x of Inl n \<Rightarrow> n | Inr _ \<Rightarrow> 1, tr)
          })"

end
