(* ===== verification/Ustor_Mount.thy ===== *)
theory Ustor_Mount
  imports Ustor_Registry
begin

text \<open>
  disk_manager.c, second part: scanning the system's partitions, what file systems they have, and
  mounting them.
\<close>

section \<open>Scanning\<close>

definition scan_line :: "os \<Rightarrow> bytes option \<Rightarrow> bytes \<Rightarrow> manager \<Rightarrow> trace \<Rightarrow> ((unit + manager) \<times> trace) option" where
  "scan_line E spedev line s tr =
     (let (sc, tr) = scan_partition line tr in
      case sc of None \<Rightarrow> Some (Inr s, tr)
      | Some (ma, mi, sz, ptname) \<Rightarrow>
        if sz = 1 then Some (Inr s, tr)
        else if (case spedev of None \<Rightarrow> False | Some dev \<Rightarrow> take (length dev) ptname \<noteq> dev) then Some (Inr s, tr)
        else if disk_search_major_list (di_major (dm_disk s)) ma = None then Some (Inr s, tr)
        else do {
          (_, s, tr) \<leftarrow> disk_insert_partition_list E
             \<lparr>bi_devname = ptname, bi_major = ma, bi_minor = mi, bi_total = sz * 1024, bi_used = 0\<rparr> s tr;
          Some (Inr s, tr)
        })"

definition disk_mnt1_loop_partition :: "os \<Rightarrow> bytes option \<Rightarrow> manager \<Rightarrow> trace \<Rightarrow> (int \<times> manager \<times> trace) option" where
  "disk_mnt1_loop_partition E spedev s tr =
     (let (f, tr) = do_call E (File (Fopen (str ''/proc/partitions''))) tr in
      if a_num f = 0 then Some (DISK_FAILURE, s, tr)
      else do {
        (x, tr) \<leftarrow> fgets_loop E (a_num f) 512 (scan_line E spedev) s tr;
        Some (DISK_SUCCESS, case x of Inl _ \<Rightarrow> s | Inr s \<Rightarrow> s, just_call E (File (Fclose (a_num f))) tr)
      })"

section \<open>File systems\<close>

text \<open>A partition gets the type that the probe found and its label, or the type \<open>unknown\<close>.\<close>

definition probe_partition ::
    "os \<Rightarrow> disk_partinfo \<Rightarrow> probe_buf \<Rightarrow> trace \<Rightarrow> (disk_partinfo \<times> probe_buf \<times> trace) option" where
  "probe_partition E p b tr =
     (let devname = sprintf_dev (pt_devname p) in do {
        (_, pr, b, tr) \<leftarrow> probe_block E devname probe0 b (into 64 devname tr);
        case pr_id pr of
          None \<Rightarrow> Some (p\<lparr>pt_fstype := str ''unknown''\<rparr>, b, tr)
        | Some name \<Rightarrow>
          if pr_err pr \<noteq> 0 then Some (p\<lparr>pt_fstype := str ''unknown''\<rparr>, b, tr)
          else Some (p\<lparr>pt_fstype := name, pt_label := cstr (pr_label pr)\<rparr>, b, into 64 (cstr (pr_label pr)) tr)
      })"

fun probe_partitions ::
    "os \<Rightarrow> disk_partinfo list \<Rightarrow> probe_buf \<Rightarrow> trace \<Rightarrow> (disk_partinfo list \<times> probe_buf \<times> trace) option" where
  "probe_partitions E [] b tr = Some ([], b, tr)"
| "probe_partitions E (p # ps) b tr = do {
     (p, b, tr) \<leftarrow> probe_partition E p b tr;
     (ps, b, tr) \<leftarrow> probe_partitions E ps b tr;
     Some (p # ps, b, tr)
   }"

text \<open>A disk without partitions is its own partition. The result is false when there is no memory for it.\<close>

definition confirm_disk ::
    "os \<Rightarrow> disk_maininfo \<Rightarrow> probe_buf \<Rightarrow> trace \<Rightarrow> (bool \<times> disk_maininfo \<times> probe_buf \<times> trace) option" where
  "confirm_disk E d b tr =
     (if mi_partnum d = 0 then
        let (a, tr) = do_call E (Sys (Calloc partinfo_size)) tr in
        if a_num a = 0 then Some (False, d, b, tr)
        else do {
          (p, b, tr) \<leftarrow> probe_partition E (partinfo0\<lparr>pt_info := mi_info d\<rparr>) b tr;
          Some (True, d\<lparr>mi_partlist := mi_partlist d @ [p], mi_partnum := 1\<rparr>, b, tr)
        }
      else do {
        (ps, b, tr) \<leftarrow> probe_partitions E (mi_partlist d) b tr;
        Some (True, d\<lparr>mi_partlist := ps\<rparr>, b, tr)
      })"

text \<open>Whether a disk is the one asked for; \<open>None\<close> asks for all.\<close>

definition chosen :: "bytes option \<Rightarrow> disk_maininfo \<Rightarrow> bool" where
  "chosen spedev d = (case spedev of None \<Rightarrow> True | Some dev \<Rightarrow> mi_devname d = dev)"

fun confirm_loop ::
    "os \<Rightarrow> bytes option \<Rightarrow> disk_maininfo list \<Rightarrow> probe_buf \<Rightarrow> trace \<Rightarrow>
     (int \<times> disk_maininfo list \<times> probe_buf \<times> trace) option" where
  "confirm_loop E spedev [] b tr = Some (if spedev = None then DISK_SUCCESS else 2, [], b, tr)"
| "confirm_loop E spedev (d # ds) b tr =
     (if \<not> chosen spedev d then do {
        (r, ds, b, tr) \<leftarrow> confirm_loop E spedev ds b tr;
        Some (r, d # ds, b, tr)
      }
      else do {
        (good, d, b, tr) \<leftarrow> confirm_disk E d b tr;
        if \<not> good then Some (DISK_FAILURE, d # ds, b, tr)
        else if spedev \<noteq> None then Some (DISK_SUCCESS, d # ds, b, tr)
        else do {
          (r, ds, b, tr) \<leftarrow> confirm_loop E spedev ds b tr;
          Some (r, d # ds, b, tr)
        }
      })"

definition set_list :: "disk_maininfo list \<Rightarrow> manager \<Rightarrow> manager" where
  "set_list ds s = s\<lparr>dm_disk := (dm_disk s)\<lparr>di_list := ds\<rparr>\<rparr>"

definition disk_mnt2_confirm_partition_info ::
    "os \<Rightarrow> bytes option \<Rightarrow> manager \<Rightarrow> trace \<Rightarrow> (int \<times> manager \<times> trace) option" where
  "disk_mnt2_confirm_partition_info E spedev s tr = do {
     (r, ds, b, tr) \<leftarrow> confirm_loop E spedev (di_list (dm_disk s)) (dm_buf s) tr;
     Some (r, (set_list ds s)\<lparr>dm_buf := b\<rparr>, tr)
   }"

section \<open>Mounting\<close>

text \<open>
  Whether \<open>/proc/mounts\<close> has a line that starts with the device's name; the name need not end there. The
  pointer that the code returns is only compared with NULL. On a line that is the name alone the search goes
  on behind the end of the line.
\<close>

definition find_mount_point :: "os \<Rightarrow> bytes \<Rightarrow> trace \<Rightarrow> (bool \<times> trace) option" where
  "find_mount_point E block tr =
     (let (f, tr) = do_call E (File (Fopen (str ''/proc/mounts''))) tr; n = length block in
      if a_num f = 0 then Some (False, tr)
      else do {
        (x, tr) \<leftarrow> fgets_loop E (a_num f) 512
          (\<lambda>line _ tr. Some (if take n line = block
             then (Inl (contains (str '' '') (drop (n + 1) line)), fault_if (length line = n) Uninitialised tr)
             else (Inr (), tr))) () tr;
        Some (case x of Inl r \<Rightarrow> r | Inr _ \<Rightarrow> False, just_call E (File (Fclose (a_num f))) tr)
      })"

definition driver_flag :: "bytes \<Rightarrow> bytes option" where
  "driver_flag fstype =
     (if fstype = str ''vfat'' \<or> fstype = str ''fat32'' then Some (str ''tfat'')
      else if fstype = str ''exfat'' then Some (str ''texfat'')
      else if fstype = str ''ntfs'' then Some (str ''tntfs'')
      else if take 3 fstype = str ''hfs'' then Some (str ''thfsplus'')
      else None)"

text \<open>The driver to mount with, when it is not the file system's own; a line is \<open>" %s %d"\<close>.\<close>

definition check_commerical_driver :: "os \<Rightarrow> bytes \<Rightarrow> trace \<Rightarrow> (bytes option \<times> trace) option" where
  "check_commerical_driver E fstype tr =
     (case driver_flag fstype of None \<Rightarrow> Some (None, tr)
      | Some fsflag \<Rightarrow>
        let (f, tr) = do_call E (File (Fopen (str ''/proc/modules''))) tr in
        if a_num f = 0 then Some (None, tr)
        else do {
          (x, tr) \<leftarrow> fgets_loop E (a_num f) 512
            (\<lambda>line _ tr. Some (case scan_word line of None \<Rightarrow> (Inr (), tr)
              | Some (drver, r) \<Rightarrow>
                let tr = into 64 drver tr
                in if scan_int r \<noteq> None \<and> drver = fsflag then (Inl (), tr) else (Inr (), tr))) () tr;
          let tr = just_call E (File (Fclose (a_num f))) tr in
          Some (case x of Inl _ \<Rightarrow> Some fsflag | Inr _ \<Rightarrow> if fstype = str ''ntfs'' then Some (str ''ntfs-3g'') else None, tr)
        })"

definition option_text :: "string \<Rightarrow> bytes \<Rightarrow> bytes" where
  "option_text key value = (if value = [] then [] else str key @ str ''='' @ value @ str '','')"

text \<open>The options, each with a comma, the last of which is cut; \<open>para\<close> has 64 bytes.\<close>

definition generate_mount_parameter :: "disk_mnt_para list \<Rightarrow> bytes \<Rightarrow> trace \<Rightarrow> bytes \<times> trace" where
  "generate_mount_parameter plist fstype tr =
     (case find (\<lambda>p. mp_fsname p = fstype) plist of
        None \<Rightarrow> ([], tr)
      | Some p \<Rightarrow>
        let text = option_text ''iocharset'' (mp_iocharset p) @ option_text ''readahead'' (mp_readahead p) @
              option_text ''shortname'' (mp_shortname p) @ option_text ''errors'' (mp_errors p) @
              option_text ''umask'' (mp_umask p) @ (if mp_rw p \<noteq> 0 then str ''rw,'' else [])
        in (butlast text, into 64 text tr))"

text \<open>
  The number of a partition from the digits at the end of its name: the last one counts as it is, the
  one before it as 10 more than it is. A name of one or two digits alone is read beyond its start.
\<close>

definition volume_number :: "bytes \<Rightarrow> int" where
  "volume_number devname =
     (case takeWhile isdigit (rev devname) of
        [] \<Rightarrow> 0
      | [a] \<Rightarrow> int (unat a - 48)
      | a # b # _ \<Rightarrow> int (unat a - 48) + (10 + int (unat b - 48)))"

definition make_dir :: "os \<Rightarrow> bytes \<Rightarrow> trace \<Rightarrow> trace" where
  "make_dir E path tr =
     (let (r, tr) = ret_call E (File (Access path)) tr in if r \<noteq> 0 then just_call E (File (Mkdir path)) tr else tr)"

definition generate_mount_point ::
    "os \<Rightarrow> bytes \<Rightarrow> bytes \<Rightarrow> bytes \<Rightarrow> disk_partinfo \<Rightarrow> trace \<Rightarrow> disk_partinfo \<times> trace" where
  "generate_mount_point E prefix disktag display p tr =
     (let tr = make_dir E prefix tr; devname = pt_devname p;
          tr = fault_if (length devname \<le> 2 \<and> (\<forall>b\<in>set devname. isdigit b)) OutOfBounds tr;
          volnum = volume_number devname; volnum = (if volnum = 0 then 1 else volnum);
          mnt = (if disktag = [] then prefix @ str ''/'' @ devname else prefix @ str ''/'' @ disktag @ int_str volnum);
          disp = (if strcaseeq display (str ''None'') then [] else display @ int_str volnum);
          tr = into 512 disp (into 512 mnt tr);
          p = p\<lparr>pt_mntpoint := mnt, pt_display := disp\<rparr>;
          (r, tr) = ret_call E (File (Access mnt)) tr
      in if r = 0 then (p, tr)
         else
           let parent = take (length mnt - length (after_last 47 mnt) - 1) mnt;
               tr = (if 47 \<in> set mnt then make_dir E parent tr else tr)
           in (p, just_call E (File (Mkdir mnt)) tr))"

text \<open>Size and use of a mounted partition, and whether it can be written: a file is made on it.\<close>

definition statfs_info :: "os \<Rightarrow> bytes \<Rightarrow> disk_baseinfo \<Rightarrow> trace \<Rightarrow> disk_baseinfo \<times> trace" where
  "statfs_info E mnt info tr =
     (let (a, tr) = do_call E (File (Statfs mnt)) tr;
          blocks = a_list a ! 0; bfree = a_list a ! 1; bsize = of_nat (a_list a ! 2) :: u64
      in if a_ret a = 0 \<and> length (a_list a) = 3 \<and> 0 < blocks
         then (info\<lparr>bi_total := of_nat blocks * bsize, bi_used := (of_nat blocks - of_nat bfree) * bsize\<rparr>, tr)
         else (info, tr))"

definition readonly_test :: "os \<Rightarrow> int \<Rightarrow> disk_partinfo \<Rightarrow> trace \<Rightarrow> disk_partinfo \<times> trace" where
  "readonly_test E mode p tr =
     (let filename = pt_mntpoint p @ str ''/.readonly.tst'';
          (a, tr) = do_call E (File (Open filename mode)) tr;
          p = p\<lparr>pt_enablewrite := (if a_ret a < 0 \<and> a_errno a = EROFS then 0 else 1)\<rparr>;
          tr = just_call E (File (Remove filename)) (just_call E (File (CloseFd (a_ret a))) tr);
          (t, tr) = ret_call E (Sys Time) tr
      in (p\<lparr>pt_uptime := t\<rparr>, tr))"

definition update_partition_capacity_rw :: "os \<Rightarrow> disk_partinfo \<Rightarrow> trace \<Rightarrow> disk_partinfo \<times> trace" where
  "update_partition_capacity_rw E p tr =
     (let (info, tr) = statfs_info E (pt_mntpoint p) (pt_info p) tr; p = p\<lparr>pt_info := info\<rparr>;
          (now, tr) = ret_call E (Sys Time) tr
      in if pt_enablewrite p = 0 \<or> 45 \<le> now - pt_uptime p
         then readonly_test E (O_CREAT + O_WRONLY + O_TRUNC) p tr
         else (p, tr))"

partial_function (option) mntent_loop :: "os \<Rightarrow> ptr \<Rightarrow> bytes \<Rightarrow> trace \<Rightarrow> (bytes option \<times> trace) option" where
  "mntent_loop E file devbuf tr =
     (let (a, tr) = do_call E (File (Getmntent file)) tr in
      if a_num a = 0 then Some (None, tr)
      else if cstr (a_strs a ! 0) \<noteq> devbuf then mntent_loop E file devbuf tr
      else Some (Some (cstr (a_strs a ! 1)), tr))"

declare mntent_loop.simps [code]

definition get_partition_capacity_rw :: "os \<Rightarrow> disk_partinfo \<Rightarrow> trace \<Rightarrow> (disk_partinfo \<times> trace) option" where
  "get_partition_capacity_rw E p tr =
     (let (f, tr) = do_call E (File (Setmntent (str ''/proc/mounts''))) tr in
      if a_num f = 0 then Some (p, tr)
      else
        let devbuf = sprintf_dev (pt_devname p) in do {
          (dir, tr) \<leftarrow> mntent_loop E (a_num f) devbuf (into 64 devbuf tr);
          case dir of
            None \<Rightarrow> Some (p, just_call E (File (Endmntent (a_num f))) tr)
          | Some dir \<Rightarrow>
            let (info, tr) = statfs_info E dir (pt_info p) (into 512 dir tr);
                tr = just_call E (File (Endmntent (a_num f))) tr
            in Some (readonly_test E (O_CREAT + O_TRUNC + O_RDWR) (p\<lparr>pt_mntpoint := dir, pt_info := info\<rparr>) tr)
        })"

definition ntfs_3g_mount :: "bytes \<Rightarrow> bytes \<Rightarrow> bytes" where
  "ntfs_3g_mount dev mnt =
     str ''ntfs-3g -o nls=utf8,umask=0000,fmask=0000,dmask=0000,recover,noatime,force '' @ dev @ str '' '' @ mnt"

text \<open>The driver and the options to mount a partition with; \<open>fs\<close> and \<open>parameter\<close> have 64 bytes.\<close>

definition mount_plan :: "os \<Rightarrow> disk_mnt_para list \<Rightarrow> disk_partinfo \<Rightarrow> trace \<Rightarrow> (bytes \<times> bytes \<times> trace) option" where
  "mount_plan E plist p tr = do {
     (drv, tr) \<leftarrow> check_commerical_driver E (pt_fstype p) tr;
     let fs = (case drv of Some f \<Rightarrow> f | None \<Rightarrow> pt_fstype p);
         (parameter, tr) = generate_mount_parameter plist fs tr
     in Some (fs, parameter, tr)
   }"

text \<open>One partition of \<open>disk_mnt3_automount_partition\<close>; the number is what the disk's used size grows by.\<close>

definition automount_partition ::
    "os \<Rightarrow> bytes \<Rightarrow> disk_mnt_para list \<Rightarrow> disk_maininfo \<Rightarrow> disk_partinfo \<Rightarrow> trace \<Rightarrow>
     (u64 \<times> disk_partinfo \<times> trace) option" where
  "automount_partition E prefix plist d p tr =
     (let devbuf = sprintf_dev (pt_devname p); tr = into 64 devbuf tr;
          (efi, tr) = (if mi_isgpt d = 1 then probe_efi_partition E (mi_devname d) (pt_devname p) tr else (0, tr))
      in if efi = 1 then Some (0, p, tr)
         else do {
           (mounted, tr) \<leftarrow> find_mount_point E devbuf tr;
           if mounted then do {
             (p, tr) \<leftarrow> get_partition_capacity_rw E p tr;
             Some (0, p\<lparr>pt_mounted := 1\<rparr>, tr)
           }
           else
             let (p, tr) = generate_mount_point E prefix (mi_disktag d) (mi_display d) p tr in
             if pt_fstype p = str ''unknown''
             then Some (0, p\<lparr>pt_mounted := 0\<rparr>, just_call E (File (Rmdir (pt_mntpoint p))) tr)
             else do {
               (fs, parameter, tr) \<leftarrow> mount_plan E plist p tr;
               (good, tr) \<leftarrow> (if fs = str ''ntfs-3g'' then
                   find_mount_point E devbuf (just_call E (Sys (Usleep 300000))
                     (just_call E (Sys (System (ntfs_3g_mount devbuf (pt_mntpoint p)))) tr))
                 else
                   let (r, tr) = ret_call E (File (Mount devbuf (pt_mntpoint p) fs parameter)) tr in Some (r = 0, tr));
               if good then
                 let (p, tr) = update_partition_capacity_rw E p tr
                 in Some (bi_used (pt_info p), p\<lparr>pt_mounted := 1\<rparr>, tr)
               else Some (0, p\<lparr>pt_mounted := 0\<rparr>, just_call E (File (Rmdir (pt_mntpoint p))) tr)
             }
         })"

fun automount_partitions ::
    "os \<Rightarrow> bytes \<Rightarrow> disk_mnt_para list \<Rightarrow> disk_maininfo \<Rightarrow> disk_partinfo list \<Rightarrow> trace \<Rightarrow>
     (u64 \<times> disk_partinfo list \<times> trace) option" where
  "automount_partitions E prefix plist d [] tr = Some (0, [], tr)"
| "automount_partitions E prefix plist d (p # ps) tr = do {
     (k, p, tr) \<leftarrow> automount_partition E prefix plist d p tr;
     (n, ps, tr) \<leftarrow> automount_partitions E prefix plist d ps tr;
     Some (k + n, p # ps, tr)
   }"

definition automount_disk ::
    "os \<Rightarrow> bytes \<Rightarrow> disk_mnt_para list \<Rightarrow> disk_maininfo \<Rightarrow> trace \<Rightarrow> (disk_maininfo \<times> trace) option" where
  "automount_disk E prefix plist d tr = do {
     (n, ps, tr) \<leftarrow> automount_partitions E prefix plist d (mi_partlist d) tr;
     Some (d\<lparr>mi_info := (mi_info d)\<lparr>bi_used := bi_used (mi_info d) + n\<rparr>, mi_partlist := ps,
       mi_status := sint DISK_MOUNTED\<rparr>, tr)
   }"

fun automount_loop ::
    "os \<Rightarrow> bytes \<Rightarrow> disk_mnt_para list \<Rightarrow> bytes option \<Rightarrow> disk_maininfo list \<Rightarrow> trace \<Rightarrow>
     (int \<times> disk_maininfo list \<times> trace) option" where
  "automount_loop E prefix plist spedev [] tr = Some (2, [], tr)"
| "automount_loop E prefix plist spedev (d # ds) tr =
     (if \<not> chosen spedev d then do {
        (r, ds, tr) \<leftarrow> automount_loop E prefix plist spedev ds tr;
        Some (r, d # ds, tr)
      }
      else do {
        (d, tr) \<leftarrow> automount_disk E prefix plist d tr;
        if spedev \<noteq> None then Some (DISK_SUCCESS, d # ds, tr)
        else do {
          (r, ds, tr) \<leftarrow> automount_loop E prefix plist spedev ds tr;
          Some (r, d # ds, tr)
        }
      })"

definition disk_mnt3_automount_partition ::
    "os \<Rightarrow> bytes option \<Rightarrow> manager \<Rightarrow> trace \<Rightarrow> (int \<times> manager \<times> trace) option" where
  "disk_mnt3_automount_partition E spedev s tr = do {
     (r, ds, tr) \<leftarrow> automount_loop E (dm_prefix s) (di_parameter (dm_disk s)) spedev (di_list (dm_disk s)) tr;
     Some (r, set_list ds s, tr)
   }"

definition disk_mount_process :: "os \<Rightarrow> bytes option \<Rightarrow> manager \<Rightarrow> trace \<Rightarrow> (int \<times> manager \<times> trace) option" where
  "disk_mount_process E spedev s tr = do {
     (ret, s, tr) \<leftarrow> disk_mnt1_loop_partition E spedev s tr;
     if ret = DISK_FAILURE then Some (DISK_FAILURE, s, tr)
     else do {
       (ret, s, tr) \<leftarrow> disk_mnt2_confirm_partition_info E spedev s tr;
       if ret \<noteq> DISK_SUCCESS then Some (ret, s, tr) else disk_mnt3_automount_partition E spedev s tr
     }
   }"

end
