(* ===== verification/Ustor_Manager.thy ===== *)
theory Ustor_Manager
  imports Ustor_Mount
begin

text \<open>
  disk_manager.c, third part: what the disk manager does when a disk comes, goes, is removed safely or
  woken up, what it answers to requests for its disks, and how it starts.
\<close>

section \<open>Actions\<close>

record udev_action =
  ua_major :: int
  ua_action :: int
  ua_dev :: bytes

definition udev_action_func_add :: "os \<Rightarrow> udev_action \<Rightarrow> manager \<Rightarrow> trace \<Rightarrow> (int \<times> manager \<times> trace) option" where
  "udev_action_func_add E act s tr = disk_mount_process E (Some (ua_dev act)) s tr"

text \<open>
  The partitions of a disk that wakes up. The first that is mounted already, or all of them, end the
  loop: the result says which, with the partitions as they are then.
\<close>

datatype wakeup = Mounted_already | Woken

fun wakeup_partitions ::
    "os \<Rightarrow> bytes \<Rightarrow> disk_mnt_para list \<Rightarrow> disk_maininfo \<Rightarrow> disk_partinfo list \<Rightarrow> trace \<Rightarrow>
     (wakeup \<times> disk_partinfo list \<times> trace) option" where
  "wakeup_partitions E prefix plist d [] tr = Some (Woken, [], tr)"
| "wakeup_partitions E prefix plist d (p # ps) tr =
     (let devbuf = sprintf_dev (pt_devname p) in do {
        (mounted, tr) \<leftarrow> find_mount_point E devbuf (into 64 devbuf tr);
        if mounted then do {
          (p, tr) \<leftarrow> get_partition_capacity_rw E p tr;
          Some (Mounted_already, p # ps, tr)
        }
        else
          let (p, tr) = generate_mount_point E prefix (mi_disktag d) (mi_display d) p tr in do {
            (fs, parameter, tr) \<leftarrow> mount_plan E plist p tr;
            let (r, tr) = ret_call E (File (Mount devbuf (pt_mntpoint p) fs parameter)) tr;
                (p, tr) = (if r \<noteq> 0 then (p\<lparr>pt_mounted := 0\<rparr>, tr)
                  else let (p, tr) = update_partition_capacity_rw E p tr in (p\<lparr>pt_mounted := 1\<rparr>, tr))
            in do {
              (w, ps, tr) \<leftarrow> wakeup_partitions E prefix plist d ps tr;
              Some (w, p # ps, tr)
            }
          }
      })"

fun wakeup_loop ::
    "os \<Rightarrow> bytes \<Rightarrow> disk_mnt_para list \<Rightarrow> udev_action \<Rightarrow> disk_maininfo list \<Rightarrow> trace \<Rightarrow>
     (int \<times> disk_maininfo list \<times> trace) option" where
  "wakeup_loop E prefix plist act [] tr = Some (2, [], tr)"
| "wakeup_loop E prefix plist act (d # ds) tr =
     (if mi_devname d = ua_dev act \<and> (ua_major act = 0xFFFF \<or> bi_major (mi_info d) = ua_major act) then
        if mi_status d \<noteq> DISK_SFREMOVE then Some (2, d # ds, tr)
        else do {
          (w, ps, tr) \<leftarrow> wakeup_partitions E prefix plist d (mi_partlist d) tr;
          Some (if w = Woken then DISK_SUCCESS else 2, d\<lparr>mi_partlist := ps, mi_status := sint DISK_MOUNTED\<rparr> # ds, tr)
        }
      else do {
        (r, ds, tr) \<leftarrow> wakeup_loop E prefix plist act ds tr;
        Some (r, d # ds, tr)
      })"

definition udev_action_func_wakeup :: "os \<Rightarrow> udev_action \<Rightarrow> manager \<Rightarrow> trace \<Rightarrow> (int \<times> manager \<times> trace) option" where
  "udev_action_func_wakeup E act s tr =
     (if ua_action act \<noteq> DISK_WAKEUP then Some (2, s, tr)
      else do {
        (r, ds, tr) \<leftarrow> wakeup_loop E (dm_prefix s) (di_parameter (dm_disk s)) act (di_list (dm_disk s)) tr;
        Some (r, set_list ds s, tr)
      })"

text \<open>
  The partitions of a disk that is removed: unmounted; after a safe removal they stay in the list, after
  a removal they leave it, and for any other action they stay as they are.
\<close>

fun remove_partitions :: "os \<Rightarrow> int \<Rightarrow> disk_partinfo list \<Rightarrow> trace \<Rightarrow> disk_partinfo list \<times> trace" where
  "remove_partitions E action [] tr = ([], tr)"
| "remove_partitions E action (p # ps) tr =
     (let tr = (if pt_mounted p = 1 then just_call E (File (Umount (pt_mntpoint p) True)) tr else tr) in
      if action = DISK_SFREMOVE then
        let (ps, tr) = remove_partitions E action ps tr in (p\<lparr>pt_mounted := 0\<rparr> # ps, tr)
      else if action = DISK_UDEV_REMOVE then
        remove_partitions E action ps (just_call E (File (Rmdir (pt_mntpoint p))) tr)
      else
        let (ps, tr) = remove_partitions E action ps tr in (p # ps, tr))"

fun remove_loop ::
    "os \<Rightarrow> udev_action \<Rightarrow> disk_maininfo list \<Rightarrow> trace \<Rightarrow> int \<times> disk_maininfo list \<times> trace" where
  "remove_loop E act [] tr = (2, [], tr)"
| "remove_loop E act (d # ds) tr =
     (if mi_devname d = ua_dev act \<and> ua_major act = 0xFFFF then
        if mi_status d = ua_action act then (DISK_SUCCESS, d # ds, tr)
        else
          let (ps, tr) = remove_partitions E (ua_action act) (mi_partlist d) tr; d = d\<lparr>mi_partlist := ps\<rparr> in
          if ua_action act = DISK_SFREMOVE then (DISK_SUCCESS, d\<lparr>mi_status := DISK_SFREMOVE\<rparr> # ds, tr)
          else if ua_action act = DISK_UDEV_REMOVE then (DISK_SUCCESS, ds, tr)
          else (DISK_SUCCESS, d # ds, tr)
      else
        let (r, ds, tr) = remove_loop E act ds tr in (r, d # ds, tr))"

definition udev_action_func_remove :: "os \<Rightarrow> udev_action \<Rightarrow> manager \<Rightarrow> trace \<Rightarrow> int \<times> manager \<times> trace" where
  "udev_action_func_remove E act s tr =
     (let (r, ds, tr) = remove_loop E act (di_list (dm_disk s)) tr in (r, set_list ds s, tr))"

definition udev_action_func :: "os \<Rightarrow> udev_action \<Rightarrow> manager \<Rightarrow> trace \<Rightarrow> (int \<times> manager \<times> trace) option" where
  "udev_action_func E act s tr =
     (if ua_action act = DISK_UDEV_ADD then udev_action_func_add E act s tr
      else if ua_action act = DISK_WAKEUP then udev_action_func_wakeup E act s tr
      else Some (udev_action_func_remove E act s tr))"

text \<open>
  Removing all disks. A partition that is not mounted, or that cannot be unmounted, is not freed; its
  disk leaves the list and is put to sleep all the same.
\<close>

fun remove_mounted :: "os \<Rightarrow> disk_partinfo list \<Rightarrow> trace \<Rightarrow> trace" where
  "remove_mounted E [] tr = tr"
| "remove_mounted E (p # ps) tr =
     (if pt_mounted p = 0 then remove_mounted E ps tr
      else
        let tr = just_call E (Sys SyncDisks) tr; (r, tr) = ret_call E (File (Umount (pt_mntpoint p) False)) tr;
            (r, tr) = (if r \<noteq> 0 then ret_call E (File (Umount (pt_mntpoint p) True)) tr else (r, tr))
        in remove_mounted E ps (if r \<noteq> 0 then tr else just_call E (File (Rmdir (pt_mntpoint p))) tr))"

fun remove_all :: "os \<Rightarrow> disk_maininfo list \<Rightarrow> trace \<Rightarrow> trace" where
  "remove_all E [] tr = tr"
| "remove_all E (d # ds) tr = remove_all E ds (snd (sg_sleep_disk E (mi_devname d) 0 (remove_mounted E (mi_partlist d) tr)))"

text \<open>After \<open>exit\<close> there is no more; the result stands for the process that has ended.\<close>

definition udev_action_func_all :: "os \<Rightarrow> int \<Rightarrow> manager \<Rightarrow> trace \<Rightarrow> (int \<times> manager \<times> trace) option" where
  "udev_action_func_all E action s tr =
     (if action = DISK_UDEV_ADD then do {
        (_, s, tr) \<leftarrow> disk_mount_process E None s tr;
        disk_mount_process E None s tr
      }
      else
        let tr = remove_all E (di_list (dm_disk s)) (just_call E (Sys SyncDisks) tr); s = set_list [] s in
        if action = DISK_UDEV_POWEROFF then
          let tr = just_call E (Sys (System (str ''echo 0 > /sys/bus/usb/devices/usb1/authorized''))) tr;
              tr = just_call E (Sys (System (str ''echo 0 > /sys/bus/usb/devices/usb2/authorized''))) tr
          in Some (DISK_SUCCESS, s, just_call E (Sys (ExitProcess 1)) tr)
        else Some (DISK_SUCCESS, s, tr))"

section \<open>Answers\<close>

text \<open>A string in a field of \<open>n\<close> zeroed bytes.\<close>

definition field :: "nat \<Rightarrow> bytes \<Rightarrow> bytes" where
  "field n s = take n (s @ zeros n)"

text \<open>\<open>disk_proto_t\<close>, 794 bytes: a disk, or a partition.\<close>

definition enc_main_proto :: "u8 \<Rightarrow> u64 \<Rightarrow> disk_maininfo \<Rightarrow> bytes" where
  "enc_main_proto flag used d =
     field 64 (mi_devname d) @ put64 (bi_total (mi_info d)) @ put64 used @ put16 (push_bit 8 (ucast flag) OR 99) @
     field 64 (mi_vendor d) @ field 512 (mi_serical d) @ field 64 (mi_type d) @ field 64 (mi_disktag d) @
     put32 (word_of_int (mi_status d)) @ put32 (word_of_int (mi_partnum d))"

definition enc_part_proto :: "u8 \<Rightarrow> u64 \<Rightarrow> disk_partinfo \<Rightarrow> bytes" where
  "enc_part_proto flag used p =
     field 64 (pt_devname p) @ put64 (bi_total (pt_info p)) @ put64 used @ put16 (push_bit 8 (ucast flag) OR 100) @
     put32 (word_of_int (pt_mounted p)) @ field 64 (pt_fstype p) @ field 64 (pt_label p) @ field 512 (pt_mntpoint p) @
     put32 (word_of_int (pt_enablewrite p)) @ zeros 64"

abbreviation proto_size :: nat where "proto_size \<equiv> 794"

text \<open>The parts of one disk: their answer, their used sizes, and the memory that holds it.\<close>

fun proto_parts ::
    "os \<Rightarrow> u8 \<Rightarrow> disk_partinfo list \<Rightarrow> ptr \<times> bytes \<Rightarrow> u64 \<Rightarrow> trace \<Rightarrow>
     bool \<times> disk_partinfo list \<times> (ptr \<times> bytes) \<times> u64 \<times> trace" where
  "proto_parts E flag [] mem cused tr = (True, [], mem, cused, tr)"
| "proto_parts E flag (p # ps) mem cused tr =
     (let (p, tr) = (if pt_mounted p = 1 then update_partition_capacity_rw E p tr else (p, tr));
          (a, tr) = do_call E (Sys (Realloc (fst mem) (proto_size + length (snd mem)))) tr in
      if a_num a = 0 then (False, p # ps, mem, cused, tr)
      else
        let used = (if pt_mounted p = 0 then bi_total (pt_info p) else bi_used (pt_info p));
            (r, ps, mem, cused, tr) = proto_parts E flag ps (a_num a, snd mem @ enc_part_proto flag used p) (cused + used) tr
        in (r, p # ps, mem, cused, tr))"

text \<open>\<open>special\<close> is the disk asked for, the empty name for all.\<close>

fun proto_disks ::
    "os \<Rightarrow> bytes \<Rightarrow> u8 \<Rightarrow> disk_maininfo list \<Rightarrow> ptr \<times> bytes \<Rightarrow> trace \<Rightarrow>
     bool \<times> disk_maininfo list \<times> (ptr \<times> bytes) \<times> trace" where
  "proto_disks E special flag [] mem tr = (True, [], mem, tr)"
| "proto_disks E special flag (d # ds) mem tr =
     (if special \<noteq> [] \<and> mi_devname d \<noteq> special then
        let (r, ds, mem, tr) = proto_disks E special flag ds mem tr in (r, d # ds, mem, tr)
      else
        let (a, tr) = do_call E (Sys (Realloc (fst mem) (proto_size + length (snd mem)))) tr in
        if a_num a = 0 then (False, d # ds, mem, tr)
        else
          let (good, ps, parts, cused, tr) = proto_parts E flag (mi_partlist d) (0, []) 0 tr; d = d\<lparr>mi_partlist := ps\<rparr> in
          if \<not> good then (False, d # ds, mem, tr)
          else
            let d = d\<lparr>mi_info := (mi_info d)\<lparr>bi_used := cused\<rparr>\<rparr>; main = enc_main_proto flag cused d;
                (a, tr) = do_call E (Sys (Realloc (a_num a) (length (snd parts) + (proto_size + length (snd mem))))) tr in
            if a_num a = 0 then (False, d # ds, mem, tr)
            else
              let mem = (a_num a, snd mem @ main @ snd parts);
                  tr = (if fst parts \<noteq> 0 then just_call E (Sys (Free (fst parts))) tr else tr)
              in if special \<noteq> [] then (True, d # ds, mem, tr)
                 else
                   let (r, ds, mem, tr) = proto_disks E special (of_nat ((unat flag + 1) mod 0xFF)) ds mem tr in (r, d # ds, mem, tr))"

text \<open>\<open>data\<close> is the request's payload, copied to an array of 64 zeros.\<close>

definition protocol_get_all_disk_info ::
    "os \<Rightarrow> bytes \<Rightarrow> manager \<Rightarrow> trace \<Rightarrow> int \<times> (ptr \<times> bytes) option \<times> manager \<times> trace" where
  "protocol_get_all_disk_info E data s tr =
     (let (t, tr) = ret_call E (Sys Time) tr; tr = fault_if (64 < length data \<or> length data = 64 \<and> 0 \<notin> set data) OutOfBounds tr;
          (r, ds, mem, tr) = proto_disks E (cstr data) (word_of_int t) (di_list (dm_disk s)) (0, []) tr; s = set_list ds s
      in if r then (DISK_SUCCESS, Some mem, s, tr) else (DISK_FAILURE, None, s, tr))"

text \<open>The name of a mount point without the prefix, its directories joined with underscores.\<close>

definition disk_dirlist_display_name :: "bytes \<Rightarrow> bytes \<Rightarrow> bytes option" where
  "disk_dirlist_display_name preffix before =
     (if take (length preffix) before \<noteq> preffix then None
      else Some (map (\<lambda>b. if b = 47 then 95 else b) (dropWhile (\<lambda>b. b = 47) (drop (length preffix) before))))"

definition display_name :: "bytes \<Rightarrow> disk_partinfo \<Rightarrow> bytes" where
  "display_name prefix p =
     (if pt_display p \<noteq> [] then pt_display p
      else case disk_dirlist_display_name prefix (pt_mntpoint p) of Some n \<Rightarrow> n | None \<Rightarrow> pt_devname p)"

text \<open>\<open>disk_dirlist_t\<close>, 5000 bytes.\<close>

definition enc_dirlist :: "bytes \<Rightarrow> disk_maininfo \<Rightarrow> disk_partinfo \<Rightarrow> bytes" where
  "enc_dirlist prefix d p =
     field 64 (pt_devname p) @ field 64 (mi_devname d) @ field 4096 (display_name prefix p) @
     put32 (word_of_int (pt_mounted p)) @ field 64 (mi_type d) @ field 64 (mi_disktag d) @ field 64 (pt_fstype p) @
     field 64 (pt_label p) @ field 512 (pt_mntpoint p) @ put32 (word_of_int (pt_enablewrite p))"

text \<open>An answer that grows by one entry at a time; the result is false when there is no memory.\<close>

fun grow_answer :: "os \<Rightarrow> bytes list \<Rightarrow> ptr \<times> bytes \<Rightarrow> trace \<Rightarrow> bool \<times> (ptr \<times> bytes) \<times> trace" where
  "grow_answer E [] mem tr = (True, mem, tr)"
| "grow_answer E (e # es) mem tr =
     (let (a, tr) = do_call E (Sys (Realloc (fst mem) (length e + length (snd mem)))) tr in
      if a_num a = 0 then (False, mem, tr) else grow_answer E es (a_num a, snd mem @ e) tr)"

definition protocol_disk_dirlist :: "os \<Rightarrow> manager \<Rightarrow> trace \<Rightarrow> int \<times> (ptr \<times> bytes) option \<times> trace" where
  "protocol_disk_dirlist E s tr =
     (let entries = concat (map (\<lambda>d. if mi_status d \<noteq> sint DISK_MOUNTED then []
            else map (enc_dirlist (dm_prefix s) d) (filter (\<lambda>p. pt_mounted p = 1) (mi_partlist d))) (di_list (dm_disk s)));
          (r, mem, tr) = grow_answer E entries (0, []) tr
      in if r then (DISK_SUCCESS, Some mem, tr) else (DISK_FAILURE, None, tr))"

text \<open>\<open>disk_disklist_t\<close>, the struct that the client decodes.\<close>

definition disklist_of :: "disk_maininfo \<Rightarrow> disk_disklist" where
  "disklist_of d = \<lparr>dl_devname = field 64 (mi_devname d), dl_vendor = field 64 (mi_vendor d),
     dl_serical = field 512 (mi_serical d), dl_type = field 64 (mi_type d),
     dl_disktag = field 64 (if strcaseeq (mi_display d) (str ''None'') then mi_disktag d else mi_display d),
     dl_total = bi_total (mi_info d), dl_status = word_of_int (mi_status d), dl_partnum = word_of_int (mi_partnum d)\<rparr>"

definition protocol_disk_disklist :: "os \<Rightarrow> manager \<Rightarrow> trace \<Rightarrow> int \<times> (ptr \<times> bytes) option \<times> trace" where
  "protocol_disk_disklist E s tr =
     (let (r, mem, tr) = grow_answer E (map (\<lambda>d. enc_disklist (disklist_of d)) (di_list (dm_disk s))) (0, []) tr
      in if r then (DISK_SUCCESS, Some mem, tr) else (DISK_FAILURE, None, tr))"

section \<open>Start and end\<close>

text \<open>
  \<open>disk_destory\<close>: of the partitions those that are not mounted are unmounted. Freeing the configuration
  makes no difference to what follows.
\<close>

fun destory_partitions :: "os \<Rightarrow> disk_partinfo list \<Rightarrow> trace \<Rightarrow> trace" where
  "destory_partitions E [] tr = tr"
| "destory_partitions E (p # ps) tr =
     destory_partitions E ps (if pt_mounted p = 0
       then just_call E (File (Rmdir (pt_mntpoint p))) (just_call E (File (Umount (pt_mntpoint p) True)) tr) else tr)"

fun disk_destory :: "os \<Rightarrow> disk_maininfo list \<Rightarrow> trace \<Rightarrow> trace" where
  "disk_destory E [] tr = tr"
| "disk_destory E (d # ds) tr =
     disk_destory E ds (snd (sg_sleep_disk E (mi_devname d) 0 (destory_partitions E (mi_partlist d) tr)))"

text \<open>
  The prefix of the mount points: slashes at its end are cut, and what is then one character long is
  taken for the root. Slashes alone make the code read before the array.
\<close>

definition prefix_of :: "bytes \<Rightarrow> trace \<Rightarrow> bytes \<times> trace" where
  "prefix_of tmp tr =
     (let cut = rev (dropWhile (\<lambda>b. b = 47) (rev tmp)); tr = fault_if (cut = []) OutOfBounds tr
      in (if length cut = 1 then str ''/data'' else cut, tr))"

definition preffix_line :: "bytes \<Rightarrow> trace \<Rightarrow> (bytes + unit) \<times> trace" where
  "preffix_line line tr =
     (if \<not> starts_with (str ''preffix='') line then (Inr (), tr)
      else case scan_until [10, 32] (drop 8 line) of None \<Rightarrow> (Inr (), tr)
        | Some (tmp, _) \<Rightarrow> let (p, tr) = prefix_of tmp tr in (Inl p, tr))"

definition disk_preinit :: "os \<Rightarrow> trace \<Rightarrow> (bytes \<times> trace) option" where
  "disk_preinit E tr =
     (let (r, tr) = ret_call E (File (Access (str ''/etc/mnt_preffix''))) tr in
      if r \<noteq> 0 then Some (str ''/data'', tr)
      else
        let (f, tr) = do_call E (File (Fopen (str ''/etc/mnt_preffix''))) tr in
        if a_num f = 0 then Some (str ''/data'', tr)
        else do {
          (x, tr) \<leftarrow> fgets_loop E (a_num f) 512 (\<lambda>line _ tr. Some (preffix_line line tr)) () tr;
          Some (case x of Inl p \<Rightarrow> p | Inr _ \<Rightarrow> str ''/data'', just_call E (File (Fclose (a_num f))) tr)
        })"

text \<open>
  \<open>disk_init\<close>, which is called once, on a manager that is not ready: \<open>i4disk\<close> is set at its end only.
\<close>

definition dm_init :: "os \<Rightarrow> manager \<Rightarrow> trace \<Rightarrow> (int \<times> manager \<times> trace) option" where
  "dm_init E s tr = do {
     (prefix, tr) \<leftarrow> disk_preinit E tr;
     let (a, tr) = do_call E (Sys (Calloc 33352)) tr; s = s\<lparr>dm_prefix := prefix, dm_disk := disk_info0\<rparr> in
     if a_num a = 0 then Some (DISK_FAILURE, s, tr)
     else do {
       (_, hubs, tr) \<leftarrow> disk_gethub_info E tr;
       (r1, pdisk, tr) \<leftarrow> disk_major_list_parse E (disk_info0\<lparr>di_hubs := hubs\<rparr>) tr;
       if r1 = DISK_FAILURE then Some (DISK_FAILURE, s, tr)
       else do {
         (r2, pdisk, tr) \<leftarrow> disk_mnt_parameter_parse E pdisk tr;
         if r2 = DISK_FAILURE then Some (DISK_FAILURE, s, tr)
         else do {
           (r3, pdisk, tr) \<leftarrow> disk_mnt_disktag_parse E pdisk tr;
           if r3 = DISK_FAILURE then Some (DISK_FAILURE, s, tr)
           else do {
             (r4, s, tr) \<leftarrow> disk_mount_process E None (s\<lparr>dm_disk := pdisk\<rparr>) tr;
             if r4 = DISK_FAILURE
             then Some (DISK_FAILURE, s\<lparr>dm_disk := disk_info0\<rparr>, disk_destory E (di_list (dm_disk s)) tr)
             else Some (DISK_SUCCESS, s\<lparr>dm_ready := True\<rparr>, tr)
           }
         }
       }
     }
   }"

definition dm_aciton_func :: "os \<Rightarrow> udev_action \<Rightarrow> manager \<Rightarrow> trace \<Rightarrow> (int \<times> manager \<times> trace) option" where
  "dm_aciton_func E act s tr = (if \<not> dm_ready s then Some (DISK_FAILURE, s, tr) else udev_action_func E act s tr)"

section \<open>The protocol's lists of disks\<close>

text \<open>The disks that are mounted, one after the other, until the buffer is full; \<open>room\<close> is what is left of it.\<close>

fun lun_nodes :: "disk_maininfo list \<Rightarrow> bytes \<Rightarrow> nat \<Rightarrow> nat \<Rightarrow> int \<Rightarrow> trace \<Rightarrow> bytes \<times> int \<times> trace" where
  "lun_nodes [] mem off n room tr = (mem, room, tr)"
| "lun_nodes (d # ds) mem off n room tr =
     (if mi_status d \<noteq> sint DISK_MOUNTED then lun_nodes ds mem off n room tr
      else if room < 18 then (mem, room, tr)
      else
        let mem = poke mem off (put16 (get16 mem off + 1));
            (mem, tr) = memcpy mem (off + 2 + 18 * n)
              (enc_diskPlugNode \<lparr>pn_dev = strncpy (mi_devname d) 16, pn_seqnum = ucast (mi_plugcount d)\<rparr>) tr
        in lun_nodes ds mem off (n + 1) (room - 18) tr)"

text \<open>\<open>size\<close> is compared as unsigned, and so is a negative one taken for a large one.\<close>

definition dm_getdisk_lun :: "manager \<Rightarrow> bytes \<Rightarrow> nat \<Rightarrow> int \<Rightarrow> trace \<Rightarrow> int \<times> bytes \<times> int option \<times> trace" where
  "dm_getdisk_lun s mem off bsize tr =
     (if bsize mod 2 ^ 32 < 2 then (DISK_FAILURE, mem, None, tr)
      else
        let n = nat (bsize mod 2 ^ 32); (mem, tr) = memcpy mem off (zeros n) tr;
            tr = fault_if (\<not> dm_ready s) NullPtr tr;
            (mem, room, tr) = lun_nodes (di_list (dm_disk s)) mem off 0 (bsize - 2) tr
        in (DISK_SUCCESS, mem, Some (bsize - room), tr))"

text \<open>\<open>struct diskInfoPartNode\<close>, 97 bytes, and \<open>struct diskInfoNode\<close>, 617 with its 6 parts.\<close>

definition fs_code :: "bytes \<Rightarrow> u8" where
  "fs_code fstype =
     (if fstype = str ''vfat'' \<or> fstype = str ''fat32'' then 1
      else if fstype = str ''exfat'' then 2
      else if fstype = str ''ntfs'' then 3
      else if take 3 fstype = str ''hfs'' then 4
      else 0xFF)"

definition enc_info_part :: "disk_partinfo \<Rightarrow> bytes" where
  "enc_info_part p = strncpy (pt_devname p) 16 @ put64 (bi_total (pt_info p)) @ put64 (bi_used (pt_info p)) @
     strncpy (pt_mntpoint p) 63 @ [0] @ [fs_code (pt_fstype p)]"

abbreviation MAX_PARTITIONS :: nat where "MAX_PARTITIONS \<equiv> 6"

definition enc_info_node :: "disk_maininfo \<Rightarrow> disk_partinfo list \<Rightarrow> bytes" where
  "enc_info_node d ps =
     (let plug = (if contains (str ''SD'') (mi_type d) then 1 else 0) in
      strncpy (mi_devname d) 16 @ put64 (bi_total (mi_info d)) @ put64 (sum_list (map (\<lambda>p. bi_used (pt_info p)) ps)) @
      [plug, plug, of_nat (length ps)] @ concat (map enc_info_part ps) @ zeros (97 * (MAX_PARTITIONS - length ps)))"

text \<open>
  A disk with more than five mounted partitions ends the whole list: its own node has the first five
  but neither their number nor the used size, and is not counted.
\<close>

fun info_nodes ::
    "disk_maininfo list \<Rightarrow> bytes \<Rightarrow> nat \<Rightarrow> nat \<Rightarrow> int \<Rightarrow> trace \<Rightarrow> disk_maininfo list \<times> bytes \<times> int \<times> trace" where
  "info_nodes [] mem off n room tr = ([], mem, room, tr)"
| "info_nodes (d # ds) mem off n room tr =
     (if mi_status d \<noteq> sint DISK_MOUNTED then
        let (ds, mem, room, tr) = info_nodes ds mem off n room tr in (d # ds, mem, room, tr)
      else if room < 617 then (d # ds, mem, room, tr)
      else
        let ps = filter (\<lambda>p. pt_mounted p = 1) (mi_partlist d); shown = take (MAX_PARTITIONS - 1) ps;
            d = d\<lparr>mi_info := (mi_info d)\<lparr>bi_used := sum_list (map (\<lambda>p. bi_used (pt_info p)) shown)\<rparr>\<rparr>;
            node = enc_info_node d shown in
        if MAX_PARTITIONS - 1 < length ps then
          let (mem, tr) = memcpy mem (off + 2 + 617 * n) (poke (poke node 24 (zeros 8)) 34 [0]) tr in (d # ds, mem, room, tr)
        else
          let (mem, tr) = memcpy mem (off + 2 + 617 * n) node tr; mem = poke mem off (put16 (get16 mem off + 1));
              (ds, mem, room, tr) = info_nodes ds mem off (n + 1) (room - 617) tr
          in (d # ds, mem, room, tr))"

definition dm_getdisk_info :: "manager \<Rightarrow> bytes \<Rightarrow> nat \<Rightarrow> int \<Rightarrow> trace \<Rightarrow> int \<times> bytes \<times> int option \<times> manager \<times> trace" where
  "dm_getdisk_info s mem off bsize tr =
     (if bsize mod 2 ^ 32 < 2 then (DISK_FAILURE, mem, None, s, tr)
      else
        let n = nat (bsize mod 2 ^ 32); (mem, tr) = memcpy mem off (zeros n) tr;
            tr = fault_if (\<not> dm_ready s) NullPtr tr;
            (ds, mem, room, tr) = info_nodes (di_list (dm_disk s)) mem off 0 (bsize - 2) tr
        in (DISK_SUCCESS, mem, Some (bsize - room), set_list ds s, tr))"

end
