(* ===== verification/Ustor_Reach.thy ===== *)
theory Ustor_Reach
  imports Ustor_Manager
begin

text \<open>
  What always holds of the disk manager's list: no disk is in it twice, the number of its partitions is
  kept, and a disk that was removed safely has nothing mounted. Every operation of the manager keeps
  it, so that it holds in every state that is reached.
\<close>

section \<open>The invariant\<close>

definition disk_ok :: "disk_maininfo \<Rightarrow> bool" where
  "disk_ok d \<longleftrightarrow> mi_partnum d = int (length (mi_partlist d)) \<and> (\<forall>p\<in>set (mi_partlist d). pt_mounted p \<in> {0, 1}) \<and>
     mi_status d \<in> {0, sint DISK_MOUNTED, DISK_SFREMOVE} \<and>
     (mi_status d = DISK_SFREMOVE \<longrightarrow> (\<forall>p\<in>set (mi_partlist d). pt_mounted p = 0))"

definition disks_ok :: "disk_maininfo list \<Rightarrow> bool" where
  "disks_ok ds \<longleftrightarrow> distinct (map mi_devname ds) \<and> (\<forall>d\<in>set ds. disk_ok d)"

definition registry_ok :: "disk_info \<Rightarrow> bool" where
  "registry_ok pdisk \<longleftrightarrow> disks_ok (di_list pdisk) \<and> int (length (di_list pdisk)) \<le> di_disk_num pdisk"

text \<open>A disk after an operation that leaves it in the list.\<close>

definition same_disk :: "disk_maininfo \<Rightarrow> disk_maininfo \<Rightarrow> bool" where
  "same_disk d d' \<longleftrightarrow> mi_devname d' = mi_devname d \<and> (disk_ok d \<longrightarrow> disk_ok d')"

lemma same_disk_refl [simp, intro]: "same_disk d d"
  by (simp add: same_disk_def)

lemma same_disks_refl [simp, intro]: "list_all2 same_disk ds ds"
  by (rule list_all2_refl) simp

lemma disks_ok_same: "list_all2 same_disk ds ds' \<Longrightarrow> disks_ok ds \<Longrightarrow> disks_ok ds'"
proof -
  assume a: "list_all2 same_disk ds ds'" and b: "disks_ok ds"
  from a have "map mi_devname ds' = map mi_devname ds \<and> ((\<forall>d\<in>set ds. disk_ok d) \<longrightarrow> (\<forall>d\<in>set ds'. disk_ok d))"
    by (induction rule: list_all2_induct) (auto simp: same_disk_def)
  then show ?thesis using b by (simp add: disks_ok_def)
qed

lemma registry_ok_same:
  "list_all2 same_disk (di_list p) ds \<Longrightarrow> registry_ok p \<Longrightarrow> registry_ok (p\<lparr>di_list := ds\<rparr>)"
  using disks_ok_same by (auto simp: registry_ok_def dest: list_all2_lengthD)

lemma registry_ok_set_list:
  "list_all2 same_disk (di_list (dm_disk s)) ds \<Longrightarrow> registry_ok (dm_disk s) \<Longrightarrow> registry_ok (dm_disk (set_list ds s))"
  using registry_ok_same by (simp add: set_list_def)

lemma dm_ready_set_list [simp]: "dm_ready (set_list ds s) = dm_ready s"
  by (simp add: set_list_def)

section \<open>Inserting\<close>

text \<open>A disk as it is when it is new.\<close>

definition new_disk :: "bytes \<Rightarrow> disk_maininfo \<Rightarrow> bool" where
  "new_disk name d \<longleftrightarrow> mi_devname d = name \<and> mi_partlist d = [] \<and> mi_partnum d = 0 \<and> mi_status d = 0"

lemma fill_new_disk:
  assumes "new_disk name d" "disk_fill_main_partition_baseinfo E pdisk d tr = (d', tr')"
  shows "new_disk name d'"
  using assms unfolding disk_fill_main_partition_baseinfo_def new_disk_def
  by (auto simp: Let_def apply_tag_def split: prod.splits option.splits if_splits)

lemma registry_ok_add_disk:
  assumes "registry_ok pdisk" "new_disk name d" "name \<notin> mi_devname ` set (di_list pdisk)"
  shows "registry_ok (add_disk d pdisk)"
  using assms by (auto simp: registry_ok_def disks_ok_def add_disk_def new_disk_def disk_ok_def)

lemma search_main_None: "search_main ds name i = None \<Longrightarrow> name \<notin> mi_devname ` set ds"
  by (induction ds name i rule: search_main.induct) (auto split: if_splits)

lemma search_main_Some:
  "search_main ds name i = Some j \<Longrightarrow> i \<le> j \<and> j < i + length ds \<and> mi_devname (ds ! (j - i)) = name"
proof (induction ds name i rule: search_main.induct)
  case (2 d ds name i)
  show ?case
  proof (cases "mi_devname d = name")
    case False
    then have k: "i + 1 \<le> j" "j < i + 1 + length ds" "mi_devname (ds ! (j - (i + 1))) = name" using 2 by auto
    then have "j - i = Suc (j - (i + 1))" by simp
    then show ?thesis using k by simp
  qed (use 2 in auto)
qed simp

lemma registry_ok_add_part:
  assumes "registry_ok pdisk" "i < length (di_list pdisk)" "pt_mounted p = 0"
  shows "registry_ok (add_part i p pdisk)"
proof -
  let ?d = "di_list pdisk ! i"
  let ?d' = "?d\<lparr>mi_partnum := mi_partnum ?d + 1, mi_partlist := mi_partlist ?d @ [p]\<rparr>"
  have "same_disk ?d ?d'" using assms(3) by (auto simp: same_disk_def disk_ok_def)
  then have "list_all2 same_disk (di_list pdisk) ((di_list pdisk)[i := ?d'])"
    using assms(2) by (auto simp: list_all2_conv_all_nth nth_list_update)
  then show ?thesis using registry_ok_same assms(1) by (simp add: add_part_def Let_def)
qed

lemma insert_main_line_disk:
  assumes "insert_main_line E name line pdisk tr = (x, tr')"
  shows "case x of Inl (good, p) \<Rightarrow> if good then \<exists>d. new_disk name d \<and> p = add_disk d pdisk else p = pdisk | Inr p \<Rightarrow> p = pdisk"
proof -
  have n: "new_disk name (maininfo0\<lparr>mi_info := baseinfo0\<lparr>bi_devname := name, bi_major := ma, bi_minor := mi, bi_total := t\<rparr>\<rparr>)"
    for ma mi t by (simp add: new_disk_def maininfo0_def)
  show ?thesis
    using assms fill_new_disk [OF n] unfolding insert_main_line_def Let_def
    by (fastforce split: prod.splits option.splits if_splits)
qed

lemma disk_insert_main_partition_disk:
  assumes "disk_insert_main_partition E pdisk name tr = Some (r, p, tr')"
  shows "if r = DISK_SUCCESS then \<exists>d. new_disk name d \<and> p = add_disk d pdisk else p = pdisk"
proof -
  obtain a t0 where c: "do_call E (File (Fopen (str ''/proc/partitions''))) tr = (a, t0)" by fastforce
  define fp where "fp = a_num a"
  let ?body = "\<lambda>line pdisk tr. Some (insert_main_line E name line pdisk tr)"
  let ?R = "\<lambda>(good, p). if good then \<exists>d. new_disk name d \<and> p = add_disk d pdisk else p = pdisk"
  have run: "(if fp = 0 then Some (DISK_FAILURE, pdisk, t0)
      else do {
        (x, tr) \<leftarrow> fgets_loop E fp 512 ?body pdisk t0;
        let tr = just_call E (File (Fclose fp)) tr in
        case x of Inl (good, pdisk) \<Rightarrow> Some (if good then DISK_SUCCESS else DISK_FAILURE, pdisk, tr)
        | Inr pdisk \<Rightarrow> Some (DISK_FAILURE, pdisk, tr)
      }) = Some (r, p, tr')"
    using assms by (simp add: disk_insert_main_partition_def c fp_def Let_def split: if_split_asm)
  have loop: "case x of Inl y \<Rightarrow> ?R y | Inr p \<Rightarrow> p = pdisk" if "fgets_loop E fp 512 ?body pdisk t0 = Some (x, t1)" for x t1
    using fgets_loop_inv [where I = "\<lambda>p. p = pdisk" and body = ?body and R = ?R, OF _ that refl]
      insert_main_line_disk by (auto split: sum.splits)
  show ?thesis
  proof (cases "fp = 0")
    case True
    then show ?thesis using run by simp
  next
    case False
    then have "fgets_loop E fp 512 ?body pdisk t0 \<bind> (\<lambda>(x, tr). let tr = just_call E (File (Fclose fp)) tr in
        case x of Inl (good, pdisk) \<Rightarrow> Some (if good then DISK_SUCCESS else DISK_FAILURE, pdisk, tr)
        | Inr pdisk \<Rightarrow> Some (DISK_FAILURE, pdisk, tr)) = Some (r, p, tr')" using run by simp
    then obtain x t1 where x: "fgets_loop E fp 512 ?body pdisk t0 = Some (x, t1)"
      and y: "(let tr = just_call E (File (Fclose fp)) t1 in
        case x of Inl (good, pdisk) \<Rightarrow> Some (if good then DISK_SUCCESS else DISK_FAILURE, pdisk, tr)
        | Inr pdisk \<Rightarrow> Some (DISK_FAILURE, pdisk, tr)) = Some (r, p, tr')"
      by (cases "fgets_loop E fp 512 ?body pdisk t0") auto
    show ?thesis using loop [OF x] y by (cases x) (auto simp: Let_def split: if_splits)
  qed
qed

lemma insert_main_ok:
  assumes "registry_ok (dm_disk s)" "bi_devname pinfo \<notin> mi_devname ` set (di_list (dm_disk s))"
    and "insert_main E kind pinfo s tr = (r, s', tr')"
  shows "registry_ok (dm_disk s') \<and> dm_ready s' = dm_ready s"
proof -
  have n: "new_disk (bi_devname pinfo) (maininfo0\<lparr>mi_info := pinfo\<lparr>bi_used := 0\<rparr>, mi_plugcount := c, mi_type := y\<rparr>)" for c y
    by (simp add: new_disk_def maininfo0_def)
  show ?thesis
    using assms(3) fill_new_disk [OF n] registry_ok_add_disk [OF assms(1) _ assms(2)] assms(1)
    by (auto simp: insert_main_def Let_def split: prod.splits if_splits)
qed

lemma insert_part_ok:
  assumes "registry_ok (dm_disk s)" "i < length (di_list (dm_disk s))" "insert_part E i pinfo s tr = (r, s', tr')"
  shows "registry_ok (dm_disk s') \<and> dm_ready s' = dm_ready s"
  using assms registry_ok_add_part [OF assms(1,2)]
  by (auto simp: insert_part_def partinfo0_def split: prod.splits if_splits)

lemma usb_main_name: "dev_kind m pinfo tr = (Some (k, name), tr') \<Longrightarrow> k = DISK_USB_MAIN \<or> k = DISK_MMC_MAIN \<Longrightarrow> name = bi_devname pinfo"
  by (auto simp: dev_kind_def Let_def split: if_splits)

lemma insert_partition_ok:
  assumes "registry_ok (dm_disk s)" "disk_insert_partition_list E pinfo s tr = Some (r, s', tr')"
  shows "registry_ok (dm_disk s') \<and> dm_ready s' = dm_ready s"
proof (cases "disk_search_major_list (di_major (dm_disk s)) (bi_major pinfo)")
  case None
  then show ?thesis using assms by (simp add: disk_insert_partition_list_def)
next
  case (Some m)
  obtain kn t where k: "dev_kind m pinfo tr = (kn, t)" by fastforce
  show ?thesis
  proof (cases kn)
    case None
    then show ?thesis using assms k Some by (simp add: disk_insert_partition_list_def)
  next
    case K: (Some y)
    obtain kind name where y: "y = (kind, name)" by fastforce
    define t1 where "t1 = make_node E (sprintf_dev (bi_devname pinfo)) (bi_major pinfo) (bi_minor pinfo)
      (into 64 (sprintf_dev (bi_devname pinfo)) t)"
    define dmain where "dmain = search_main (di_list (dm_disk s)) name 0"
    note run = assms(2) [unfolded disk_insert_partition_list_def Some option.case k prod.case Let_def K y
        t1_def [symmetric] disk_search_partition_list_def, simplified, folded dmain_def]
    show ?thesis
    proof (cases "kind = DISK_USB_MAIN \<or> kind = DISK_MMC_MAIN")
      case True
      have "name = bi_devname pinfo" using usb_main_name [OF k [unfolded K y]] True by simp
      then have "dmain = None \<Longrightarrow> bi_devname pinfo \<notin> mi_devname ` set (di_list (dm_disk s))"
        using search_main_None by (simp add: dmain_def)
      then show ?thesis using run True insert_main_ok [OF assms(1)] assms(1) by (auto split: if_splits)
    next
      case part: False
      show ?thesis
      proof (cases dmain)
        case (Some i)
        then have "i < length (di_list (dm_disk s))" using search_main_Some [of _ name 0 i] by (simp add: dmain_def)
        then show ?thesis using run part Some insert_part_ok [OF assms(1)] by auto
      next
        case None
        then have n: "name \<notin> mi_devname ` set (di_list (dm_disk s))" using search_main_None by (simp add: dmain_def)
        show ?thesis
        proof (cases "dm_ready s")
          case True
          then show ?thesis using run part None assms(1) by auto
        next
          case False
          then obtain ret pd t2 where i: "disk_insert_main_partition E (dm_disk s) name t1 = Some (ret, pd, t2)"
            and r: "(if ret \<noteq> 0 then Some (DISK_FAILURE, s\<lparr>dm_disk := pd\<rparr>, t2)
              else Some (insert_part E (length (di_list pd) - 1) pinfo (s\<lparr>dm_disk := pd\<rparr>) t2)) = Some (r, s', tr')"
            using run part None by (auto simp: bind_eq_Some_conv)
          note d = disk_insert_main_partition_disk [OF i]
          show ?thesis
          proof (cases "ret = 0")
            case True
            then obtain e where e: "new_disk name e" "pd = add_disk e (dm_disk s)" using d by auto
            then have p: "registry_ok (dm_disk (s\<lparr>dm_disk := pd\<rparr>))" "length (di_list pd) - 1 < length (di_list (dm_disk (s\<lparr>dm_disk := pd\<rparr>)))"
              using registry_ok_add_disk [OF assms(1) _ n] by (simp_all add: add_disk_def)
            have "insert_part E (length (di_list pd) - 1) pinfo (s\<lparr>dm_disk := pd\<rparr>) t2 = (r, s', tr')" using r True by simp
            from insert_part_ok [OF p this] show ?thesis by simp
          next
            case False
            then show ?thesis using r d assms(1) by auto
          qed
        qed
      qed
    qed
  qed
qed

section \<open>Scanning and mounting\<close>

lemma scan_line_ok:
  assumes "registry_ok (dm_disk s)" "scan_line E spedev line s tr = Some (x, tr')"
  shows "\<exists>s'. x = Inr s' \<and> registry_ok (dm_disk s') \<and> dm_ready s' = dm_ready s"
  using assms insert_partition_ok [OF assms(1)] unfolding scan_line_def Let_def
  by (auto simp: bind_eq_Some_conv split: prod.splits option.splits if_splits)

lemma scan_ok:
  assumes "registry_ok (dm_disk s)" "disk_mnt1_loop_partition E spedev s tr = Some (r, s', tr')"
  shows "registry_ok (dm_disk s') \<and> dm_ready s' = dm_ready s"
proof -
  let ?I = "\<lambda>s'. registry_ok (dm_disk s') \<and> dm_ready s' = dm_ready s"
  have loop: "case x of Inl r \<Rightarrow> False | Inr s' \<Rightarrow> ?I s'" if "fgets_loop E fp 512 (scan_line E spedev) s t = Some (x, t')" for fp t x t'
    using fgets_loop_inv [where I = ?I and R = "\<lambda>_. False", OF _ that] scan_line_ok assms(1)
    by (fastforce split: sum.splits)
  obtain a t where c: "do_call E (File (Fopen (str ''/proc/partitions''))) tr = (a, t)" by fastforce
  show ?thesis
  proof (cases "a_num a = 0")
    case True
    then show ?thesis using assms c by (simp add: disk_mnt1_loop_partition_def)
  next
    case False
    then obtain x t' where x: "fgets_loop E (a_num a) 512 (scan_line E spedev) s t = Some (x, t')"
      and s': "s' = (case x of Inl _ \<Rightarrow> s | Inr s \<Rightarrow> s)"
      using assms(2) c by (auto simp: disk_mnt1_loop_partition_def bind_eq_Some_conv)
    show ?thesis using loop [OF x] s' by (cases x) auto
  qed
qed

text \<open>What a partition's mount changes, and what it does not.\<close>

lemma probe_partition_keeps:
  "probe_partition E p b tr = Some (p', b', tr') \<Longrightarrow> pt_mounted p' = pt_mounted p"
  by (auto simp: probe_partition_def bind_eq_Some_conv Let_def split: option.splits if_splits)

lemma probe_partitions_keeps:
  "probe_partitions E ps b tr = Some (ps', b', tr') \<Longrightarrow> list_all2 (\<lambda>p p'. pt_mounted p' = pt_mounted p) ps ps'"
  by (induction E ps b tr arbitrary: ps' b' tr' rule: probe_partitions.induct)
    (auto simp: bind_eq_Some_conv dest: probe_partition_keeps)

text \<open>A disk keeps its invariant when its partitions keep their number and are mounted as before.\<close>

lemma same_disk_parts:
  assumes "list_all2 (\<lambda>p p'. pt_mounted p' = pt_mounted p) (mi_partlist d) ps" "mi_partlist d' = ps"
    and "mi_devname d' = mi_devname d" "mi_partnum d' = mi_partnum d" "mi_status d' = mi_status d"
  shows "same_disk d d'"
proof -
  from assms(1) have "length ps = length (mi_partlist d) \<and> (\<forall>v. (\<forall>p\<in>set (mi_partlist d). pt_mounted p \<in> v) \<longrightarrow> (\<forall>p\<in>set ps. pt_mounted p \<in> v))"
    by (induction rule: list_all2_induct) auto
  then show ?thesis using assms(2-) unfolding same_disk_def disk_ok_def
    by (metis insertCI insertE singletonD)
qed

text \<open>A mounted disk only needs that its partitions are mounted or not.\<close>

lemma same_disk_mounted:
  assumes "length ps = length (mi_partlist d)"
    and "(\<forall>p\<in>set (mi_partlist d). pt_mounted p \<in> {0, 1}) \<Longrightarrow> (\<forall>p\<in>set ps. pt_mounted p \<in> {0, 1})"
    and "mi_partlist d' = ps" "mi_devname d' = mi_devname d" "mi_partnum d' = mi_partnum d" "mi_status d' = sint DISK_MOUNTED"
  shows "same_disk d d'"
  using assms by (auto simp: same_disk_def disk_ok_def)

lemma confirm_disk_same:
  assumes "confirm_disk E d b tr = Some (good, d', b', tr')"
  shows "same_disk d d'"
proof (cases "mi_partnum d = 0")
  case True
  show ?thesis
  proof (cases "good")
    case False
    then show ?thesis using assms True by (auto simp: confirm_disk_def bind_eq_Some_conv Let_def split: prod.splits if_splits)
  next
    case good: True
    then obtain p t b1 t1 where p: "probe_partition E (partinfo0\<lparr>pt_info := mi_info d\<rparr>) b t = Some (p, b1, t1)"
      and d': "d' = d\<lparr>mi_partlist := mi_partlist d @ [p], mi_partnum := 1\<rparr>"
      using assms True by (auto simp: confirm_disk_def bind_eq_Some_conv Let_def split: prod.splits if_splits)
    have "pt_mounted p = 0" using probe_partition_keeps [OF p] by (simp add: partinfo0_def)
    then show ?thesis using True d' by (auto simp: same_disk_def disk_ok_def)
  qed
next
  case False
  then obtain ps b1 t1 where p: "probe_partitions E (mi_partlist d) b tr = Some (ps, b1, t1)"
    and d': "d' = d\<lparr>mi_partlist := ps\<rparr>"
    using assms by (auto simp: confirm_disk_def bind_eq_Some_conv)
  show ?thesis by (rule same_disk_parts [OF probe_partitions_keeps [OF p]]) (simp_all add: d')
qed

lemma confirm_loop_same:
  "confirm_loop E spedev ds b tr = Some (r, ds', b', tr') \<Longrightarrow> list_all2 same_disk ds ds'"
  by (induction E spedev ds b tr arbitrary: r ds' b' tr' rule: confirm_loop.induct)
    (auto simp: bind_eq_Some_conv split: if_splits dest: confirm_disk_same)

lemma readonly_test_keeps [simp]: "pt_mounted (fst (readonly_test E mode p tr)) = pt_mounted p"
  by (simp add: readonly_test_def Let_def case_prod_beta)

lemma update_capacity_keeps [simp]: "pt_mounted (fst (update_partition_capacity_rw E p tr)) = pt_mounted p"
  by (simp add: update_partition_capacity_rw_def Let_def case_prod_beta)

lemma mount_point_keeps [simp]: "pt_mounted (fst (generate_mount_point E prefix tag display p tr)) = pt_mounted p"
  by (simp add: generate_mount_point_def Let_def case_prod_beta)

lemma get_capacity_keeps: "get_partition_capacity_rw E p tr = Some (p', tr') \<Longrightarrow> pt_mounted p' = pt_mounted p"
proof -
  have r: "readonly_test E mode q t = (p', t') \<Longrightarrow> pt_mounted p' = pt_mounted q" for mode q t t'
    using readonly_test_keeps [of E mode q t] by simp
  show "get_partition_capacity_rw E p tr = Some (p', tr') \<Longrightarrow> pt_mounted p' = pt_mounted p"
    by (auto simp: get_partition_capacity_rw_def bind_eq_Some_conv Let_def case_prod_beta split: if_splits option.splits)
      (drule r, simp)
qed

lemma automount_partition_mounted:
  "automount_partition E prefix plist d p tr = Some (n, p', tr') \<Longrightarrow> pt_mounted p' \<in> {0, 1} \<or> pt_mounted p' = pt_mounted p"
  by (auto simp: automount_partition_def bind_eq_Some_conv Let_def case_prod_beta split: if_splits)

lemma automount_partitions_mounted:
  "automount_partitions E prefix plist d ps tr = Some (n, ps', tr') \<Longrightarrow>
     list_all2 (\<lambda>p p'. pt_mounted p' \<in> {0, 1} \<or> pt_mounted p' = pt_mounted p) ps ps'"
proof (induction ps arbitrary: n ps' tr tr')
  case (Cons p ps)
  then show ?case by (auto simp: bind_eq_Some_conv dest: automount_partition_mounted)
qed simp

text \<open>The partitions of a mounted disk.\<close>

lemma same_disk_mount:
  assumes "list_all2 (\<lambda>p p'. pt_mounted p' \<in> {0, 1} \<or> pt_mounted p' = pt_mounted p) (mi_partlist d) ps"
    and "mi_partlist d' = ps" "mi_devname d' = mi_devname d" "mi_partnum d' = mi_partnum d" "mi_status d' = sint DISK_MOUNTED"
  shows "same_disk d d'"
proof -
  from assms(1) have "length ps = length (mi_partlist d) \<and>
      ((\<forall>p\<in>set (mi_partlist d). pt_mounted p \<in> {0, 1}) \<longrightarrow> (\<forall>p\<in>set ps. pt_mounted p \<in> {0, 1}))"
    by (induction rule: list_all2_induct) auto
  then show ?thesis using same_disk_mounted assms(2-) by blast
qed

lemma automount_disk_same:
  assumes "automount_disk E prefix plist d tr = Some (d', tr')"
  shows "same_disk d d'"
proof -
  obtain n ps t where p: "automount_partitions E prefix plist d (mi_partlist d) tr = Some (n, ps, t)"
    and d': "d' = d\<lparr>mi_info := (mi_info d)\<lparr>bi_used := bi_used (mi_info d) + n\<rparr>, mi_partlist := ps, mi_status := sint DISK_MOUNTED\<rparr>"
    using assms by (auto simp: automount_disk_def bind_eq_Some_conv)
  show ?thesis by (rule same_disk_mount [OF automount_partitions_mounted [OF p]]) (simp_all add: d')
qed

lemma automount_loop_same:
  "automount_loop E prefix plist spedev ds tr = Some (r, ds', tr') \<Longrightarrow> list_all2 same_disk ds ds'"
  by (induction E prefix plist spedev ds tr arbitrary: r ds' tr' rule: automount_loop.induct)
    (auto simp: bind_eq_Some_conv split: if_splits dest: automount_disk_same)

lemma mount_process_ok:
  assumes "registry_ok (dm_disk s)" "disk_mount_process E spedev s tr = Some (r, s', tr')"
  shows "registry_ok (dm_disk s') \<and> dm_ready s' = dm_ready s"
proof -
  have c: "registry_ok (dm_disk s2) \<and> dm_ready s2 = dm_ready s1"
    if "registry_ok (dm_disk s1)" "disk_mnt2_confirm_partition_info E spedev s1 t = Some (k, s2, t')" for s1 s2 k t t'
    using that registry_ok_set_list [OF confirm_loop_same that(1)]
    by (auto simp: disk_mnt2_confirm_partition_info_def bind_eq_Some_conv)
  have m: "registry_ok (dm_disk s2) \<and> dm_ready s2 = dm_ready s1"
    if "registry_ok (dm_disk s1)" "disk_mnt3_automount_partition E spedev s1 t = Some (k, s2, t')" for s1 s2 k t t'
    using that registry_ok_set_list [OF automount_loop_same that(1)]
    by (auto simp: disk_mnt3_automount_partition_def bind_eq_Some_conv)
  obtain r1 s1 t1 where s1: "disk_mnt1_loop_partition E spedev s tr = Some (r1, s1, t1)"
    using assms(2) by (auto simp: disk_mount_process_def bind_eq_Some_conv)
  note k1 = scan_ok [OF assms(1) s1]
  show ?thesis
  proof (cases "r1 = DISK_FAILURE")
    case True
    then show ?thesis using assms(2) s1 k1 by (simp add: disk_mount_process_def)
  next
    case False
    then obtain r2 s2 t2 where s2: "disk_mnt2_confirm_partition_info E spedev s1 t1 = Some (r2, s2, t2)"
      using assms(2) s1 by (auto simp: disk_mount_process_def bind_eq_Some_conv)
    then have k2: "registry_ok (dm_disk s2) \<and> dm_ready s2 = dm_ready s" using c k1 by blast
    show ?thesis
    proof (cases "r2 = DISK_SUCCESS")
      case True
      then have "disk_mnt3_automount_partition E spedev s2 t2 = Some (r, s', tr')"
        using assms(2) s1 s2 False by (simp add: disk_mount_process_def)
      then show ?thesis using m k2 by blast
    next
      case r2: False
      then show ?thesis using assms(2) s1 s2 False k2 by (simp add: disk_mount_process_def)
    qed
  qed
qed

section \<open>Actions and answers\<close>

lemma wakeup_partitions_mounted:
  "wakeup_partitions E prefix plist d ps tr = Some (w, ps', tr') \<Longrightarrow>
     list_all2 (\<lambda>p p'. pt_mounted p' \<in> {0, 1} \<or> pt_mounted p' = pt_mounted p) ps ps'"
proof (induction ps arbitrary: w ps' tr tr')
  case (Cons p ps)
  obtain mounted t where f: "find_mount_point E (sprintf_dev (pt_devname p)) (into 64 (sprintf_dev (pt_devname p)) tr) = Some (mounted, t)"
    using Cons.prems by (auto simp: bind_eq_Some_conv Let_def)
  show ?case
  proof (cases mounted)
    case True
    then show ?thesis using Cons.prems f by (auto simp: bind_eq_Some_conv Let_def list_all2_refl dest: get_capacity_keeps)
  next
    case False
    then show ?thesis using Cons.prems f
      by (auto simp: bind_eq_Some_conv Let_def case_prod_beta dest: Cons.IH split: if_splits)
  qed
qed simp

lemma wakeup_loop_same:
  "wakeup_loop E prefix plist act ds tr = Some (r, ds', tr') \<Longrightarrow> list_all2 same_disk ds ds'"
proof (induction ds arbitrary: r ds' tr tr')
  case (Cons d ds)
  have k: "same_disk d (d\<lparr>mi_partlist := ps, mi_status := sint DISK_MOUNTED\<rparr>)"
    if "wakeup_partitions E prefix plist d (mi_partlist d) t = Some (w, ps, t')" for w ps t t'
    by (rule same_disk_mount [OF wakeup_partitions_mounted [OF that]]) simp_all
  show ?case using Cons.prems k by (auto simp: bind_eq_Some_conv dest: Cons.IH split: if_splits)
qed simp

lemma remove_partitions_mounted:
  "remove_partitions E DISK_SFREMOVE ps tr = (ps', tr') \<Longrightarrow> ps' = map (\<lambda>p. p\<lparr>pt_mounted := 0\<rparr>) ps"
  by (induction ps arbitrary: tr ps' tr') (auto simp: Let_def split: prod.splits)

lemma remove_partitions_other:
  "remove_partitions E action ps tr = (ps', tr') \<Longrightarrow> action \<noteq> DISK_SFREMOVE \<Longrightarrow> action \<noteq> DISK_UDEV_REMOVE \<Longrightarrow> ps' = ps"
  by (induction ps arbitrary: tr ps' tr') (auto simp: Let_def split: prod.splits)

text \<open>A disk leaves the list, or all stay.\<close>

lemma remove_loop_same:
  "remove_loop E act ds tr = (r, ds', tr') \<Longrightarrow>
     list_all2 same_disk ds ds' \<or> (\<exists>as d bs. ds = as @ d # bs \<and> ds' = as @ bs)"
proof (induction ds arbitrary: r ds' tr tr')
  case (Cons d ds)
  show ?case
  proof (cases "mi_devname d = ua_dev act \<and> ua_major act = 0xFFFF")
    case False
    obtain r1 ds1 t1 where q: "remove_loop E act ds tr = (r1, ds1, t1)" by (cases "remove_loop E act ds tr")
    then have "ds' = d # ds1" using Cons.prems False by auto
    then show ?thesis using Cons.IH [OF q] by (metis append_Cons list.rel_intros(2) same_disk_refl)
  next
    case True
    obtain ps t where q: "remove_partitions E (ua_action act) (mi_partlist d) tr = (ps, t)" by fastforce
    consider "mi_status d = ua_action act" | "mi_status d \<noteq> ua_action act" "ua_action act = DISK_SFREMOVE"
      | "mi_status d \<noteq> ua_action act" "ua_action act = DISK_UDEV_REMOVE"
      | "mi_status d \<noteq> ua_action act" "ua_action act \<noteq> DISK_SFREMOVE" "ua_action act \<noteq> DISK_UDEV_REMOVE" by blast
    then show ?thesis
    proof cases
      case 1
      then show ?thesis using Cons.prems True by auto
    next
      case 2
      have "ds' = d\<lparr>mi_partlist := map (\<lambda>p. p\<lparr>pt_mounted := 0\<rparr>) (mi_partlist d), mi_status := DISK_SFREMOVE\<rparr> # ds"
        using Cons.prems True 2 q remove_partitions_mounted [of E "mi_partlist d" tr] by (auto simp: Let_def)
      moreover have "same_disk d (d\<lparr>mi_partlist := map (\<lambda>p. p\<lparr>pt_mounted := 0\<rparr>) (mi_partlist d), mi_status := DISK_SFREMOVE\<rparr>)"
        by (auto simp: same_disk_def disk_ok_def)
      ultimately show ?thesis by simp
    next
      case 3
      then have "ds' = ds" using Cons.prems True q by (auto simp: Let_def)
      then show ?thesis by (metis append_Nil)
    next
      case 4
      then have "ds' = d\<lparr>mi_partlist := mi_partlist d\<rparr> # ds"
        using Cons.prems True q remove_partitions_other [OF q] by (auto simp: Let_def)
      then show ?thesis by auto
    qed
  qed
qed simp

lemma registry_ok_remove:
  "registry_ok p \<Longrightarrow> di_list p = as @ d # bs \<Longrightarrow> registry_ok (p\<lparr>di_list := as @ bs\<rparr>)"
  by (auto simp: registry_ok_def disks_ok_def)

lemma udev_action_ok:
  assumes "registry_ok (dm_disk s)" "udev_action_func E act s tr = Some (r, s', tr')"
  shows "registry_ok (dm_disk s') \<and> dm_ready s' = dm_ready s"
proof -
  consider "ua_action act = DISK_UDEV_ADD" | "ua_action act = DISK_WAKEUP"
    | "ua_action act \<noteq> DISK_UDEV_ADD" "ua_action act \<noteq> DISK_WAKEUP" by blast
  then show ?thesis
  proof cases
    case 1
    then show ?thesis using assms mount_process_ok by (simp add: udev_action_func_def udev_action_func_add_def)
  next
    case 2
    then show ?thesis using assms registry_ok_set_list [OF wakeup_loop_same assms(1)]
      by (auto simp: udev_action_func_def udev_action_func_wakeup_def bind_eq_Some_conv)
  next
    case 3
    obtain r1 ds t where q: "remove_loop E act (di_list (dm_disk s)) tr = (r1, ds, t)" by (cases "remove_loop E act (di_list (dm_disk s)) tr")
    then have s': "s' = set_list ds s" using assms(2) 3 by (simp add: udev_action_func_def udev_action_func_remove_def)
    from remove_loop_same [OF q] show ?thesis
      using s' registry_ok_set_list [OF _ assms(1)] registry_ok_remove [OF assms(1)] by (auto simp: set_list_def)
  qed
qed

lemma all_action_ok:
  assumes "registry_ok (dm_disk s)" "udev_action_func_all E action s tr = Some (r, s', tr')"
  shows "registry_ok (dm_disk s') \<and> dm_ready s' = dm_ready s"
proof (cases "action = DISK_UDEV_ADD")
  case True
  then obtain r1 s1 t1 where "disk_mount_process E None s tr = Some (r1, s1, t1)" "disk_mount_process E None s1 t1 = Some (r, s', tr')"
    using assms(2) by (auto simp: udev_action_func_all_def bind_eq_Some_conv)
  then show ?thesis using mount_process_ok assms(1) by metis
next
  case False
  then have "s' = set_list [] s" using assms(2) by (auto simp: udev_action_func_all_def Let_def split: if_splits)
  then show ?thesis using assms(1) by (auto simp: set_list_def registry_ok_def disks_ok_def)
qed

lemma proto_parts_mounted:
  "proto_parts E flag ps mem cused tr = (r, ps', mem', cused', tr') \<Longrightarrow> list_all2 (\<lambda>p p'. pt_mounted p' = pt_mounted p) ps ps'"
proof (induction ps arbitrary: mem cused tr r ps' mem' cused' tr')
  case (Cons p ps)
  have u: "update_partition_capacity_rw E p t = (q, t') \<Longrightarrow> pt_mounted q = pt_mounted p" for q t t'
    using update_capacity_keeps [of E p t] by simp
  show ?case using Cons.prems
    by (auto simp: Let_def list_all2_refl dest!: u dest: Cons.IH split: prod.split_asm if_split_asm)
qed simp

lemma proto_disks_same:
  "proto_disks E special flag ds mem tr = (r, ds', mem', tr') \<Longrightarrow> list_all2 same_disk ds ds'"
proof (induction ds arbitrary: special flag mem tr r ds' mem' tr')
  case (Cons d ds)
  have k: "same_disk d (d\<lparr>mi_partlist := ps\<rparr>)" "same_disk d (d\<lparr>mi_partlist := ps, mi_info := (mi_info d)\<lparr>bi_used := c\<rparr>\<rparr>)"
    if "proto_parts E flag (mi_partlist d) (0, []) 0 t = (good, ps, parts, cused, t')" for t good ps parts cused t' c
    by (rule same_disk_parts [OF proto_parts_mounted [OF that]]; simp)+
  show ?case using Cons.prems
    by (auto simp: Let_def dest: k Cons.IH split: prod.split_asm if_split_asm)
qed simp

lemma info_nodes_same:
  "info_nodes ds mem off n room tr = (ds', mem', room', tr') \<Longrightarrow> list_all2 same_disk ds ds'"
proof (induction ds arbitrary: mem n room tr ds' mem' room' tr')
  case (Cons d ds)
  have "same_disk d (d\<lparr>mi_info := (mi_info d)\<lparr>bi_used := c\<rparr>\<rparr>)" for c by (auto simp: same_disk_def disk_ok_def)
  then show ?case using Cons.prems
    by (auto simp: Let_def dest: Cons.IH split: prod.split_asm if_split_asm)
qed simp

lemma get_all_ok:
  "registry_ok (dm_disk s) \<Longrightarrow> protocol_get_all_disk_info E data s tr = (r, x, s', tr') \<Longrightarrow>
     registry_ok (dm_disk s') \<and> dm_ready s' = dm_ready s"
  by (auto simp: protocol_get_all_disk_info_def Let_def dest: proto_disks_same intro: registry_ok_set_list
      split: prod.split_asm if_split_asm)

lemma getdisk_info_ok:
  "registry_ok (dm_disk s) \<Longrightarrow> dm_getdisk_info s mem off bsize tr = (r, mem', used, s', tr') \<Longrightarrow>
     registry_ok (dm_disk s') \<and> dm_ready s' = dm_ready s"
  by (auto simp: dm_getdisk_info_def Let_def dest: info_nodes_same intro: registry_ok_set_list
      split: prod.split_asm if_split_asm)

section \<open>Starting\<close>

text \<open>Reading the configuration leaves the list empty.\<close>

abbreviation no_disks :: "disk_info \<Rightarrow> bool" where "no_disks p \<equiv> di_list p = [] \<and> di_disk_num p = 0"

lemma parse_loop_empty:
  assumes "\<And>line p t x t'. no_disks p \<Longrightarrow> body line p t = Some (x, t') \<Longrightarrow> case x of Inl p' \<Rightarrow> no_disks p' | Inr p' \<Rightarrow> no_disks p'"
    and "fgets_loop E fp n body p tr = Some (x, tr')" "no_disks p"
  shows "case x of Inl p' \<Rightarrow> no_disks p' | Inr p' \<Rightarrow> no_disks p'"
  using fgets_loop_inv [where I = no_disks and R = no_disks, OF _ assms(2,3)] assms(1) by blast

lemma major_list_empty:
  assumes "disk_major_list_parse E p tr = Some (r, p', tr')" "no_disks p"
  shows "no_disks p'"
proof -
  obtain a t where c: "do_call E (File (Fopen (str ''/proc/devices''))) tr = (a, t)" by fastforce
  define body where "body = (\<lambda>line (pdisk :: disk_info) tr. case scan_major line of None \<Rightarrow> Some (Inr pdisk, tr)
    | Some (ma, ptname) \<Rightarrow>
      if ptname \<noteq> str ''sd'' \<and> ptname \<noteq> str ''mmc'' then Some (Inr pdisk, tr)
      else let (a', tr) = do_call E (Sys (Calloc 76)) tr in
        if a_num a' = 0 then Some (Inl pdisk, just_call E (File (Fclose (a_num a))) tr)
        else Some (Inr (pdisk\<lparr>di_major := di_major pdisk @ [\<lparr>mj_major = ma, mj_name = ptname\<rparr>]\<rparr>), tr))"
  have k: "case x of Inl p' \<Rightarrow> no_disks p' | Inr p' \<Rightarrow> no_disks p'" if "fgets_loop E (a_num a) 64 body p t = Some (x, t')" for x t'
    by (rule parse_loop_empty [OF _ that assms(2)]) (auto simp: body_def split: option.splits prod.splits if_splits)
  show ?thesis
  proof (cases "a_num a = 0")
    case True
    then show ?thesis using assms c by (simp add: disk_major_list_parse_def)
  next
    case False
    then have "fgets_loop E (a_num a) 64 body p t \<bind> (\<lambda>(x, tr). case x of Inl pdisk \<Rightarrow> Some (DISK_FAILURE, pdisk, tr)
        | Inr pdisk \<Rightarrow> Some (DISK_SUCCESS, pdisk, just_call E (File (Fclose (a_num a))) tr)) = Some (r, p', tr')"
      using assms(1) c unfolding disk_major_list_parse_def body_def by (simp add: Let_def split: if_split_asm)
    then obtain x t' where x: "fgets_loop E (a_num a) 64 body p t = Some (x, t')"
      and y: "(case x of Inl pdisk \<Rightarrow> Some (DISK_FAILURE, pdisk, t')
        | Inr pdisk \<Rightarrow> Some (DISK_SUCCESS, pdisk, just_call E (File (Fclose (a_num a))) t')) = Some (r, p', tr')"
      by (cases "fgets_loop E (a_num a) 64 body p t") auto
    show ?thesis using k [OF x] y by (cases x) auto
  qed
qed

lemma parameter_line_empty:
  "no_disks p \<Longrightarrow> parameter_line E line p t = (x, t') \<Longrightarrow> case x of Inl p' \<Rightarrow> no_disks p' | Inr p' \<Rightarrow> no_disks p'"
  by (auto simp: parameter_line_def Let_def split: option.splits prod.splits if_splits)

lemma disktag_line_empty:
  "no_disks p \<Longrightarrow> disktag_line E line p t = (x, t') \<Longrightarrow> case x of Inl p' \<Rightarrow> no_disks p' | Inr p' \<Rightarrow> no_disks p'"
  by (auto simp: disktag_line_def Let_def split: option.splits prod.splits if_splits)

lemma parse_file_empty:
  assumes "\<And>line p t x t'. no_disks p \<Longrightarrow> body line p t = (x, t') \<Longrightarrow> case x of Inl p' \<Rightarrow> no_disks p' | Inr p' \<Rightarrow> no_disks p'"
    and "do { (x, tr) \<leftarrow> fgets_loop E fp n (\<lambda>line p tr. Some (body line p tr)) p tr;
        let tr = just_call E (File (Fclose fp)) tr in
        case x of Inl pdisk \<Rightarrow> Some (DISK_FAILURE, pdisk, tr) | Inr pdisk \<Rightarrow> Some (DISK_SUCCESS, pdisk, tr) } = Some (r, p', tr')"
    and "no_disks p"
  shows "no_disks p'"
proof -
  obtain x t where x: "fgets_loop E fp n (\<lambda>line p tr. Some (body line p tr)) p tr = Some (x, t)"
    and y: "(let tr = just_call E (File (Fclose fp)) t in
      case x of Inl pdisk \<Rightarrow> Some (DISK_FAILURE, pdisk, tr) | Inr pdisk \<Rightarrow> Some (DISK_SUCCESS, pdisk, tr)) = Some (r, p', tr')"
    using assms(2) by (cases "fgets_loop E fp n (\<lambda>line p tr. Some (body line p tr)) p tr") auto
  have "case x of Inl p' \<Rightarrow> no_disks p' | Inr p' \<Rightarrow> no_disks p'"
    by (rule parse_loop_empty [OF _ x assms(3)]) (use assms(1) in simp)
  then show ?thesis using y by (cases x) (auto simp: Let_def)
qed

lemma parameter_parse_empty:
  assumes "disk_mnt_parameter_parse E p tr = Some (r, p', tr')" "no_disks p"
  shows "no_disks p'"
proof -
  obtain a t where c: "do_call E (File (Fopen (str ''/etc/config/mntpara''))) tr = (a, t)" by fastforce
  show ?thesis
  proof (cases "a_num a = 0")
    case False
    show ?thesis
      by (rule parse_file_empty [where body = "parameter_line E", OF parameter_line_empty _ assms(2)])
        (use assms(1) c False in \<open>simp_all add: disk_mnt_parameter_parse_def\<close>)
  qed (use assms c in \<open>simp add: disk_mnt_parameter_parse_def\<close>)
qed

lemma disktag_parse_empty:
  assumes "disk_mnt_disktag_parse E p tr = Some (r, p', tr')" "no_disks p"
  shows "no_disks p'"
proof -
  obtain a t where c: "do_call E (File (Fopen (str ''/etc/init.d/disktag''))) tr = (a, t)" by fastforce
  show ?thesis
  proof (cases "a_num a = 0")
    case False
    show ?thesis
      by (rule parse_file_empty [where body = "disktag_line E", OF disktag_line_empty _ assms(2)])
        (use assms(1) c False in \<open>simp_all add: disk_mnt_disktag_parse_def\<close>)
  qed (use assms c in \<open>simp add: disk_mnt_disktag_parse_def\<close>)
qed

lemma no_disks_ok: "no_disks p \<Longrightarrow> registry_ok p"
  by (simp add: registry_ok_def disks_ok_def)

lemma dm_init_ok:
  assumes "dm_init E s tr = Some (DISK_SUCCESS, s', tr')"
  shows "registry_ok (dm_disk s') \<and> dm_ready s'"
proof -
  obtain prefix t where "disk_preinit E tr = Some (prefix, t)"
    using assms by (auto simp: dm_init_def bind_eq_Some_conv)
  then obtain a t0 h hubs t1 r1 p1 t2 where c: "do_call E (Sys (Calloc 33352)) t = (a, t0)" "a_num a \<noteq> 0"
      "disk_gethub_info E t0 = Some (h, hubs, t1)"
    and p1: "disk_major_list_parse E (disk_info0\<lparr>di_hubs := hubs\<rparr>) t1 = Some (r1, p1, t2)" "r1 \<noteq> DISK_FAILURE"
    and k1: "do {
         (r2, pdisk, tr) \<leftarrow> disk_mnt_parameter_parse E p1 t2;
         if r2 = DISK_FAILURE then Some (DISK_FAILURE, s\<lparr>dm_prefix := prefix, dm_disk := disk_info0\<rparr>, tr)
         else do {
           (r3, pdisk, tr) \<leftarrow> disk_mnt_disktag_parse E pdisk tr;
           if r3 = DISK_FAILURE then Some (DISK_FAILURE, s\<lparr>dm_prefix := prefix, dm_disk := disk_info0\<rparr>, tr)
           else do {
             (r4, s, tr) \<leftarrow> disk_mount_process E None (s\<lparr>dm_prefix := prefix, dm_disk := pdisk\<rparr>) tr;
             if r4 = DISK_FAILURE
             then Some (DISK_FAILURE, s\<lparr>dm_disk := disk_info0\<rparr>, disk_destory E (di_list (dm_disk s)) tr)
             else Some (DISK_SUCCESS, s\<lparr>dm_ready := True\<rparr>, tr)
           }
         }
       } = Some (DISK_SUCCESS, s', tr')"
    using assms by (auto simp: dm_init_def bind_eq_Some_conv Let_def split: prod.splits if_splits)
  have e1: "no_disks p1" using major_list_empty [OF p1(1)] by (simp add: disk_info0_def)
  obtain r2 p2 t3 where p2: "disk_mnt_parameter_parse E p1 t2 = Some (r2, p2, t3)" "r2 \<noteq> DISK_FAILURE"
    using k1 by (auto simp: bind_eq_Some_conv split: if_splits)
  have e2: "no_disks p2" by (rule parameter_parse_empty [OF p2(1) e1])
  obtain r3 p3 t4 where p3: "disk_mnt_disktag_parse E p2 t3 = Some (r3, p3, t4)" "r3 \<noteq> DISK_FAILURE"
    using k1 p2 by (auto simp: bind_eq_Some_conv split: if_splits)
  have "registry_ok (dm_disk (s\<lparr>dm_prefix := prefix, dm_disk := p3\<rparr>))"
    using no_disks_ok disktag_parse_empty [OF p3(1) e2] by simp
  moreover obtain r4 s4 t5 where s4: "disk_mount_process E None (s\<lparr>dm_prefix := prefix, dm_disk := p3\<rparr>) t4 = Some (r4, s4, t5)"
      "s' = s4\<lparr>dm_ready := True\<rparr>"
    using k1 p2 p3 by (auto simp: bind_eq_Some_conv split: if_splits)
  ultimately show ?thesis using mount_process_ok [OF _ s4(1)] by simp
qed

section \<open>Reached states\<close>

definition manager0 :: manager where
  "manager0 = \<lparr>dm_disk = disk_info0, dm_ready = False, dm_plugcount = 0, dm_prefix = [], dm_buf = \<lparr>pb_ptr = 0, pb_mem = []\<rparr>\<rparr>"

text \<open>
  The runs of the manager: it starts, and then performs actions on one disk or on all and answers
  requests, in any order.
\<close>

inductive dm_reach :: "os \<Rightarrow> manager \<Rightarrow> trace \<Rightarrow> bool" for E where
  start: "dm_init E manager0 tr = Some (DISK_SUCCESS, s, tr') \<Longrightarrow> dm_reach E s tr'"
| action: "dm_reach E s tr \<Longrightarrow> dm_aciton_func E act s tr = Some (r, s', tr') \<Longrightarrow> dm_reach E s' tr'"
| all: "dm_reach E s tr \<Longrightarrow> udev_action_func_all E action s tr = Some (r, s', tr') \<Longrightarrow> dm_reach E s' tr'"
| get_all: "dm_reach E s tr \<Longrightarrow> protocol_get_all_disk_info E data s tr = (r, x, s', tr') \<Longrightarrow> dm_reach E s' tr'"
| info: "dm_reach E s tr \<Longrightarrow> dm_getdisk_info s mem off bsize tr = (r, mem', used, s', tr') \<Longrightarrow> dm_reach E s' tr'"

lemma reach_ok: "dm_reach E s tr \<Longrightarrow> registry_ok (dm_disk s) \<and> dm_ready s"
proof (induction rule: dm_reach.induct)
  case (start tr s tr')
  then show ?case by (rule dm_init_ok)
next
  case (action s tr act r s' tr')
  then have "udev_action_func E act s tr = Some (r, s', tr')" by (simp add: dm_aciton_func_def)
  then show ?case using udev_action_ok action.IH by blast
next
  case (all s tr action r s' tr')
  then show ?case using all_action_ok by metis
next
  case (get_all s tr data r x s' tr')
  then show ?case using get_all_ok by metis
next
  case (info s tr mem off bsize r mem' used s' tr')
  then show ?case using getdisk_info_ok by metis
qed

section \<open>Safe removal\<close>

text \<open>The calls that unmount what is mounted of a list of partitions.\<close>

definition umounts :: "disk_partinfo list \<Rightarrow> call list" where
  "umounts ps = map (\<lambda>p. File (Umount (pt_mntpoint p) True)) (filter (\<lambda>p. pt_mounted p = 1) ps)"

definition safely_removed :: "disk_maininfo \<Rightarrow> disk_maininfo" where
  "safely_removed d = d\<lparr>mi_partlist := map (\<lambda>p. p\<lparr>pt_mounted := 0\<rparr>) (mi_partlist d), mi_status := DISK_SFREMOVE\<rparr>"

lemma remove_partitions_calls:
  "remove_partitions E DISK_SFREMOVE ps tr = (ps', tr') \<Longrightarrow> calls tr' = calls tr @ umounts ps \<and> faults tr' = faults tr"
  by (induction ps arbitrary: tr ps' tr')
    (auto simp: Let_def umounts_def just_call_eq split: prod.split_asm if_split_asm)

lemma remove_loop_safely:
  assumes "mi_devname d = ua_dev act" "ua_major act = 0xFFFF" "ua_action act = DISK_SFREMOVE" "mi_status d \<noteq> DISK_SFREMOVE"
  shows "ua_dev act \<notin> mi_devname ` set as \<Longrightarrow> \<exists>tr'. remove_loop E act (as @ d # bs) tr = (DISK_SUCCESS, as @ safely_removed d # bs, tr') \<and>
    calls tr' = calls tr @ umounts (mi_partlist d) \<and> faults tr' = faults tr"
proof (induction as)
  case Nil
  obtain ps t where q: "remove_partitions E DISK_SFREMOVE (mi_partlist d) tr = (ps, t)" by fastforce
  then show ?case
    using assms remove_partitions_mounted [OF q] remove_partitions_calls [OF q] by (simp add: safely_removed_def)
next
  case (Cons a as)
  then show ?case by (auto simp: Let_def)
qed

lemma safe_remove:
  assumes "dm_ready s" "registry_ok (dm_disk s)" "d \<in> set (di_list (dm_disk s))"
    and "mi_devname d = ua_dev act" "ua_major act = 0xFFFF" "ua_action act = DISK_SFREMOVE" "mi_status d \<noteq> DISK_SFREMOVE"
  shows "\<exists>s' tr'. dm_aciton_func E act s tr = Some (DISK_SUCCESS, s', tr') \<and>
    di_list (dm_disk s') = map (\<lambda>e. if mi_devname e = ua_dev act then safely_removed e else e) (di_list (dm_disk s)) \<and>
    calls tr' = calls tr @ umounts (mi_partlist d) \<and> faults tr' = faults tr"
proof -
  obtain as bs where l: "di_list (dm_disk s) = as @ d # bs" using assms(3) by (meson split_list)
  have n: "ua_dev act \<notin> mi_devname ` set as" "ua_dev act \<notin> mi_devname ` set bs"
    using assms(2,4) l by (auto simp: registry_ok_def disks_ok_def)
  have m: "map (\<lambda>e. if mi_devname e = ua_dev act then safely_removed e else e) xs = xs" if "ua_dev act \<notin> mi_devname ` set xs" for xs
    using that by (intro map_idI) (metis image_eqI)
  obtain tr' where "remove_loop E act (as @ d # bs) tr = (DISK_SUCCESS, as @ safely_removed d # bs, tr')"
      "calls tr' = calls tr @ umounts (mi_partlist d)" "faults tr' = faults tr"
    using remove_loop_safely [OF assms(4-7) n(1)] by blast
  then show ?thesis using assms(1,4,6) l n m
    by (auto simp: dm_aciton_func_def udev_action_func_def udev_action_func_remove_def set_list_def Let_def)
qed

end
