(* ===== verification/Ustor_Answers.thy ===== *)
theory Ustor_Answers
  imports Ustor_Reach
begin

text \<open>
  What the disk manager answers: its lists of disks, the one it fills in itself and the one that the
  client of the socket makes of its answer; and how it reads mount options and numbers mount points.
\<close>

section \<open>Lists of disks\<close>

lemma grow_answer_all:
  "grow_answer E es mem tr = (True, mem', tr') \<Longrightarrow> snd mem' = snd mem @ concat es"
  by (induction E es mem tr rule: grow_answer.induct) (auto simp: Let_def split: prod.splits if_splits)

lemma grow_answer_grows:
  "can_grow E \<Longrightarrow> \<exists>mem' tr'. grow_answer E es mem tr = (True, mem', tr')"
  by (induction E es mem tr rule: grow_answer.induct) (simp_all add: can_grow_def do_call_eq)

lemma disklist_answer:
  assumes "protocol_disk_disklist E s tr = (DISK_SUCCESS, Some (q, reply), tr')"
  shows "reply = concat (map enc_disklist (map disklist_of (di_list (dm_disk s))))"
  using assms grow_answer_all unfolding protocol_disk_disklist_def
  by (fastforce simp: comp_def split: prod.splits if_splits)

lemma length_field [simp]: "length (field n s) = n"
  by (simp add: field_def zeros_def)

lemma wf_disklist_of [simp]: "wf_disklist (disklist_of d)"
  by (simp add: wf_disklist_def disklist_of_def)

lemma status_disklist_of [simp]: "dl_status (disklist_of d) = word_of_int (mi_status d)"
  by (simp add: disklist_of_def)

lemma cstr_zeros: "0 < n \<Longrightarrow> cstr (s @ zeros n) = cstr s"
  by (cases n; induction s) (auto simp: cstr_def zeros_def)

lemma take_cstr_take: "k \<le> n \<Longrightarrow> take k (cstr (take n s) @ zeros k) = take k (cstr s @ zeros k)"
proof (induction s arbitrary: k n)
  case (Cons b s)
  show ?case
  proof (cases "k = 0 \<or> b = 0")
    case False
    then obtain j m where [simp]: "k = Suc j" "n = Suc m" "j \<le> m" using Cons.prems by (cases k; cases n) auto
    have "zeros (Suc j) = zeros j @ [0]" by (simp add: zeros_def replicate_append_same)
    then have "take j (x @ zeros (Suc j)) = take j (x @ zeros j)" for x by (simp add: zeros_def)
    then show ?thesis using False Cons.IH [of j m] by (simp add: cstr_def)
  qed (cases n, auto simp: cstr_def)
qed simp

lemma plug_node_of: "plug_node (disklist_of d) = \<lparr>pn_dev = strncpy (mi_devname d) 16, pn_seqnum = 0\<rparr>"
proof -
  have "strncpy (field 64 x) 16 = strncpy x 16" for x
    using take_cstr_take [of 16 64 "x @ zeros 64"] cstr_zeros [of 64 x]
    by (simp add: strncpy_def field_def zeros_def)
  then show ?thesis by (simp add: plug_node_def disklist_of_def)
qed

text \<open>The two lists are whole records, one after the other.\<close>

definition mounted_parts :: "disk_maininfo list \<Rightarrow> (disk_maininfo \<times> disk_partinfo) list" where
  "mounted_parts ds = concat (map (\<lambda>d. if mi_status d = sint DISK_MOUNTED
     then map (Pair d) (filter (\<lambda>p. pt_mounted p = 1) (mi_partlist d)) else []) ds)"

abbreviation dirlist_size :: nat where "dirlist_size \<equiv> 5000"

lemma length_enc_dirlist: "length (enc_dirlist prefix d p) = dirlist_size"
  by (simp add: enc_dirlist_def length_put)

lemma dirlist_answer:
  assumes "protocol_disk_dirlist E s tr = (DISK_SUCCESS, Some (q, reply), tr')"
  shows "reply = concat (map (\<lambda>(d, p). enc_dirlist (dm_prefix s) d p) (mounted_parts (di_list (dm_disk s))))"
proof -
  have "concat (map (\<lambda>d. if mi_status d \<noteq> sint DISK_MOUNTED then []
      else map (enc_dirlist (dm_prefix s) d) (filter (\<lambda>p. pt_mounted p = 1) (mi_partlist d))) ds) =
    map (\<lambda>(d, p). enc_dirlist (dm_prefix s) d p) (mounted_parts ds)" for ds
    by (induction ds) (simp_all add: mounted_parts_def comp_def)
  then show ?thesis using assms grow_answer_all unfolding protocol_disk_dirlist_def
    by (fastforce split: prod.splits if_splits)
qed

lemma disklist_decoded:
  assumes "protocol_disk_disklist E s tr = (DISK_SUCCESS, Some (q, reply), tr')"
  defines "ds \<equiv> map disklist_of (di_list (dm_disk s))"
  shows "length reply = disklist_size * length ds \<and> dec_array dec_disklist disklist_size (length ds) reply = ds"
  using disklist_answer [OF assms(1)] disklist_st.length_encs [of ds] disklist_st.dec_array_enc [of ds "[]"]
  by (auto simp: ds_def)

lemma length_concat_records: "\<forall>x\<in>set xs. length (f x) = n \<Longrightarrow> length (concat (map f xs)) = n * length xs"
  by (induction xs) simp_all

lemma peek_concat:
  "\<forall>x\<in>set xs. length (f x) = n \<Longrightarrow> i < length xs \<Longrightarrow> peek (concat (map f xs)) (n * i) n = f (xs ! i)"
proof (induction xs arbitrary: i)
  case (Cons x xs)
  then show ?case by (cases i) (simp_all add: peek_def)
qed simp

text \<open>The list that the manager fills in itself: of the mounted disks those that have room.\<close>

definition lun_node :: "disk_maininfo \<Rightarrow> diskPlugNode" where
  "lun_node d = \<lparr>pn_dev = strncpy (mi_devname d) 16, pn_seqnum = ucast (mi_plugcount d)\<rparr>"

definition lun_shown :: "int \<Rightarrow> disk_maininfo list \<Rightarrow> disk_maininfo list" where
  "lun_shown room ds = take (nat (room div 18)) (filter (\<lambda>d. mi_status d = sint DISK_MOUNTED) ds)"

lemma wf_lun_node: "wf_diskPlugNode (lun_node d)"
  by (simp add: wf_diskPlugNode_def lun_node_def)

lemma lun_nodes_ok:
  assumes "0 \<le> room" "off + 2 + 18 * n + nat room \<le> length mem"
  shows "\<exists>mem'. lun_nodes ds mem off n room tr = (mem', room - 18 * int (length (lun_shown room ds)), tr) \<and>
    length mem' = length mem \<and> get16 mem' off = get16 mem off + of_nat (length (lun_shown room ds)) \<and>
    peek mem' (off + 2) (18 * (n + length (lun_shown room ds))) =
      peek mem (off + 2) (18 * n) @ concat (map (\<lambda>d. enc_diskPlugNode (lun_node d)) (lun_shown room ds))"
  using assms
proof (induction ds arbitrary: mem n room)
  case Nil
  then show ?case by (simp add: lun_shown_def)
next
  case (Cons d ds)
  show ?case
  proof (cases "mi_status d = sint DISK_MOUNTED")
    case False
    then show ?thesis using Cons.IH [OF Cons.prems] by (simp add: lun_shown_def)
  next
    case mounted: True
    show ?thesis
    proof (cases "room < 18")
      case True
      then have "lun_shown room (d # ds) = []" using Cons.prems(1) by (simp add: lun_shown_def)
      then show ?thesis using True mounted by simp
    next
      case False
      define m2 where "m2 = add_node mem off n (enc_diskPlugNode (lun_node d))"
      have ln: "length (enc_diskPlugNode (lun_node d)) = 18" using plug_node.length_enc [OF wf_lun_node] .
      have r: "off + 2 + 18 * n + 18 \<le> length mem" using Cons.prems(2) False by linarith
      note m2 = add_node_keeps [OF r ln, folded m2_def]
      have run: "lun_nodes (d # ds) mem off n room tr = lun_nodes ds m2 off (n + 1) (room - 18) tr"
        using mounted False r ln by (simp add: m2_def add_node_def lun_node_def memcpy_def fault_if_def length_poke Let_def)
      have "room div 18 = (room - 18) div 18 + 1" by linarith
      then have "nat (room div 18) = Suc (nat ((room - 18) div 18))" using False by simp
      then have shown: "lun_shown room (d # ds) = d # lun_shown (room - 18) ds" using mounted by (simp add: lun_shown_def)
      have "0 \<le> room - 18" "off + 2 + 18 * (n + 1) + nat (room - 18) \<le> length m2" using Cons.prems(2) False m2(1) by (simp_all add: nat_diff_distrib)
      from Cons.IH [OF this] obtain mem' where mem': "lun_nodes ds m2 off (n + 1) (room - 18) tr =
          (mem', room - 18 - 18 * int (length (lun_shown (room - 18) ds)), tr)" "length mem' = length m2"
        "get16 mem' off = get16 m2 off + of_nat (length (lun_shown (room - 18) ds))"
        "peek mem' (off + 2) (18 * (n + 1 + length (lun_shown (room - 18) ds))) =
          peek m2 (off + 2) (18 * (n + 1)) @ concat (map (\<lambda>d. enc_diskPlugNode (lun_node d)) (lun_shown (room - 18) ds))" by blast
      show ?thesis using run mem' m2 shown by (intro exI [of _ mem']) (simp add: algebra_simps)
    qed
  qed
qed

lemma getdisk_lun_ok:
  assumes "dm_ready s" "2 \<le> bsize" "bsize < 2 ^ 31" "off + nat bsize \<le> length mem"
  defines "shown \<equiv> lun_shown (bsize - 2) (di_list (dm_disk s))"
  shows "\<exists>mem'. dm_getdisk_lun s mem off bsize tr = (DISK_SUCCESS, mem', Some (2 + 18 * int (length shown)), tr) \<and>
    length mem' = length mem \<and> get16 mem' off = of_nat (length shown) \<and>
    dec_array dec_diskPlugNode 18 (length shown) (drop (off + 2) mem') = map lun_node shown"
proof -
  have b: "bsize mod 2 ^ 32 = bsize" using assms(2,3) by simp
  let ?m = "poke mem off (zeros (nat bsize))"
  have m: "memcpy mem off (zeros (nat bsize)) tr = (?m, tr)" using assms(4) by (simp add: memcpy_def fault_if_def zeros_def)
  have l: "length ?m = length mem" using assms(4) by (simp add: length_poke zeros_def)
  have "peek ?m off 2 = take 2 (zeros (nat bsize))" using assms(2,4) by (simp add: peek_def poke_def zeros_def min_def)
  then have z: "get16 ?m off = 0" using assms(2) get16_peek [of ?m off]
    by (simp add: zeros_def min_def get16_def numeral_2_eq_2)
  have c: "0 \<le> bsize - 2" "off + 2 + 18 * 0 + nat (bsize - 2) \<le> length ?m" using assms(2,4) l by linarith+
  obtain mem' where mem': "lun_nodes (di_list (dm_disk s)) ?m off 0 (bsize - 2) tr = (mem', bsize - 2 - 18 * int (length shown), tr)"
      "length mem' = length ?m" "get16 mem' off = get16 ?m off + of_nat (length shown)"
      "peek mem' (off + 2) (18 * length shown) = concat (map (\<lambda>d. enc_diskPlugNode (lun_node d)) shown)"
    using lun_nodes_ok [OF c, of "di_list (dm_disk s)" tr] unfolding shown_def by (auto simp: peek_def)
  have "dec_array dec_diskPlugNode 18 (length (map lun_node shown)) (drop (off + 2) mem') = map lun_node shown"
    by (rule nodes_decoded) (use mem'(4) wf_lun_node in \<open>auto simp: comp_def\<close>)
  then show ?thesis using assms(1,2) b m mem' l z
    by (intro exI [of _ mem']) (simp add: dm_getdisk_lun_def Let_def fault_if_def)
qed

text \<open>
  The list of the socket's client is the same as the manager's own when all disks are mounted and fit,
  but for the number of plugs, which the client leaves zero.
\<close>

lemma lists_agree:
  assumes "protocol_disk_disklist E1 s t1 = (DISK_SUCCESS, Some (q, reply), t2)"
    and "disk_request E2 MSG_DISK_DISKLIST t3 = (Some (p, enc_ipc_header h @ reply), t4)"
    and "ih_direction h \<noteq> 1" "sint (ih_len h) = int (length reply)"
    and "\<forall>d\<in>set (di_list (dm_disk s)). mi_status d = sint DISK_MOUNTED" "dm_ready s"
    and "n = length (di_list (dm_disk s))" "2 + 18 * int n \<le> bsize" "bsize < 2 ^ 31" "off + nat bsize \<le> length mem"
    and "get16 mem off = 0"
  shows "\<exists>m1 t5 m2. disk_getdisk_lun E2 mem off bsize t3 = Some (DISK_SUCCESS, m1, Some (2 + 18 * int n), t5) \<and>
    dm_getdisk_lun s mem off bsize t = (DISK_SUCCESS, m2, Some (2 + 18 * int n), t) \<and>
    get16 m1 off = of_nat n \<and> get16 m2 off = of_nat n \<and>
    dec_array dec_diskPlugNode 18 n (drop (off + 2) m2) = map lun_node (di_list (dm_disk s)) \<and>
    dec_array dec_diskPlugNode 18 n (drop (off + 2) m1) = map (\<lambda>d. (lun_node d)\<lparr>pn_seqnum := 0\<rparr>) (di_list (dm_disk s))"
proof -
  let ?ds = "di_list (dm_disk s)"
  let ?ls = "map disklist_of ?ds"
  note reply = disklist_answer [OF assms(1)]
  have mounted: "\<forall>d\<in>set ?ls. wf_disklist d \<and> dl_status d = DISK_MOUNTED"
    using assms(5) by simp
  have "length (concat (map enc_disklist ?ls)) = disklist_size * length ?ls"
    using mounted by (intro disklist_st.length_encs) simp
  then have len: "sint (ih_len h) = int (disklist_size * length ?ls)" using assms(4) reply by simp
  obtain m1 t5 where m1: "disk_getdisk_lun E2 mem off bsize t3 = Some (DISK_SUCCESS, m1, Some (2 + 18 * int n), t5)"
      "get16 m1 off = get16 mem off + of_nat n" "dec_array dec_diskPlugNode 18 n (drop (off + 2) m1) = map plug_node ?ls"
    using disk_lun_ok [OF assms(2) [unfolded reply] assms(3) len mounted, of bsize off mem] assms(7,8,10) by auto
  have shown: "lun_shown (bsize - 2) ?ds = ?ds"
  proof -
    have "int n \<le> (bsize - 2) div 18" using assms(8) by linarith
    then have "n \<le> nat ((bsize - 2) div 18)" by linarith
    then show ?thesis using assms(5,7) by (simp add: lun_shown_def)
  qed
  obtain m2 where m2: "dm_getdisk_lun s mem off bsize t = (DISK_SUCCESS, m2, Some (2 + 18 * int n), t)"
      "get16 m2 off = of_nat n" "dec_array dec_diskPlugNode 18 n (drop (off + 2) m2) = map lun_node ?ds"
    using getdisk_lun_ok [OF assms(6) _ assms(9,10), of t] assms(7,8) shown by auto
  have "map plug_node ?ls = map (\<lambda>d. (lun_node d)\<lparr>pn_seqnum := 0\<rparr>) ?ds" by (simp add: plug_node_of lun_node_def)
  then show ?thesis using m1 m2 assms(11) by auto
qed

section \<open>Mount options\<close>

text \<open>A line of options, \<open>key=value\<close> each, with commas between them.\<close>

fun option_line :: "(bytes \<times> bytes) list \<Rightarrow> bytes" where
  "option_line [] = []"
| "option_line [(k, v)] = k @ 61 # v"
| "option_line ((k, v) # x # xs) = k @ 61 # v @ 44 # option_line (x # xs)"

definition known_options :: "bytes set" where
  "known_options = {str ''readahead'', str ''rw'', str ''umask'', str ''iocharset'', str ''shortname'', str ''errors''}"

definition good_option :: "bytes \<times> bytes \<Rightarrow> bool" where
  "good_option x \<longleftrightarrow> fst x \<in> known_options \<and> snd x \<noteq> [] \<and> length (snd x) < 64 \<and> set (snd x) \<inter> {10, 32, 44} = {}"

definition with_option :: "bytes \<times> bytes \<Rightarrow> disk_mnt_para \<Rightarrow> disk_mnt_para" where
  "with_option x p = fst (set_option (fst x) (snd x) p)"

lemma known_key: "k \<in> known_options \<Longrightarrow> k \<noteq> [] \<and> length k < 64 \<and> 61 \<notin> set k \<and> 44 \<notin> set k \<and> (\<forall>v p. snd (set_option k v p))"
  by (auto simp: known_options_def str_def set_option_def)

lemma scan_good_option:
  assumes "good_option (k, v)"
  shows "scan_option (k @ 61 # v) tr = (Some (k, v), tr)"
proof -
  have "takeWhile (\<lambda>b. b \<notin> set [61]) (k @ 61 # v) = k"
    using known_key assms by (auto simp: good_option_def takeWhile_append)
  then have key: "scan_until [61] (k @ 61 # v) = Some (k, 61 # v)" using known_key [of k] assms
    by (simp add: scan_until_def good_option_def Let_def)
  have "takeWhile (\<lambda>b. b \<notin> set [10, 32]) v = v"
    by (rule takeWhile_eq_all_conv [THEN iffD2]) (use assms in \<open>auto simp: good_option_def\<close>)
  then have val: "scan_until [10, 32] v = Some (v, [])" using assms unfolding scan_until_def
    by (simp only: Let_def) (simp add: good_option_def)
  show ?thesis using key val known_key [of k] assms
    by (simp add: scan_option_def into_def fault_if_def good_option_def)
qed

lemma comma_behind:
  assumes "good_option (k, v)"
  shows "strchr 44 (k @ 61 # v) = None" "strchr 44 (k @ 61 # v @ 44 # r) = Some (k @ 61 # v, r)"
proof -
  have n: "44 \<notin> set (k @ 61 # v)" using known_key [of k] assms by (auto simp: good_option_def)
  then show "strchr 44 (k @ 61 # v) = None" by (simp add: strchr_def)
  have "takeWhile (\<lambda>b. b \<noteq> 44) ((k @ 61 # v) @ 44 # r) = k @ 61 # v" "dropWhile (\<lambda>b. b \<noteq> 44) ((k @ 61 # v) @ 44 # r) = 44 # r"
    using n by (simp_all add: takeWhile_append takeWhile_eq_all_conv dropWhile_append dropWhile_eq_Nil_conv)
  then show "strchr 44 (k @ 61 # v @ 44 # r) = Some (k @ 61 # v, r)" by (simp add: strchr_def)
qed

text \<open>Of several options the last is not read: at it there is no comma, and the count is not zero.\<close>

lemma option_loop_counts:
  assumes "\<forall>x\<in>set xs. good_option x" "xs \<noteq> []" "0 < vaild"
  shows "option_loop (option_line xs) vaild p tr = (vaild + length xs - 1, fold with_option (butlast xs) p, tr)"
  using assms
proof (induction xs arbitrary: vaild p rule: option_line.induct)
  case (2 k v)
  then show ?case using comma_behind(1) [of k v] by (subst option_loop.simps) simp
next
  case (3 k v x xs)
  then have g: "good_option (k, v)" by simp
  then have "snd (set_option k v p)" using known_key by (simp add: good_option_def)
  then obtain p' where p': "set_option k v p = (p', True)" by (metis prod.collapse)
  then have w: "with_option (k, v) p = p'" by (simp add: with_option_def)
  have "option_loop (option_line ((k, v) # x # xs)) vaild p tr = option_loop (option_line (x # xs)) (vaild + 1) p' tr"
    using p' by (subst option_loop.simps) (simp add: comma_behind(2) [OF g] scan_good_option [OF g])
  then show ?case using 3 w by simp
qed simp

lemma options_read:
  assumes "\<forall>x\<in>set xs. good_option x" "xs \<noteq> []"
  defines "read \<equiv> if length xs = 1 then xs else butlast xs"
  shows "option_loop (option_line xs) 0 p tr = (length read, fold with_option read p, tr)"
proof -
  obtain k v ys where xs: "xs = (k, v) # ys" using assms(2) by (metis neq_Nil_conv prod.collapse)
  have g: "good_option (k, v)" using assms(1) xs by simp
  then have "snd (set_option k v p)" using known_key by (simp add: good_option_def)
  then obtain p' where p': "set_option k v p = (p', True)" by (metis prod.collapse)
  then have w: "with_option (k, v) p = p'" by (simp add: with_option_def)
  show ?thesis
  proof (cases ys)
    case Nil
    then show ?thesis using xs p' w by (subst option_loop.simps)
      (simp add: comma_behind(1) [OF g] scan_good_option [OF g] read_def)
  next
    case (Cons x zs)
    have "option_loop (option_line xs) 0 p tr = option_loop (option_line ys) 1 p' tr"
      using p' unfolding xs Cons by (subst option_loop.simps) (simp add: comma_behind(2) [OF g] scan_good_option [OF g])
    then show ?thesis using option_loop_counts [of ys 1 p' tr] assms(1) xs Cons w by (simp add: read_def)
  qed
qed

section \<open>Numbers of partitions\<close>

text \<open>The number behind a disk's name is read right up to 9; two digits give another number.\<close>

lemma digit_value: "k < 10 \<Longrightarrow> isdigit (48 + of_nat k) \<and> unat (48 + of_nat k :: u8) - 48 = k"
proof -
  assume "k < 10"
  then have "k \<in> {0,1,2,3,4,5,6,7,8,9}" by auto
  then show ?thesis by (auto simp: isdigit_def)
qed

lemma volume_number_digits:
  assumes "\<not> isdigit (last name)" "name \<noteq> []" "n < 100"
  shows "volume_number (name @ dec_str n) = (if n < 10 then int n else 10 + int (n div 10) + int (n mod 10))"
proof -
  obtain r b where r: "rev name = b # r" "\<not> isdigit b"
    using assms(1,2) by (metis hd_rev list.collapse rev_is_Nil_conv)
  show ?thesis
  proof (cases "n < 10")
    case True
    then have "dec_str n = [48 + of_nat n]" by (subst dec_str.simps) simp
    then show ?thesis using digit_value [OF True] r True by (simp add: volume_number_def)
  next
    case False
    then have "dec_str n = [48 + of_nat (n div 10), 48 + of_nat (n mod 10)]"
      using assms(3) by (subst dec_str.simps, simp, subst dec_str.simps) simp
    then show ?thesis using digit_value [of "n div 10"] digit_value [of "n mod 10"] r False assms(3)
      by (simp add: volume_number_def)
  qed
qed

end
