(* ===== verification/Ustor_Labels.thy ===== *)
theory Ustor_Labels
  imports Ustor_Volume
begin

text \<open>
  What the labels of volumes are: a label in UTF-16 can be read back from the UTF-8 it is stored as, as
  far as it fits, and the label of a FAT volume is that of the first label entry of its root directory.
\<close>

section \<open>UTF-8\<close>

text \<open>A reader of UTF-8, of up to three bytes for a unit.\<close>

fun utf8_read :: "bytes \<Rightarrow> u16 list" where
  "utf8_read [] = []"
| "utf8_read (a # s) =
     (if a AND 0x80 = 0 then ucast a # utf8_read s
      else case s of
        [] \<Rightarrow> []
      | b # s \<Rightarrow>
        if a AND 0x20 = 0 then (push_bit 6 (ucast (a AND 0x1f)) OR ucast (b AND 0x3f)) # utf8_read s
        else case s of
          [] \<Rightarrow> []
        | c # s \<Rightarrow>
            (push_bit 12 (ucast (a AND 0x0f)) OR push_bit 6 (ucast (b AND 0x3f)) OR ucast (c AND 0x3f)) # utf8_read s)"

text \<open>Equality of words bit by bit.\<close>

lemma all8: "(\<forall>n<8. P n) \<longleftrightarrow> P (0::nat) \<and> P 1 \<and> P 2 \<and> P 3 \<and> P 4 \<and> P 5 \<and> P 6 \<and> P 7"
  by (simp add: numeral_eq_Suc All_less_Suc) blast

lemma all16:
  "(\<forall>n<16. P n) \<longleftrightarrow> P (0::nat) \<and> P 1 \<and> P 2 \<and> P 3 \<and> P 4 \<and> P 5 \<and> P 6 \<and> P 7 \<and>
     P 8 \<and> P 9 \<and> P 10 \<and> P 11 \<and> P 12 \<and> P 13 \<and> P 14 \<and> P 15"
  by (simp add: numeral_eq_Suc All_less_Suc) blast

lemma u8_eqI: "\<forall>n<8. bit (x :: u8) n = bit y n \<Longrightarrow> x = y"
  by (rule bit_word_eqI) simp

lemma u16_eqI: "\<forall>n<16. bit (x :: u16) n = bit y n \<Longrightarrow> x = y"
  by (rule bit_word_eqI) simp

lemma bit_small:
  assumes "(c :: u16) < 2 ^ k" "k < 16" "k \<le> n"
  shows "\<not> bit c n"
proof -
  have "unat c < 2 ^ k"
  proof -
    have "(2 :: nat) ^ k < 2 ^ 16" using assms(2) by (intro power_strict_increasing) simp_all
    then have "unat (2 ^ k :: u16) = 2 ^ k" using of_nat_inverse [of "2 ^ k" "2 ^ k :: u16"] by simp
    then show ?thesis using assms(1) by (simp add: word_less_nat_alt)
  qed
  then have "take_bit k (unat c) = unat c" by (rule take_bit_nat_eq_self)
  then have "\<not> bit (unat c) n" using assms(3) by (metis bit_take_bit_iff not_less)
  then show ?thesis by (simp add: bit_unsigned_iff)
qed

lemma one_byte:
  assumes "(c :: u16) < 0x80"
  shows "(ucast c :: u8) AND 0x80 = 0" "ucast (ucast c :: u8) = c"
proof -
  note s [simp] = bit_small [of c 7, simplified, OF assms]
  have "\<forall>n<8. bit ((ucast c :: u8) AND 0x80) n = bit (0 :: u8) n" unfolding all8 by (simp add: bit_simps)
  then show "(ucast c :: u8) AND 0x80 = 0" by (rule u8_eqI)
  have "\<forall>n<16. bit (ucast (ucast c :: u8) :: u16) n = bit c n" unfolding all16 by (simp add: bit_simps)
  then show "ucast (ucast c :: u8) = c" by (rule u16_eqI)
qed

lemma two_bytes:
  assumes "(c :: u16) < 0x800"
  defines "a \<equiv> ucast (0xc0 OR drop_bit 6 c) :: u8" and "b \<equiv> ucast (0x80 OR (c AND 0x3f)) :: u8"
  shows "a AND 0x80 = 0x80" "a AND 0x20 = 0" "push_bit 6 (ucast (a AND 0x1f)) OR ucast (b AND 0x3f) = (c :: u16)"
proof -
  note s [simp] = bit_small [of c 11, simplified, OF assms(1)]
  have "\<forall>n<8. bit (a AND 0x80) n = bit (0x80 :: u8) n" "\<forall>n<8. bit (a AND 0x20) n = bit (0 :: u8) n"
    unfolding all8 a_def by (simp_all add: bit_simps)
  then show "a AND 0x80 = 0x80" "a AND 0x20 = 0" using u8_eqI by blast+
  have "\<forall>n<16. bit (push_bit 6 (ucast (a AND 0x1f)) OR ucast (b AND 0x3f) :: u16) n = bit c n"
    unfolding all16 a_def b_def by (simp add: bit_simps)
  then show "push_bit 6 (ucast (a AND 0x1f)) OR ucast (b AND 0x3f) = c" by (rule u16_eqI)
qed

lemma three_bytes:
  fixes c :: u16
  defines "a \<equiv> ucast (0xe0 OR drop_bit 12 c) :: u8" and "b \<equiv> ucast (0x80 OR (drop_bit 6 c AND 0x3f)) :: u8"
    and "d \<equiv> ucast (0x80 OR (c AND 0x3f)) :: u8"
  shows "a AND 0x80 = 0x80" "a AND 0x20 = 0x20"
    "push_bit 12 (ucast (a AND 0x0f)) OR push_bit 6 (ucast (b AND 0x3f)) OR ucast (d AND 0x3f) = c"
proof -
  have "\<forall>n<8. bit (a AND 0x80) n = bit (0x80 :: u8) n" "\<forall>n<8. bit (a AND 0x20) n = bit (0x20 :: u8) n"
    unfolding all8 a_def by (simp_all add: bit_simps)
  then show "a AND 0x80 = 0x80" "a AND 0x20 = 0x20" using u8_eqI by blast+
  have "\<forall>n<16. bit (push_bit 12 (ucast (a AND 0x0f)) OR push_bit 6 (ucast (b AND 0x3f)) OR ucast (d AND 0x3f) :: u16) n = bit c n"
    unfolding all16 a_def b_def d_def by (simp add: bit_simps)
  then show "push_bit 12 (ucast (a AND 0x0f)) OR push_bit 6 (ucast (b AND 0x3f)) OR ucast (d AND 0x3f) = c" by (rule u16_eqI)
qed

lemma utf8_read_unit: "utf8_read (utf8_unit c @ s) = c # utf8_read s"
  by (simp add: utf8_unit_def one_byte two_bytes three_bytes)

lemma utf8_read_units: "utf8_read (concat (map utf8_unit cs)) = cs"
  by (induction cs) (simp_all add: utf8_read_unit)

text \<open>The units of a label: those before the first zero.\<close>

definition units :: "blkid_enc \<Rightarrow> bytes \<Rightarrow> nat \<Rightarrow> nat \<Rightarrow> u16 list" where
  "units enc src off n = takeWhile (\<lambda>c. c \<noteq> 0) (map (\<lambda>i. utf16_unit enc src (off + 2 * i)) [0..<n div 2])"

text \<open>As many of them as their UTF-8 fits behind what is there.\<close>

fun fitting :: "nat \<Rightarrow> u16 list \<Rightarrow> u16 list" where
  "fitting room [] = []"
| "fitting room (c # cs) = (if length (utf8_unit c) < room then c # fitting (room - length (utf8_unit c)) cs else [])"

lemma units_Suc: "units enc src off (Suc (Suc n)) =
  (let c = utf16_unit enc src off in if c = 0 then [] else c # units enc src (off + 2) n)"
proof -
  have "[0..<Suc (n div 2)] = 0 # map Suc [0..<n div 2]" by (simp add: map_Suc_upt upt_conv_Cons del: upt_Suc)
  then show ?thesis by (simp add: units_def Let_def o_def del: upt_Suc)
qed

lemma encode_fitting:
  "length dest < len \<Longrightarrow> fst (blkid_encode_to_utf8 enc len src off n dest tr) =
     dest @ concat (map utf8_unit (fitting (len - length dest) (units enc src off n)))"
proof (induction enc len src off n dest tr rule: blkid_encode_to_utf8.induct)
  case (1 enc len src off n dest tr)
  define t where "t = fault_if (length src < off + 2) OutOfBounds tr"
  define c where "c = utf16_unit enc src off"
  have u: "units enc src off (Suc (Suc n)) = (if c = 0 then [] else c # units enc src (off + 2) n)"
    by (simp add: units_Suc c_def)
  have step: "blkid_encode_to_utf8 enc len src off (Suc (Suc n)) dest tr =
      (if c = 0 \<or> len \<le> length dest + length (utf8_unit c) then (dest, t)
       else blkid_encode_to_utf8 enc len src (off + 2) n (dest @ utf8_unit c) t)"
    by (simp add: t_def c_def Let_def)
  show ?case
  proof (cases "c = 0 \<or> len \<le> length dest + length (utf8_unit c)")
    case True
    then show ?thesis using 1(2) by (auto simp: u step simp del: blkid_encode_to_utf8.simps)
  next
    case False
    then have "fst (blkid_encode_to_utf8 enc len src (off + 2) n (dest @ utf8_unit c) t) =
        (dest @ utf8_unit c) @ concat (map utf8_unit (fitting (len - length (dest @ utf8_unit c)) (units enc src (off + 2) n)))"
      using 1(1) [OF t_def c_def] by simp
    then show ?thesis using False by (simp add: u step less_diff_conv add.commute del: blkid_encode_to_utf8.simps)
  qed
qed (auto simp: units_def)

lemma fitting_prefix: "\<exists>k. fitting room cs = take k cs"
  by (induction room cs rule: fitting.induct) (metis fitting.simps(1) take_Nil, metis fitting.simps(2) take_0 take_Suc_Cons)

lemma fitting_length: "0 < room \<Longrightarrow> length (concat (map utf8_unit (fitting room cs))) < room"
  by (induction room cs rule: fitting.induct) auto

lemma fitting_all: "length (concat (map utf8_unit cs)) < room \<Longrightarrow> fitting room cs = cs"
  by (induction room cs rule: fitting.induct) auto

lemma length_utf8_units: "length (concat (map utf8_unit cs)) \<le> 3 * length cs"
  by (induction cs) (auto simp: utf8_unit_def)

lemma fitting_units: "3 * (n div 2) < len \<Longrightarrow> fitting len (units enc src off n) = units enc src off n"
proof (rule fitting_all)
  assume "3 * (n div 2) < len"
  moreover have "length (units enc src off n) \<le> n div 2"
    unfolding units_def by (rule order_trans [OF length_takeWhile_le]) simp
  ultimately show "length (concat (map utf8_unit (units enc src off n))) < len"
    using length_utf8_units [of "units enc src off n"] by linarith
qed

section \<open>The label of a FAT volume\<close>

definition root_entry :: "bytes \<Rightarrow> nat \<Rightarrow> nat \<Rightarrow> vfat_dir_entry" where
  "root_entry img off i = dec_dir_entry (peek img (off + 32 * i) 32)"

definition is_label :: "vfat_dir_entry \<Rightarrow> bool" where
  "is_label e \<longleftrightarrow> get8 (de_name e) 0 \<noteq> FAT_ENTRY_FREE \<and> de_cluster_high e = 0 \<and> de_cluster_low e = 0 \<and>
     de_attr e AND FAT_ATTR_MASK \<noteq> FAT_ATTR_LONG_NAME \<and> de_attr e AND (FAT_ATTR_VOLUME_ID OR FAT_ATTR_DIR) = FAT_ATTR_VOLUME_ID"

text \<open>The first label among the \<open>n\<close> entries of the root directory at \<open>off\<close>, before the end of the entries.\<close>

definition fat_root_label :: "bytes \<Rightarrow> nat \<Rightarrow> nat \<Rightarrow> bytes option" where
  "fat_root_label img off n =
     map_option de_name (find is_label (takeWhile (\<lambda>e. get8 (de_name e) 0 \<noteq> 0) (map (root_entry img off) [0..<n])))"

text \<open>The label: that of the root directory, or else that of the boot sector.\<close>

definition fat_label :: "msdos_super_block \<Rightarrow> bytes option \<Rightarrow> bytes" where
  "fat_label ms root = (case root of Some l \<Rightarrow> if l = no_name then ms_label ms else l | None \<Rightarrow> ms_label ms)"

definition without_spaces :: "bytes \<Rightarrow> bytes" where
  "without_spaces l = rev (dropWhile (\<lambda>b. b = 32) (rev l))"

lemma length_without_spaces: "length (without_spaces l) \<le> length l"
  by (simp add: without_spaces_def) (metis length_dropWhile_le length_rev)

lemma dec_dir_entry_32: "dec_dir_entry (take 32 m) = dec_dir_entry m"
  by (simp add: dec_dir_entry_def peek_def get8_def get16_def get32_def min_def drop_take)

lemma search_entries_find:
  "search_entries dir i n = map_option de_name (find is_label (takeWhile (\<lambda>e. get8 (de_name e) 0 \<noteq> 0)
     (map (\<lambda>i. dec_dir_entry (drop (32 * i) dir)) [i..<i + n])))"
proof (induction n arbitrary: i)
  case (Suc n)
  have "[i..<i + Suc n] = i # [i + 1..<i + 1 + n]" by (simp add: upt_conv_Cons)
  then show ?case using Suc [of "i + 1"] by (auto simp: Let_def is_label_def)
qed simp

lemma search_entries_volume:
  assumes "off + 32 * n \<le> length img"
  shows "search_entries (peek img off (32 * n) @ r) 0 n = fat_root_label img off n"
proof -
  have "dec_dir_entry (drop (32 * i) (peek img off (32 * n) @ r)) = root_entry img off i" if "i < n" for i
  proof -
    have "take 32 (drop (32 * i) (peek img off (32 * n) @ r)) = peek img (off + 32 * i) 32"
    proof -
      have "32 * i + 32 \<le> 32 * n" "length (peek img off (32 * n)) = 32 * n" using assms that by simp_all
      then have "take 32 (drop (32 * i) (peek img off (32 * n) @ r)) = take 32 (drop (32 * i) (peek img off (32 * n)))" by simp
      also have "\<dots> = peek img (off + 32 * i) 32" using \<open>32 * i + 32 \<le> 32 * n\<close> by (simp add: peek_def drop_take min_def add.commute)
      finally show ?thesis .
    qed
    then show ?thesis using dec_dir_entry_32 [of "drop (32 * i) (peek img off (32 * n) @ r)"] by (simp add: root_entry_def)
  qed
  then have "map (\<lambda>i. dec_dir_entry (drop (32 * i) (peek img off (32 * n) @ r))) [0..<0 + n] = map (root_entry img off) [0..<n]"
    by simp
  then show ?thesis unfolding search_entries_find fat_root_label_def by (simp only:)
qed

lemma root_label_length: "off + 32 * n \<le> length img \<Longrightarrow> fat_root_label img off n = Some l \<Longrightarrow> length l = 11"
proof -
  assume len: "off + 32 * n \<le> length img" and "fat_root_label img off n = Some l"
  then obtain e where "find is_label (takeWhile (\<lambda>e. get8 (de_name e) 0 \<noteq> 0) (map (root_entry img off) [0..<n])) = Some e" "l = de_name e"
    by (auto simp: fat_root_label_def)
  then have "e \<in> set (map (root_entry img off) [0..<n])" by (metis find_Some_iff nth_mem set_takeWhileD)
  then obtain i where "i < n" "e = root_entry img off i" by auto
  then show "length l = 11" using len \<open>l = de_name e\<close> by (simp add: root_entry_def dec_dir_entry_def)
qed

lemma set_label_stores:
  assumes "length l = 11" "take 11 m = l" "length (pr_label pr) = 64"
  shows "\<exists>pr' tr'. set_label pr m tr = (pr', tr') \<and> pr_uuid pr' = pr_uuid pr \<and> pr_version pr' = pr_version pr \<and>
    (if get8 (without_spaces l) 0 = 0 then pr_label pr' = pr_label pr
     else peek (pr_label pr') 0 11 = without_spaces l @ zeros (11 - length (without_spaces l)))"
proof -
  let ?t = "without_spaces l @ zeros (11 - length (without_spaces l))"
  have t: "length ?t = 11" using length_without_spaces [of l] assms(1) by (simp add: zeros_def)
  have m: "11 \<le> length m" using assms(1,2) by (metis length_take min.cobounded1)
  have p: "poke m 0 ?t = ?t @ drop 11 m" using t by (simp add: poke_def)
  have g: "get8 (?t @ drop 11 m) 0 = get8 (without_spaces l) 0"
    using t by (cases "without_spaces l") (auto simp: get8_def zeros_def nth_append)
  have s: "set_label pr m tr = (if get8 (without_spaces l) 0 = 0 then (pr, tr)
      else let (_, pr, tr) = blkid_probe_set_label pr (?t @ drop 11 m) 11 tr in (pr, tr))"
    using p g by (simp add: set_label_def assms(2) without_spaces_def Let_def)
  show ?thesis
  proof (cases "get8 (without_spaces l) 0 = 0")
    case False
    have "peek (poke (pr_label pr) 0 (take 12 (?t @ drop 11 m @ zeros 12))) 0 11 = ?t"
      using t assms(3) by (simp add: poke_def peek_def zeros_def min_def)
    then show ?thesis using s False by (simp add: blkid_probe_set_label_def)
  qed (use s in simp)
qed

lemma sint_ucast32: "sint (ucast (x :: u32) :: u64) = int (unat x)"
proof -
  have "uint (ucast x :: u64) = uint x" by (simp add: uint_up_ucast is_up)
  moreover have "uint x < 2 ^ 63" using uint_lt2p [of x] by simp
  moreover have "- (2 ^ 63) \<le> uint x" by (rule order_trans [OF _ uint_nonnegative]) simp
  ultimately show ?thesis using signed_take_bit_int_eq_self [of 63 "uint x"] by (simp add: sint_uint)
qed

text \<open>The whole probe of a FAT12 or FAT16 volume.\<close>

lemma probe_fat16:
  assumes "volume E (pr_fd pr) img" "can_grow E" "pb_mem b \<noteq> [] \<longrightarrow> pb_ptr b \<noteq> 0" "length (pr_label pr) = 64"
    and "mg_kboff mag = 0" "512 \<le> length img" "ms = dec_msdos (take 512 img)" "vs = dec_vfat (take 512 img)"
    and "fat_valid_superblock mag ms vs = Some (clusters, fat_size)" "ms_fat_length ms \<noteq> 0"
    and "root = unat ((ucast (ms_reserved ms) + fat_size) * ucast (ms_sector_size ms) :: u32)"
    and "n = unat (vs_dir_entries vs)" "0 < n" "root + 32 * n \<le> length img"
    and "l = fat_label ms (fat_root_label img root n)"
  shows "\<exists>pr' b' tr'. probe_vfat E pr mag b tr = (0, pr', b', tr') \<and> pr_uuid pr' = serno_uuid (ms_serno ms) \<and>
    (if l = no_name \<or> get8 (without_spaces l) 0 = 0 then pr_label pr' = pr_label pr
     else peek (pr_label pr') 0 11 = without_spaces l @ zeros (11 - length (without_spaces l)))"
proof -
  obtain p1 t1 where g1: "blkid_probe_get_buffer E (pr_fd pr) 0 512 b tr =
      (p1, \<lparr>pb_ptr = p1, pb_mem = img_at img 0 512 (max 512 (length (pb_mem b)))\<rparr>, t1)" "p1 \<noteq> 0" "clean tr t1"
    using get_buffer_volume [OF assms(1,2) _ assms(3), where off = 0 and len = 512 and tr = tr] by auto
  let ?sz = "max 512 (length (pb_mem b))"
  let ?b1 = "\<lparr>pb_ptr = p1, pb_mem = img_at img 0 512 ?sz\<rparr>"
  have sz: "length (img_at img 0 512 ?sz) = ?sz" by (rule length_img_at) simp
  obtain t2 where g2: "blkid_probe_get_buffer E (pr_fd pr) 0 512 ?b1 t1 = (p1, ?b1, t2)" "clean t1 t2"
    using get_buffer_volume [OF assms(1,2), where off = 0 and len = 512 and tr = t1 and b = ?b1] g1(2) sz by auto
  have m: "take 512 (pb_mem ?b1) = take 512 img" using assms(6) by (simp add: peek_def img_at_def)
  obtain p3 t3 where g3: "blkid_probe_get_buffer E (pr_fd pr) (int root) (n * 32) ?b1 t2 =
      (p3, \<lparr>pb_ptr = p3, pb_mem = img_at img (int root) (n * 32) (max (n * 32) ?sz)\<rparr>, t3)" "p3 \<noteq> 0" "clean t2 t3"
    using get_buffer_volume [OF assms(1,2), where off = "int root" and len = "n * 32" and tr = t2 and b = ?b1] g1(2) sz assms(13)
    by auto
  have "search_entries (img_at img (int root) (n * 32) (max (n * 32) ?sz)) 0 n = fat_root_label img root n"
    using search_entries_volume [OF assms(14)] by (simp add: mult.commute img_at_def)
  then have srch: "search_fat_label E (pr_fd pr) (ucast ((ucast (ms_reserved ms) + fat_size) * ucast (ms_sector_size ms) :: u32)) n ?b1 t2 =
      (fat_root_label img root n, \<lparr>pb_ptr = p3, pb_mem = img_at img (int root) (n * 32) (max (n * 32) ?sz)\<rparr>, t3)"
    using g3(1,2) by (simp add: search_fat_label_def sint_ucast32 assms(11) [symmetric])
  define v where "v = (case fat_root_label img root n of
      Some l \<Rightarrow> if l = no_name then drop 0x2b (take 512 img) else l | None \<Rightarrow> drop 0x2b (take 512 img))"
  have boot: "take 11 (drop 43 (take 512 img)) = ms_label ms" using assms(7) by (simp add: dec_msdos_def peek_def)
  have v: "take 11 v = l"
    using assms(15) boot root_label_length [OF assms(14)] by (auto simp: v_def fat_label_def split: option.splits)
  have ll: "length l = 11" using assms(6,7,15) root_label_length [OF assms(14)]
    by (auto simp: fat_label_def dec_msdos_def split: option.splits)
  obtain pr' tr' where set: "set_label pr v t3 = (pr', tr')" "pr_uuid pr' = pr_uuid pr" "pr_version pr' = pr_version pr"
      "if get8 (without_spaces l) 0 = 0 then pr_label pr' = pr_label pr
       else peek (pr_label pr') 0 11 = without_spaces l @ zeros (11 - length (without_spaces l))"
    using set_label_stores [OF ll v assms(4)] by blast
  define version where "version = (if clusters < FAT12_MAX then Some (str ''FAT12'')
    else if clusters < FAT16_MAX then Some (str ''FAT16'') else None)"
  have run: "probe_vfat E pr mag b tr =
      (let (pr, tr) = vfat_found pr (Some v) (Some (ms_serno ms)) version t3
       in (0, pr, \<lparr>pb_ptr = p3, pb_mem = img_at img (int root) (n * 32) (max (n * 32) ?sz)\<rparr>, tr))"
    using assms(5,7-10) g1(1,2) g2(1) m srch assms(12)
    by (cases "fat_root_label img root n") (simp_all add: probe_vfat_def at_ptr_def Let_def v_def version_def)
  have ser: "length (serno_uuid s) \<le> 63" for s by (simp add: serno_uuid_def hex2_def str_def)
  show ?thesis
    unfolding run vfat_found_def using set v ser
    by (simp add: blkid_probe_sprintf_uuid_def snprintf_def blkid_probe_set_version_def Let_def split: option.splits)
qed

end
