(* ===== verification/Ustor_Dmruns.thy ===== *)
theory Ustor_Dmruns
  imports Ustor_Runs Ustor_Answers Ustor_Labels
begin

text \<open>
  Concrete runs of the disk manager: a system with one disk, on which the manager is started; a manager
  with a mounted disk; and a FAT volume.
\<close>

section \<open>A system with one disk\<close>

text \<open>The files it can read; each has one line.\<close>

definition file_of :: "bytes \<Rightarrow> bytes option" where
  "file_of name = (if name = str ''/proc/devices'' then Some (str ''  8 sd'')
     else if name = str ''/proc/partitions'' then Some (str ''   8  0  1000 sda'') else None)"

text \<open>A system with one disk that cannot be opened; its files have one line.\<close>
definition one_disk :: os where
  "one_disk tr c =
     (case c of
        File (Fopen _) \<Rightarrow> answer0\<lparr>a_num := 1\<rparr>
      | File (Access _) \<Rightarrow> answer0\<lparr>a_ret := -1\<rparr>
      | File (Open _ _) \<Rightarrow> answer0\<lparr>a_ret := -1\<rparr>
      | File (Stat _) \<Rightarrow> answer0\<lparr>a_ret := -1\<rparr>
      | File (Fgets _ _) \<Rightarrow>
          (case last tr of Did (File (Fopen name)) _ \<Rightarrow>
             (case file_of name of Some line \<Rightarrow> answer0\<lparr>a_num := 1, a_data := line\<rparr> | None \<Rightarrow> answer0)
           | _ \<Rightarrow> answer0)
      | Sys (Calloc _) \<Rightarrow> answer0\<lparr>a_num := 1\<rparr>
      | _ \<Rightarrow> answer0)"

lemma one_disk_simps [simp]:
  "one_disk tr (File (Fopen f)) = answer0\<lparr>a_num := 1\<rparr>" "one_disk tr (File (Access f)) = answer0\<lparr>a_ret := -1\<rparr>"
  "one_disk tr (File (Open f md)) = answer0\<lparr>a_ret := -1\<rparr>" "one_disk tr (File (Stat f)) = answer0\<lparr>a_ret := -1\<rparr>"
  "one_disk tr (Sys (Calloc n)) = answer0\<lparr>a_num := 1\<rparr>" "one_disk tr (File (Readlink f n)) = answer0" "one_disk tr (File (Opendir f)) = answer0"
  "one_disk tr (File (Mknod f w)) = answer0" "one_disk tr (File (Fclose p)) = answer0"
  "one_disk (tr @ [Did (File (Fopen f)) a]) (File (Fgets p n)) = (case file_of f of Some line \<Rightarrow> answer0\<lparr>a_num := 1, a_data := line\<rparr> | None \<Rightarrow> answer0)"
  "one_disk (tr @ [Did (File (Readlink f n)) a]) (File (Fgets p k)) = answer0"
  "one_disk (tr @ [Did (Sys (Calloc n)) a]) (File (Fgets p k)) = answer0"
  by (simp_all add: one_disk_def)

lemma sda_line: "scan_partition (str ''   8  0  1000 sda'') tr = (Some (8, 0, 1000, str ''sda''), tr)" by code_simp
lemma sd_line: "scan_major (str ''  8 sd'') = Some (8, str ''sd'')" by code_simp
lemma sda_kind: "dev_kind \<lparr>mj_major = 8, mj_name = str ''sd''\<rparr> \<lparr>bi_devname = str ''sda'', bi_major = 8, bi_minor = 0, bi_total = n, bi_used = 0\<rparr> tr = (Some (DISK_USB_MAIN, str ''sda''), tr)"
  by code_simp

lemma sda_sg [simp]: "sg_open one_disk d tr = (-1, tr @ [Did (File (Open d (O_RDWR + O_NONBLOCK))) (answer0\<lparr>a_ret := -1\<rparr>)])"
  by (simp add: sg_open_def call_eqs)

definition at_line :: "trace \<Rightarrow> bool" where
  "at_line tr = (case last tr of Did (File (Fopen name)) _ \<Rightarrow> False | _ \<Rightarrow> True)"

lemma at_line_end [simp]: "at_line tr \<Longrightarrow> one_disk tr (File (Fgets p n)) = answer0"
  by (auto simp: one_disk_def at_line_def split: event.splits call.splits file_call.splits)

lemma sda_filled:
  "disk_fill_main_partition_baseinfo one_disk (p\<lparr>di_disktag := []\<rparr>) d tr = (d', tr') \<Longrightarrow> at_line tr' \<and> mi_isgpt d' = 0"
  by (auto simp: disk_fill_main_partition_baseinfo_def probe_ptable_gpt_def open_disk_def Let_def case_prod_beta call_eqs
      at_line_def split: if_splits option.splits)

lemma one_disk_prefix: "disk_preinit one_disk tr = Some (str ''/data'', tr @ [Did (File (Access (str ''/etc/mnt_preffix''))) (answer0\<lparr>a_ret := -1\<rparr>)])"
  by (simp add: disk_preinit_def call_eqs)

lemma one_disk_hubs: "\<exists>t. disk_gethub_info one_disk tr = Some (DISK_FAILURE, [], t)"
  by (simp add: disk_gethub_info_def call_eqs)

lemma file_of_files [simp]: "file_of (str ''/proc/devices'') = Some (str ''  8 sd'')" "file_of (str ''/proc/partitions'') = Some (str ''   8  0  1000 sda'')"
  "file_of (str ''/etc/config/mntpara'') = None" "file_of (str ''/etc/init.d/disktag'') = None" "file_of (str ''/proc/mounts'') = None"
  by code_simp+

lemma lines_cstr [simp]: "cstr (str ''  8 sd'') = str ''  8 sd''" "cstr (str ''   8  0  1000 sda'') = str ''   8  0  1000 sda''"
  by code_simp+

lemma fgets_eof [simp]: "at_line tr \<Longrightarrow> fgets_loop one_disk fp n body s tr = Some (Inr s, tr @ [Did (File (Fgets fp n)) answer0])"
  by (subst fgets_loop.simps) (simp add: call_eqs)

lemma fgets_none [simp]: "file_of f = None \<Longrightarrow> fgets_loop one_disk fp n body s (tr @ [Did (File (Fopen f)) a]) =
    Some (Inr s, tr @ [Did (File (Fopen f)) a, Did (File (Fgets fp n)) answer0])"
  by (subst fgets_loop.simps) (simp add: call_eqs)

lemma fgets_first [simp]: "file_of f \<noteq> None \<Longrightarrow> fgets_loop one_disk fp n body s (tr @ [Did (File (Fopen f)) a]) = do {
     (x, t) \<leftarrow> body (cstr (take (n - 1) (the (file_of f)))) s (tr @ [Did (File (Fopen f)) a,
       Did (File (Fgets fp n)) (answer0\<lparr>a_num := 1, a_data := the (file_of f)\<rparr>)]);
     case x of Inl r \<Rightarrow> Some (Inl r, t) | Inr s \<Rightarrow> fgets_loop one_disk fp n body s t
   }"
  by (subst fgets_loop.simps) (auto simp: call_eqs)

lemma at_line_snoc [simp]: "at_line (tr @ [Did (Sys c) a])" "at_line (tr @ [Did (File (Fgets p n)) a])"
  by (simp_all add: at_line_def)

lemma one_disk_majors: "\<exists>t. disk_major_list_parse one_disk p tr =
    Some (DISK_SUCCESS, p\<lparr>di_major := di_major p @ [\<lparr>mj_major = 8, mj_name = str ''sd''\<rparr>]\<rparr>, t)"
  by (simp add: disk_major_list_parse_def call_eqs Let_def lines_cstr sd_line) (simp add: at_line_def)

lemma one_disk_parameters: "\<exists>t. disk_mnt_parameter_parse one_disk p tr = Some (DISK_SUCCESS, p, t)"
  by (simp add: disk_mnt_parameter_parse_def call_eqs)

lemma one_disk_tags: "\<exists>t. disk_mnt_disktag_parse one_disk p tr = Some (DISK_SUCCESS, p, t)"
  by (simp add: disk_mnt_disktag_parse_def call_eqs)

abbreviation pinfo1 :: disk_baseinfo where "pinfo1 \<equiv> \<lparr>bi_devname = str ''sda'', bi_major = 8, bi_minor = 0, bi_total = 1024000, bi_used = 0\<rparr>"

definition disk0 :: disk_info where
  "disk0 = disk_info0\<lparr>di_hubs := [], di_major := [\<lparr>mj_major = 8, mj_name = str ''sd''\<rparr>]\<rparr>"

text \<open>The disk when it is new and when it is confirmed.\<close>

definition fresh_sda :: "disk_maininfo \<Rightarrow> bool" where "fresh_sda d \<longleftrightarrow> new_disk (str ''sda'') d \<and> mi_isgpt d = 0"

definition unknown_sda :: "disk_maininfo \<Rightarrow> bool" where
  "unknown_sda d \<longleftrightarrow> mi_devname d = str ''sda'' \<and> mi_isgpt d = 0 \<and> (\<exists>p. mi_partlist d = [p] \<and> pt_fstype p = str ''unknown'')"

lemma sda_inserted:
  assumes "dm_disk s = disk0"
  shows "\<exists>s' t d. disk_insert_partition_list one_disk pinfo1 s tr = Some (DISK_SUCCESS, s', t) \<and> at_line t \<and>
    di_list (dm_disk s') = [d] \<and> fresh_sda d"
proof -
  have p: "disk0 = disk0\<lparr>di_disktag := []\<rparr>" by (simp add: disk0_def disk_info0_def)
  define d where "d = maininfo0\<lparr>mi_info := pinfo1, mi_plugcount := dm_plugcount s, mi_type := str ''USB''\<rparr>"
  obtain d' t' where f: "disk_fill_main_partition_baseinfo one_disk disk0 d
      (make_node one_disk (sprintf_dev (str ''sda'')) 8 0 (into 64 (sprintf_dev (str ''sda'')) tr) @
        [Did (Sys (Calloc maininfo_size)) (answer0\<lparr>a_num := 1\<rparr>)]) = (d', t')" by fastforce
  have "at_line t'" "mi_isgpt d' = 0" using sda_filled [of disk0 d] f p by metis+
  moreover have "new_disk (str ''sda'') d" by (simp add: new_disk_def d_def maininfo0_def)
  then have "new_disk (str ''sda'') d'" using fill_new_disk f by blast
  moreover have "di_list disk0 = []" "di_major disk0 = [\<lparr>mj_major = 8, mj_name = str ''sd''\<rparr>]" by (simp_all add: disk0_def disk_info0_def)
  ultimately show ?thesis using f assms
    by (simp add: disk_insert_partition_list_def disk_search_major_list_def sda_kind disk_search_partition_list_def insert_main_def
        call_eqs d_def [symmetric] add_disk_def fresh_sda_def)
qed

lemma sda_scanned:
  assumes "dm_disk s = disk0"
  shows "\<exists>s' t d. disk_mnt1_loop_partition one_disk None s tr = Some (DISK_SUCCESS, s', t) \<and> di_list (dm_disk s') = [d] \<and> fresh_sda d"
proof -
  let ?t = "tr @ [Did (File (Fopen (str ''/proc/partitions''))) (answer0\<lparr>a_num := 1\<rparr>),
      Did (File (Fgets 1 512)) (answer0\<lparr>a_num := 1, a_data := str ''   8  0  1000 sda''\<rparr>)]"
  obtain s' t d where "disk_insert_partition_list one_disk pinfo1 s ?t = Some (DISK_SUCCESS, s', t)" "at_line t"
    "di_list (dm_disk s') = [d]" "fresh_sda d"
    using sda_inserted [OF assms, of ?t] by (elim exE conjE)
  moreover have "disk_search_major_list (di_major (dm_disk s)) 8 = Some \<lparr>mj_major = 8, mj_name = str ''sd''\<rparr>"
    using assms by (simp add: disk0_def disk_search_major_list_def)
  ultimately show ?thesis
    by (simp add: disk_mnt1_loop_partition_def call_eqs scan_line_def sda_line)
qed

lemma sda_probed: "\<exists>b' t. probe_partition one_disk p b tr = Some (p\<lparr>pt_fstype := str ''unknown''\<rparr>, b', t)"
  by (simp add: probe_partition_def probe_block_def call_eqs probe0_def Let_def)

lemma sda_confirmed:
  assumes "fresh_sda d"
  shows "\<exists>d' b' t. confirm_loop one_disk None [d] b tr = Some (DISK_SUCCESS, [d'], b', t) \<and> unknown_sda d'"
proof -
  obtain b' t where "probe_partition one_disk (partinfo0\<lparr>pt_info := mi_info d\<rparr>) b
      (tr @ [Did (Sys (Calloc partinfo_size)) (answer0\<lparr>a_num := 1\<rparr>)]) =
    Some ((partinfo0\<lparr>pt_info := mi_info d\<rparr>)\<lparr>pt_fstype := str ''unknown''\<rparr>, b', t)" using sda_probed by blast
  then show ?thesis using assms by (simp add: chosen_def confirm_disk_def call_eqs fresh_sda_def new_disk_def unknown_sda_def)
qed

lemma mount_point_fstype [simp]: "pt_fstype (fst (generate_mount_point E prefix tag display p tr)) = pt_fstype p"
  by (simp add: generate_mount_point_def Let_def case_prod_beta)

lemma sda_not_mounted: "\<exists>t. find_mount_point one_disk block tr = Some (False, t)"
  by (simp add: find_mount_point_def call_eqs)

lemma sda_not_automounted: "\<exists>n p' t. automount_partition one_disk prefix plist d p tr = Some (n, p', t)" if "mi_isgpt d \<noteq> 1" "pt_fstype p = str ''unknown''"
proof -
  let ?dev = "sprintf_dev (pt_devname p)"
  obtain t where f: "find_mount_point one_disk ?dev (into 64 ?dev tr) = Some (False, t)" using sda_not_mounted by blast
  obtain q t' where g: "generate_mount_point one_disk prefix (mi_disktag d) (mi_display d) p t = (q, t')" by fastforce
  then have "pt_fstype q = str ''unknown''" using mount_point_fstype [of one_disk prefix "mi_disktag d" "mi_display d" p t] that by simp
  then show ?thesis using f g that by (simp add: automount_partition_def Let_def)
qed

lemma sda_automounted:
  assumes "unknown_sda d"
  shows "\<exists>d' t. automount_loop one_disk prefix plist None [d] tr = Some (2, [d'], t) \<and> mi_devname d' = str ''sda''"
proof -
  obtain p where p: "mi_partlist d = [p]" "pt_fstype p = str ''unknown''" "mi_isgpt d \<noteq> 1" "mi_devname d = str ''sda''"
    using assms by (auto simp: unknown_sda_def)
  obtain n p' t where "automount_partition one_disk prefix plist d p tr = Some (n, p', t)" using sda_not_automounted [OF p(3,2)] by blast
  then show ?thesis using p by (simp add: chosen_def automount_disk_def)
qed

lemma sda_mount_processed:
  assumes "dm_disk s = disk0"
  shows "\<exists>s' t. disk_mount_process one_disk None s tr = Some (2, s', t) \<and> map mi_devname (di_list (dm_disk s')) = [str ''sda'']"
proof -
  obtain s1 t1 d where 1: "disk_mnt1_loop_partition one_disk None s tr = Some (DISK_SUCCESS, s1, t1)" "di_list (dm_disk s1) = [d]" "fresh_sda d"
    using sda_scanned [OF assms] by blast
  obtain d' b t2 where 2: "confirm_loop one_disk None [d] (dm_buf s1) t1 = Some (DISK_SUCCESS, [d'], b, t2)" "unknown_sda d'"
    using sda_confirmed [OF 1(3)] by blast
  obtain e t3 where "automount_loop one_disk (dm_prefix s1) (di_parameter (dm_disk s1)) None [d'] t2 = Some (2, [e], t3)" "mi_devname e = str ''sda''"
    using sda_automounted [OF 2(2)] by blast
  then show ?thesis using 1 2
    by (simp add: disk_mount_process_def disk_mnt2_confirm_partition_info_def disk_mnt3_automount_partition_def set_list_def)
qed

lemma one_disk_starts:
  "\<exists>s tr. dm_init one_disk manager0 [] = Some (DISK_SUCCESS, s, tr) \<and> map mi_devname (di_list (dm_disk s)) = [str ''sda'']"
proof -
  let ?t = "[Did (File (Access (str ''/etc/mnt_preffix''))) (answer0\<lparr>a_ret := -1\<rparr>), Did (Sys (Calloc 33352)) (answer0\<lparr>a_num := 1\<rparr>)]"
  obtain t1 where 1: "disk_gethub_info one_disk ?t = Some (DISK_FAILURE, [], t1)" using one_disk_hubs by blast
  let ?p = "disk_info0\<lparr>di_hubs := [], di_major := di_major (disk_info0\<lparr>di_hubs := []\<rparr>) @ [\<lparr>mj_major = 8, mj_name = str ''sd''\<rparr>]\<rparr>"
  obtain t2 where 2: "disk_major_list_parse one_disk (disk_info0\<lparr>di_hubs := []\<rparr>) t1 = Some (DISK_SUCCESS, ?p, t2)" using one_disk_majors by blast
  obtain t3 where 3: "disk_mnt_parameter_parse one_disk ?p t2 = Some (DISK_SUCCESS, ?p, t3)" using one_disk_parameters by blast
  obtain t4 where 4: "disk_mnt_disktag_parse one_disk ?p t3 = Some (DISK_SUCCESS, ?p, t4)" using one_disk_tags by blast
  have "dm_disk (manager0\<lparr>dm_prefix := str ''/data'', dm_disk := ?p\<rparr>) = disk0" by (simp add: disk0_def disk_info0_def)
  from sda_mount_processed [OF this, of t4] obtain s' t5 where
    "disk_mount_process one_disk None (manager0\<lparr>dm_prefix := str ''/data'', dm_disk := ?p\<rparr>) t4 = Some (2, s', t5)"
    "map mi_devname (di_list (dm_disk s')) = [str ''sda'']" by (elim exE conjE)
  then show ?thesis using 1 2 3 4 by (simp add: dm_init_def one_disk_prefix call_eqs)
qed

section \<open>A manager with a mounted disk\<close>

definition mounted1 :: disk_maininfo where
  "mounted1 = maininfo0\<lparr>mi_info := baseinfo0\<lparr>bi_devname := str ''sda''\<rparr>, mi_plugcount := 3, mi_partnum := 1, mi_status := sint DISK_MOUNTED,
     mi_partlist := [partinfo0\<lparr>pt_info := baseinfo0\<lparr>bi_devname := str ''sda1''\<rparr>, pt_mounted := 1, pt_mntpoint := str ''/data/UsbDisk1''\<rparr>]\<rparr>"

definition manager1 :: manager where
  "manager1 = manager0\<lparr>dm_ready := True, dm_disk := disk_info0\<lparr>di_list := [mounted1], di_disk_num := 1\<rparr>\<rparr>"

lemma manager1_simps: "di_list (dm_disk manager1) = [mounted1]" "dm_ready manager1" "registry_ok (dm_disk manager1)"
  "mi_status mounted1 = sint DISK_MOUNTED" "mi_devname mounted1 = str ''sda''"
  "umounts (mi_partlist mounted1) = [File (Umount (str ''/data/UsbDisk1'') True)]"
  by (simp_all add: manager1_def mounted1_def manager0_def disk_info0_def registry_ok_def disks_ok_def disk_ok_def umounts_def
      maininfo0_def partinfo0_def baseinfo0_def)

lemma manager1_answer:
  "\<exists>q tr. protocol_disk_disklist (serving [] []) manager1 [] = (DISK_SUCCESS, Some (q, enc_disklist (disklist_of mounted1)), tr)"
  by (simp add: protocol_disk_disklist_def manager1_simps eval_call Let_def)

section \<open>A FAT volume\<close>

text \<open>A FAT12 volume of 13 sectors with a root directory of 16 entries, the first of them the label.\<close>

definition fat_boot :: bytes where
  "fat_boot = [0xEB, 0x3C, 0x90] @ str ''mkfs.fat'' @ [0, 2, 1, 1, 0, 1, 16, 0, 13, 0, 0xF8, 1, 0, 0, 0, 0, 0] @ zeros 8 @
     [0, 0, 0, 0x78, 0x56, 0x34, 0x12] @ str ''NO NAME    FAT12   '' @ zeros 448 @ [0x55, 0xAA]"

definition fat_image :: bytes where
  "fat_image = fat_boot @ zeros 512 @ str ''USBSTICK   '' @ [8] @ zeros 500"

lemma length_fat_boot: "length fat_boot = 512"
  by (simp add: fat_boot_def str_def zeros_def)

lemma boot_eval: "dec_msdos fat_boot = \<lparr>ms_sysid = str ''mkfs.fat'', ms_sector_size = 512, ms_cluster_size = 1, ms_reserved = 1, ms_fats = 1,
   ms_dir_entries = 16, ms_sectors = 13, ms_media = 0xF8, ms_fat_length = 1, ms_secs_track = 0, ms_heads = 0, ms_hidden = 0,
   ms_total_sect = 0, ms_serno = [0x78, 0x56, 0x34, 0x12], ms_label = str ''NO NAME    '', ms_magic = str ''FAT12   '', ms_pmagic = [0x55, 0xAA]\<rparr>"
  by code_simp

lemma fat_image_boot: "take 512 fat_image = fat_boot" "length fat_image = 1536"
  by (simp_all add: fat_image_def length_fat_boot zeros_def str_def)

lemma fat_image_root: "peek fat_image 1024 32 = str ''USBSTICK   '' @ [8] @ zeros 20"
  by (simp add: fat_image_def peek_def length_fat_boot zeros_def str_def)

lemma fat_image_label: "fat_root_label fat_image 1024 16 = Some (str ''USBSTICK   '')"
proof -
  have e: "dec_dir_entry (str ''USBSTICK   '' @ [8] @ zeros 20) = \<lparr>de_name = str ''USBSTICK   '', de_attr = 8, de_cluster_high = 0, de_cluster_low = 0, de_size = 0\<rparr>"
    by code_simp
  have "root_entry fat_image 1024 0 = \<lparr>de_name = str ''USBSTICK   '', de_attr = 8, de_cluster_high = 0, de_cluster_low = 0, de_size = 0\<rparr>"
    using e by (simp add: root_entry_def fat_image_root)
  moreover have "[0..<16] = 0 # [1..<16]" by (simp add: upt_conv_Cons)
  ultimately show ?thesis by (simp add: fat_root_label_def is_label_def get8_def str_def del: upt_Suc)
qed

lemma fat_boot_valid: "fat_valid_superblock \<lparr>mg_magic = str ''FAT12   '', mg_kboff = 0, mg_sboff = 54\<rparr> (dec_msdos fat_boot) (dec_vfat fat_boot) = Some (10, 1)"
  by (simp add: fat_valid_superblock_def boot_eval is_power_of_2_def str_def Let_def)

text \<open>A block device with the content \<open>img\<close>.\<close>

definition block_of :: "bytes \<Rightarrow> os" where
  "block_of img = (\<lambda>tr c. case c of
     File (Read fd n) \<Rightarrow>
       (case last tr of Did (File (Lseek _ off)) _ \<Rightarrow> answer0\<lparr>a_data := peek img (nat off) n\<rparr> | _ \<Rightarrow> answer0)
   | Sys (Realloc p n) \<Rightarrow> answer0\<lparr>a_num := 1\<rparr>
   | _ \<Rightarrow> answer0)"

lemma block_of_volume: "volume (block_of img) fd img" "can_grow (block_of img)"
  by (simp_all add: volume_def can_grow_def block_of_def Let_def peek_def)

end
