(* ===== verification/Ustor_Comlib.thy ===== *)
theory Ustor_Comlib
  imports Ustor_Clib Ustor_Daemon
begin

text \<open>
  comlib.c: running a command, and searching and copying strings. \<open>parse_mac\<close> is not modelled. Strings are
  byte lists without their NUL.
\<close>

section \<open>Running a command\<close>

text \<open>
  The words between the spaces; of several spaces one separates. \<open>first\<close> is set before the first space: a
  space there makes the code look at the byte before the array.
\<close>

function split_args :: "bool \<Rightarrow> bytes \<Rightarrow> trace \<Rightarrow> bytes list \<times> trace" where
  "split_args first param tr =
     (case strchr 32 param of
        None \<Rightarrow> ([param], tr)
      | Some (w, rest) \<Rightarrow>
          let tr = fault_if (first \<and> w = []) OutOfBounds tr; (args, tr) = split_args False rest tr
          in (if w = [] then args else w # args, tr))"
  by pat_completeness auto
termination by (relation "measure (\<lambda>(first, param, tr). length param)") (auto dest: strchr_rest)

declare split_args.simps [simp del]

text \<open>\<open>Inr\<close> is a process that has become the command.\<close>

definition exe_default :: "os \<Rightarrow> bytes \<Rightarrow> trace \<Rightarrow> (int \<times> trace) + (int \<times> trace)" where
  "exe_default E cmdline tr =
     (let tr = fault_if (1024 \<le> length cmdline) OutOfBounds tr;
          (argv, tr) = split_args True (take 1024 cmdline) tr;
          (r, tr) = ret_call E (Sys (Execvp argv)) tr
      in if r = -1 then exit_with E (-1) tr else Inr (0, tr))"

text \<open>The parent looks for the end of the child, 100 ms apart, and kills it after \<open>left\<close> more times.\<close>

fun wait_child :: "os \<Rightarrow> int \<Rightarrow> nat \<Rightarrow> trace \<Rightarrow> int \<times> trace" where
  "wait_child E pid left tr =
     (let (wpid, tr) = ret_call E (Sys (WaitPid pid)) tr in
      if wpid \<noteq> 0 then (0, tr)
      else case left of
        0 \<Rightarrow>
          let tr = just_call E (Sys (Kill pid)) tr; tr = just_call E (Sys (Usleep 100000)) tr
          in (-1, just_call E (Sys (WaitPid pid)) tr)
      | Suc n \<Rightarrow> wait_child E pid n (just_call E (Sys (Usleep 100000)) tr))"

declare wait_child.simps [simp del]

text \<open>
  \<open>exec_cmd\<close> of the formatted text: one that ends in an ampersand, with a character before it that is cut off as
  well, is not waited for.
\<close>

definition exec_cmd :: "os \<Rightarrow> bytes \<Rightarrow> trace \<Rightarrow> (int \<times> trace) + (int \<times> trace)" where
  "exec_cmd E cmdbuf tr =
     (let tr = into 1024 cmdbuf tr; tr = fault_if (cmdbuf = []) OutOfBounds tr;
          flag = (cmdbuf \<noteq> [] \<and> last cmdbuf = 38);
          tr = fault_if (flag \<and> length cmdbuf < 2) OutOfBounds tr;
          tmp = (if flag then take (length cmdbuf - 2) cmdbuf else take 1023 cmdbuf);
          (pid, tr) = ret_call E (Sys Fork) tr
      in if pid < 0 then Inr (0, tr)
         else if pid = 0 then
           exe_default E tmp (fold (\<lambda>i. just_call E (File (CloseFd (int i)))) [3..<256] tr)
         else if flag then Inr (0, tr)
         else Inr (wait_child E pid 600 tr))"

section \<open>Strings\<close>

text \<open>The place of \<open>key\<close> in the \<open>len\<close> bytes at \<open>i\<close>, which are there; the first also stops at a NUL or the byte \<open>fin\<close>.\<close>

fun strstr_end :: "bytes \<Rightarrow> u8 \<Rightarrow> nat \<Rightarrow> bytes \<Rightarrow> nat \<Rightarrow> nat option" where
  "strstr_end src fin i key len =
     (if length key \<le> len then
        if get8 src i = 0 \<or> get8 src i = fin then None
        else if peek src i (length key) = key then Some i
        else case len of 0 \<Rightarrow> None | Suc n \<Rightarrow> strstr_end src fin (i + 1) key n
      else None)"

fun strstr_none :: "bytes \<Rightarrow> nat \<Rightarrow> bytes \<Rightarrow> nat \<Rightarrow> nat option" where
  "strstr_none src i key len =
     (if length key \<le> len then
        if peek src i (length key) = key then Some i
        else case len of 0 \<Rightarrow> None | Suc n \<Rightarrow> strstr_none src (i + 1) key n
      else None)"

declare strstr_end.simps [simp del] strstr_none.simps [simp del]

text \<open>What \<open>__arr_strcpy_end\<close> copies; the byte behind the \<open>len\<close> is read before the count is compared.\<close>

fun arr_strcpy_end :: "u8 \<Rightarrow> bytes \<Rightarrow> nat \<Rightarrow> trace \<Rightarrow> bytes \<times> trace" where
  "arr_strcpy_end fin [] len tr = ([], fault_if True OutOfBounds tr)"
| "arr_strcpy_end fin (b # src) len tr =
     (if b = 0 \<or> len = 0 \<or> b = fin then ([], tr)
      else let (w, tr) = arr_strcpy_end fin src (len - 1) tr in (b # w, tr))"

section \<open>What they do\<close>

text \<open>A command line, its words with a space between them.\<close>

fun command_line :: "bytes list \<Rightarrow> bytes" where
  "command_line [] = []"
| "command_line [w] = w"
| "command_line (w # ws) = w @ 32 # command_line ws"

lemma strchr_word: "c \<notin> set w \<Longrightarrow> strchr c w = None" "c \<notin> set w \<Longrightarrow> strchr c (w @ c # r) = Some (w, r)"
  by (auto simp: strchr_def takeWhile_append dropWhile_append takeWhile_eq_all_conv dropWhile_eq_Nil_conv)

lemma split_args_words:
  assumes "ws \<noteq> []" "\<forall>w\<in>set ws. w \<noteq> [] \<and> 32 \<notin> set w"
  shows "split_args first (command_line ws) tr = (ws, tr)"
  using assms
proof (induction ws arbitrary: first rule: command_line.induct)
  case (2 w)
  then show ?case by (subst split_args.simps) (simp add: strchr_word)
next
  case (3 w v vs)
  then show ?case by (subst split_args.simps) (simp add: strchr_word fault_if_def)
qed simp

text \<open>The parent polls at most \<open>left + 1\<close> times before it kills the child.\<close>

lemma wait_child_polls:
  "wait_child E pid left tr = (r, tr') \<Longrightarrow> length (calls tr') \<le> length (calls tr) + 2 * left + 4 \<and> r \<in> {0, -1}"
proof (induction left arbitrary: tr)
  case 0
  then show ?case by (subst (asm) wait_child.simps) (auto simp: ret_call_def do_call_eq just_call_eq Let_def split: if_splits)
next
  case (Suc n)
  show ?case
  proof (cases "a_ret (E tr (Sys (WaitPid pid))) = 0")
    case True
    then have "wait_child E pid n (just_call E (Sys (Usleep 100000)) (tr @ [Did (Sys (WaitPid pid)) (E tr (Sys (WaitPid pid)))])) = (r, tr')"
      using Suc.prems by (subst (asm) wait_child.simps) (simp add: ret_call_def do_call_eq Let_def)
    from Suc.IH [OF this] show ?thesis by (simp add: just_call_eq)
  next
    case False
    then show ?thesis using Suc.prems by (subst (asm) wait_child.simps) (auto simp: ret_call_def do_call_eq Let_def)
  qed
qed

lemma strstr_none_first:
  "strstr_none src i key len = find (\<lambda>j. peek src j (length key) = key) [i..<i + (len + 1 - length key)]"
proof (induction len arbitrary: i)
  case 0
  then show ?case by (subst strstr_none.simps, cases key) (auto simp: upt_conv_Cons)
next
  case (Suc n)
  show ?case
  proof (cases "length key \<le> Suc n")
    case True
    have "i + (Suc n + 1 - length key) = i + 1 + (n + 1 - length key)" using True by (simp add: Suc_diff_le)
    then have e: "[i..<i + (Suc n + 1 - length key)] = i # [i + 1..<i + 1 + (n + 1 - length key)]"
      using upt_conv_Cons [of i "i + 1 + (n + 1 - length key)"] by (simp del: upt_Suc)
    show ?thesis unfolding e using True Suc [of "i + 1"] by (subst strstr_none.simps) (simp del: upt_Suc)
  qed (subst strstr_none.simps, simp)
qed

lemma arr_strcpy_end_takeWhile:
  "len < length src \<Longrightarrow> arr_strcpy_end fin src len tr = (takeWhile (\<lambda>b. b \<noteq> 0 \<and> b \<noteq> fin) (take len src), tr)"
proof (induction fin src len tr rule: arr_strcpy_end.induct)
  case (2 fin b src len tr)
  then show ?case by (cases len) auto
qed simp

end
