(* ===== verification/Ustor_Ring.thy ===== *)
theory Ustor_Ring
  imports Ustor_Env
begin

text \<open>
  list.h: the doubly linked lists that the disk manager keeps its disks, partitions and configuration in.
  A list is a ring of nodes in the heap with a head that is not an element. The model of the manager
  uses lists; here the operations of list.h are shown to do on the ring what the model does on its list.
\<close>

section \<open>Nodes\<close>

record list_head =
  lh_next :: ptr
  lh_prev :: ptr

text \<open>The nodes by their address. An access to an address without a node is \<open>None\<close>.\<close>

type_synonym nodes = "ptr \<rightharpoonup> list_head"

definition get_next :: "ptr \<Rightarrow> nodes \<Rightarrow> ptr option" where "get_next p h = map_option lh_next (h p)"
definition get_prev :: "ptr \<Rightarrow> nodes \<Rightarrow> ptr option" where "get_prev p h = map_option lh_prev (h p)"

definition set_next :: "ptr \<Rightarrow> ptr \<Rightarrow> nodes \<Rightarrow> nodes option" where
  "set_next p v h = map_option (\<lambda>n. h(p \<mapsto> n\<lparr>lh_next := v\<rparr>)) (h p)"

definition set_prev :: "ptr \<Rightarrow> ptr \<Rightarrow> nodes \<Rightarrow> nodes option" where
  "set_prev p v h = map_option (\<lambda>n. h(p \<mapsto> n\<lparr>lh_prev := v\<rparr>)) (h p)"

section \<open>Operations\<close>

definition INIT_LIST_HEAD :: "ptr \<Rightarrow> nodes \<Rightarrow> nodes option" where
  "INIT_LIST_HEAD l h = do { h \<leftarrow> set_next l l h; set_prev l l h }"

text \<open>\<open>__list_add\<close> and \<open>__list_del\<close>\<close>

definition add_between :: "ptr \<Rightarrow> ptr \<Rightarrow> ptr \<Rightarrow> nodes \<Rightarrow> nodes option" where
  "add_between new prev nxt h = do {
     h \<leftarrow> set_prev nxt new h;
     h \<leftarrow> set_next new nxt h;
     h \<leftarrow> set_prev new prev h;
     set_next prev new h
   }"

definition list_add :: "ptr \<Rightarrow> ptr \<Rightarrow> nodes \<Rightarrow> nodes option" where
  "list_add new head h = do { n \<leftarrow> get_next head h; add_between new head n h }"

definition list_add_tail :: "ptr \<Rightarrow> ptr \<Rightarrow> nodes \<Rightarrow> nodes option" where
  "list_add_tail new head h = do { p \<leftarrow> get_prev head h; add_between new p head h }"

definition del_between :: "ptr \<Rightarrow> ptr \<Rightarrow> nodes \<Rightarrow> nodes option" where
  "del_between prev nxt h = do { h \<leftarrow> set_prev nxt prev h; set_next prev nxt h }"

text \<open>\<open>__list_del(entry->prev, entry->next)\<close>, with which the removals begin.\<close>

definition del_around :: "ptr \<Rightarrow> nodes \<Rightarrow> nodes option" where
  "del_around entry h = do { p \<leftarrow> get_prev entry h; n \<leftarrow> get_next entry h; del_between p n h }"

definition list_del :: "ptr \<Rightarrow> nodes \<Rightarrow> nodes option" where
  "list_del entry h = do { h \<leftarrow> del_around entry h; h \<leftarrow> set_next entry 0 h; set_prev entry 0 h }"

definition list_del_init :: "ptr \<Rightarrow> nodes \<Rightarrow> nodes option" where
  "list_del_init entry h = do { h \<leftarrow> del_around entry h; INIT_LIST_HEAD entry h }"

definition list_move :: "ptr \<Rightarrow> ptr \<Rightarrow> nodes \<Rightarrow> nodes option" where
  "list_move l head h = do { h \<leftarrow> del_around l h; list_add l head h }"

definition list_move_tail :: "ptr \<Rightarrow> ptr \<Rightarrow> nodes \<Rightarrow> nodes option" where
  "list_move_tail l head h = do { h \<leftarrow> del_around l h; list_add_tail l head h }"

definition list_replace :: "ptr \<Rightarrow> ptr \<Rightarrow> nodes \<Rightarrow> nodes option" where
  "list_replace old new h = do {
     n \<leftarrow> get_next old h; h \<leftarrow> set_next new n h;
     n \<leftarrow> get_next new h; h \<leftarrow> set_prev n new h;
     p \<leftarrow> get_prev old h; h \<leftarrow> set_prev new p h;
     p \<leftarrow> get_prev new h; set_next p new h
   }"

definition list_replace_init :: "ptr \<Rightarrow> ptr \<Rightarrow> nodes \<Rightarrow> nodes option" where
  "list_replace_init old new h = do { h \<leftarrow> list_replace old new h; INIT_LIST_HEAD old h }"

definition list_is_last :: "ptr \<Rightarrow> ptr \<Rightarrow> nodes \<Rightarrow> bool option" where
  "list_is_last l head h = map_option (\<lambda>n. n = head) (get_next l h)"

definition list_empty :: "ptr \<Rightarrow> nodes \<Rightarrow> bool option" where
  "list_empty head h = map_option (\<lambda>n. n = head) (get_next head h)"

definition list_empty_careful :: "ptr \<Rightarrow> nodes \<Rightarrow> bool option" where
  "list_empty_careful head h = do {
     n \<leftarrow> get_next head h;
     if n \<noteq> head then Some False else map_option (\<lambda>p. n = p) (get_prev head h)
   }"

text \<open>\<open>__list_splice\<close>\<close>

definition splice_behind :: "ptr \<Rightarrow> ptr \<Rightarrow> nodes \<Rightarrow> nodes option" where
  "splice_behind l head h = do {
     f \<leftarrow> get_next l h; z \<leftarrow> get_prev l h; at \<leftarrow> get_next head h;
     h \<leftarrow> set_prev f head h;
     h \<leftarrow> set_next head f h;
     h \<leftarrow> set_next z at h;
     set_prev at z h
   }"

definition list_splice :: "ptr \<Rightarrow> ptr \<Rightarrow> nodes \<Rightarrow> nodes option" where
  "list_splice l head h = do { e \<leftarrow> list_empty l h; if e then Some h else splice_behind l head h }"

definition list_splice_init :: "ptr \<Rightarrow> ptr \<Rightarrow> nodes \<Rightarrow> nodes option" where
  "list_splice_init l head h = do {
     e \<leftarrow> list_empty l h;
     if e then Some h else do { h \<leftarrow> splice_behind l head h; INIT_LIST_HEAD l h }
   }"

section \<open>Loops\<close>

text \<open>
  \<open>list_for_each_safe\<close>, also behind \<open>list_for_each_entry_safe\<close>: the next node is read before the body, which may
  remove the node. The body takes the node, a state and the heap.
\<close>

partial_function (option) safe_loop ::
    "(ptr \<Rightarrow> 's \<Rightarrow> nodes \<Rightarrow> ('s \<times> nodes) option) \<Rightarrow> ptr \<Rightarrow> ptr \<Rightarrow> ptr \<Rightarrow> 's \<Rightarrow> nodes \<Rightarrow> ('s \<times> nodes) option" where
  "safe_loop body head pos n s h =
     (if pos = head then Some (s, h)
      else do {
        (s, h) \<leftarrow> body pos s h;
        n' \<leftarrow> get_next n h;
        safe_loop body head n n' s h
      })"

definition list_for_each_safe ::
    "(ptr \<Rightarrow> 's \<Rightarrow> nodes \<Rightarrow> ('s \<times> nodes) option) \<Rightarrow> ptr \<Rightarrow> 's \<Rightarrow> nodes \<Rightarrow> ('s \<times> nodes) option" where
  "list_for_each_safe body head s h = do {
     pos \<leftarrow> get_next head h;
     n \<leftarrow> get_next pos h;
     safe_loop body head pos n s h
   }"

text \<open>\<open>list_for_each\<close>, which reads the next node after the body.\<close>

partial_function (option) each_loop ::
    "(ptr \<Rightarrow> 's \<Rightarrow> nodes \<Rightarrow> ('s \<times> nodes) option) \<Rightarrow> ptr \<Rightarrow> ptr \<Rightarrow> 's \<Rightarrow> nodes \<Rightarrow> ('s \<times> nodes) option" where
  "each_loop body head pos s h =
     (if pos = head then Some (s, h)
      else do {
        (s, h) \<leftarrow> body pos s h;
        pos \<leftarrow> get_next pos h;
        each_loop body head pos s h
      })"

definition list_for_each ::
    "(ptr \<Rightarrow> 's \<Rightarrow> nodes \<Rightarrow> ('s \<times> nodes) option) \<Rightarrow> ptr \<Rightarrow> 's \<Rightarrow> nodes \<Rightarrow> ('s \<times> nodes) option" where
  "list_for_each body head s h = do { pos \<leftarrow> get_next head h; each_loop body head pos s h }"

section \<open>Rings\<close>

definition linked :: "nodes \<Rightarrow> ptr \<Rightarrow> ptr \<Rightarrow> bool" where
  "linked h x y \<longleftrightarrow> get_next x h = Some y \<and> get_prev y h = Some x"

fun chain :: "nodes \<Rightarrow> ptr list \<Rightarrow> bool" where
  "chain h (x # y # zs) \<longleftrightarrow> linked h x y \<and> chain h (y # zs)"
| "chain h _ \<longleftrightarrow> True"

text \<open>The list with the head \<open>head\<close> has the elements \<open>xs\<close>.\<close>

definition list_at :: "nodes \<Rightarrow> ptr \<Rightarrow> ptr list \<Rightarrow> bool" where
  "list_at h head xs \<longleftrightarrow> distinct (head # xs) \<and> chain h (head # xs @ [head])"

lemma chain_append:
  "us \<noteq> [] \<Longrightarrow> vs \<noteq> [] \<Longrightarrow> chain h (us @ vs) \<longleftrightarrow> chain h us \<and> linked h (last us) (hd vs) \<and> chain h vs"
proof (induction us)
  case (Cons u us)
  obtain v ws where "vs = v # ws" using Cons.prems(2) by (cases vs) auto
  then show ?case using Cons by (cases us) auto
qed simp

text \<open>A chain depends on the next nodes of all but its last node and the previous nodes of all but its first.\<close>

lemma chain_cong:
  "\<forall>p\<in>set (butlast us). get_next p h' = get_next p h \<Longrightarrow> \<forall>p\<in>set (tl us). get_prev p h' = get_prev p h \<Longrightarrow>
   chain h' us = chain h us"
  by (induction h us rule: chain.induct) (auto simp: linked_def)

lemma get_ex: "get_next p h = Some q \<Longrightarrow> h p \<noteq> None" "get_prev p h = Some q \<Longrightarrow> h p \<noteq> None"
  by (auto simp: get_next_def get_prev_def)

lemmas node_defs = get_next_def get_prev_def set_next_def set_prev_def

text \<open>A ring seen from a gap between two of its nodes.\<close>

lemma list_at_gap:
  "list_at h head (xs @ ys) \<longleftrightarrow> distinct (head # xs @ ys) \<and> chain h (head # xs) \<and>
     linked h (last (head # xs)) (hd (ys @ [head])) \<and> chain h (ys @ [head])"
  using chain_append [of "head # xs" "ys @ [head]" h] by (simp add: list_at_def)

text \<open>Rings in which what is next to the gap was changed, and nothing else.\<close>

lemma chains_kept:
  assumes "distinct (head # xs @ ys)"
    and "\<forall>q. q \<noteq> last (head # xs) \<and> q \<noteq> e \<longrightarrow> get_next q h' = get_next q h"
    and "\<forall>q. q \<noteq> hd (ys @ [head]) \<and> q \<noteq> e \<longrightarrow> get_prev q h' = get_prev q h"
    and "e \<notin> set (head # xs @ ys)"
  shows "chain h' (head # xs) = chain h (head # xs)" "chain h' (ys @ [head]) = chain h (ys @ [head])"
proof -
  have b: "last (head # xs) \<notin> set (butlast (head # xs))"
  proof -
    have "butlast (head # xs) @ [last (head # xs)] = head # xs" by (rule append_butlast_last_id) simp
    then have "distinct (butlast (head # xs) @ [last (head # xs)])" using assms(1) by simp
    then show ?thesis by simp
  qed
  have s: "set (butlast (head # xs)) \<subseteq> set (head # xs)" by (meson in_set_butlastD subsetI)
  show "chain h' (head # xs) = chain h (head # xs)"
  proof (rule chain_cong)
    show "\<forall>p\<in>set (butlast (head # xs)). get_next p h' = get_next p h" using assms(2,4) b s by (metis Un_iff in_mono set_ConsD set_append list.set_intros)
    have "hd (ys @ [head]) \<notin> set xs" using assms(1) by (cases ys) auto
    then show "\<forall>p\<in>set (tl (head # xs)). get_prev p h' = get_prev p h" using assms(3,4)
      by (metis list.sel(3) Un_iff set_append list.set_intros(2))
  qed
  show "chain h' (ys @ [head]) = chain h (ys @ [head])"
  proof (rule chain_cong)
    have "last (head # xs) \<notin> set ys" using assms(1) by (cases xs rule: rev_cases) auto
    then show "\<forall>p\<in>set (butlast (ys @ [head])). get_next p h' = get_next p h" using assms(2,4)
      by (metis butlast_snoc Un_iff set_append list.set_intros(2))
    have "hd (ys @ [head]) \<notin> set (tl (ys @ [head]))" using assms(1) by (cases ys) auto
    moreover have "e \<notin> set (tl (ys @ [head]))" using assms(4) by (cases ys) auto
    ultimately show "\<forall>p\<in>set (tl (ys @ [head])). get_prev p h' = get_prev p h" using assms(3) by metis
  qed
qed

section \<open>What the operations do to a list\<close>

lemma init_ok:
  assumes "h head \<noteq> None"
  shows "\<exists>h'. INIT_LIST_HEAD head h = Some h' \<and> list_at h' head [] \<and> (\<forall>q. q \<noteq> head \<longrightarrow> h' q = h q)"
  using assms by (auto simp: INIT_LIST_HEAD_def node_defs list_at_def linked_def)

lemma add_between_gets:
  assumes "linked h a b" "h new \<noteq> None" "new \<noteq> a" "new \<noteq> b"
  shows "\<exists>h'. add_between new a b h = Some h' \<and>
    (\<forall>q. get_next q h' = (if q = a then Some new else if q = new then Some b else get_next q h)) \<and>
    (\<forall>q. get_prev q h' = (if q = b then Some new else if q = new then Some a else get_prev q h)) \<and>
    (\<forall>q. q \<notin> {a, b, new} \<longrightarrow> h' q = h q)"
  using assms by (auto simp: add_between_def node_defs linked_def)

lemma gap_ends: "last (head # xs) \<in> set (head # xs @ ys)" "hd (ys @ [head]) \<in> set (head # xs @ ys)"
  by (simp, cases ys) auto

lemma add_between_ok:
  assumes "list_at h head (xs @ ys)" "h new \<noteq> None" "new \<notin> set (head # xs @ ys)"
  shows "\<exists>h'. add_between new (last (head # xs)) (hd (ys @ [head])) h = Some h' \<and> list_at h' head (xs @ new # ys) \<and>
    (\<forall>q. q \<notin> set (head # xs @ new # ys) \<longrightarrow> h' q = h q)"
proof -
  let ?a = "last (head # xs)" and ?b = "hd (ys @ [head])"
  note ring = assms(1) [unfolded list_at_gap]
  have n: "new \<noteq> ?a" "new \<noteq> ?b" using assms(3) gap_ends [where head = head and xs = xs and ys = ys] by metis+
  obtain h' where h': "add_between new ?a ?b h = Some h'"
      "\<forall>q. get_next q h' = (if q = ?a then Some new else if q = new then Some ?b else get_next q h)"
      "\<forall>q. get_prev q h' = (if q = ?b then Some new else if q = new then Some ?a else get_prev q h)"
      "\<forall>q. q \<notin> {?a, ?b, new} \<longrightarrow> h' q = h q"
    using add_between_gets [of h ?a ?b new] assms(2) n ring by blast
  have "chain h' (head # xs) = chain h (head # xs)" "chain h' (ys @ [head]) = chain h (ys @ [head])"
    using chains_kept [of head xs ys new h' h] ring h'(2,3) assms(3) by simp_all
  moreover have "linked h' ?a new" "linked h' new ?b" using h'(2,3) n by (simp_all add: linked_def)
  ultimately have "list_at h' head (xs @ new # ys)"
    using ring assms(3) unfolding list_at_gap by (cases "ys @ [head]") auto
  moreover have "\<forall>q. q \<notin> set (head # xs @ new # ys) \<longrightarrow> h' q = h q"
    using h'(4) gap_ends [where head = head and xs = xs and ys = ys] by (metis Un_iff empty_iff insert_iff set_append list.simps(15))
  ultimately show ?thesis using h'(1) by blast
qed

lemma del_around_gets:
  assumes "linked h a e" "linked h e b" "e \<noteq> a" "e \<noteq> b"
  shows "\<exists>h'. del_around e h = Some h' \<and>
    (\<forall>q. get_next q h' = (if q = a then Some b else get_next q h)) \<and>
    (\<forall>q. get_prev q h' = (if q = b then Some a else get_prev q h)) \<and> (\<forall>q. q \<notin> {a, b} \<longrightarrow> h' q = h q)"
  using assms by (auto simp: del_around_def del_between_def node_defs linked_def)

lemma del_around_ok:
  assumes "list_at h head (xs @ e # ys)"
  shows "\<exists>h'. del_around e h = Some h' \<and> list_at h' head (xs @ ys) \<and>
    (\<forall>q. q \<notin> set (head # xs @ ys) \<longrightarrow> h' q = h q) \<and> h' e = h e \<and> h e \<noteq> None"
proof -
  let ?a = "last (head # xs)" and ?b = "hd (ys @ [head])"
  have ring: "distinct (head # xs @ e # ys)" "chain h (head # xs)" "linked h ?a e" "linked h e ?b" "chain h (ys @ [head])"
    using assms [unfolded list_at_gap] chain_append [of "[e]" "ys @ [head]" h] by auto
  have n: "e \<noteq> ?a" "e \<noteq> ?b" using ring(1) gap_ends [where head = head and xs = xs and ys = ys] by auto
  obtain h' where h': "del_around e h = Some h'"
      "\<forall>q. get_next q h' = (if q = ?a then Some ?b else get_next q h)"
      "\<forall>q. get_prev q h' = (if q = ?b then Some ?a else get_prev q h)" "\<forall>q. q \<notin> {?a, ?b} \<longrightarrow> h' q = h q"
    using del_around_gets [OF ring(3,4) n] by blast
  have "chain h' (head # xs) = chain h (head # xs)" "chain h' (ys @ [head]) = chain h (ys @ [head])"
    using chains_kept [of head xs ys e h' h] ring(1) h'(2,3) by simp_all
  then have "list_at h' head (xs @ ys)" unfolding list_at_gap using ring h'(2,3) by (simp add: linked_def)
  moreover have "h e \<noteq> None" using ring(4) get_ex unfolding linked_def by metis
  moreover have "\<forall>q. q \<notin> set (head # xs @ ys) \<longrightarrow> h' q = h q"
    using h'(4) gap_ends [where head = head and xs = xs and ys = ys] by (metis empty_iff insert_iff)
  ultimately show ?thesis using h'(1,4) n by blast
qed

text \<open>A ring is not changed by writing to other nodes.\<close>

lemma list_at_frame: "list_at h head xs \<Longrightarrow> \<forall>q\<in>set (head # xs). h' q = h q \<Longrightarrow> list_at h' head xs"
proof -
  assume a: "list_at h head xs" and k: "\<forall>q\<in>set (head # xs). h' q = h q"
  have "set (butlast (head # xs @ [head])) \<subseteq> set (head # xs)" by (simp add: butlast_append)
  then have "chain h' (head # xs @ [head]) = chain h (head # xs @ [head])"
    using k by (intro chain_cong) (auto simp: get_next_def get_prev_def butlast_append)
  then show "list_at h' head xs" using a by (simp add: list_at_def)
qed

lemma list_add_ok:
  assumes "list_at h head xs" "h new \<noteq> None" "new \<notin> set (head # xs)"
  shows "\<exists>h'. list_add new head h = Some h' \<and> list_at h' head (new # xs) \<and> (\<forall>q. q \<notin> set (head # new # xs) \<longrightarrow> h' q = h q)"
proof -
  have "get_next head h = Some (hd (xs @ [head]))" using assms(1) list_at_gap [of h head "[]" xs] by (simp add: linked_def)
  then show ?thesis using add_between_ok [of h head "[]" xs new] assms by (simp add: list_add_def)
qed

lemma list_add_tail_ok:
  assumes "list_at h head xs" "h new \<noteq> None" "new \<notin> set (head # xs)"
  shows "\<exists>h'. list_add_tail new head h = Some h' \<and> list_at h' head (xs @ [new]) \<and> (\<forall>q. q \<notin> set (head # new # xs) \<longrightarrow> h' q = h q)"
proof -
  have "get_prev head h = Some (last (head # xs))" using assms(1) list_at_gap [of h head xs "[]"] by (simp add: linked_def)
  then show ?thesis using add_between_ok [of h head xs "[]" new] assms by (simp add: list_add_tail_def insert_commute)
qed

lemma list_del_ok:
  assumes "list_at h head (xs @ e # ys)"
  shows "\<exists>h'. list_del e h = Some h' \<and> list_at h' head (xs @ ys) \<and> h' e = Some \<lparr>lh_next = 0, lh_prev = 0\<rparr> \<and>
    (\<forall>q. q \<notin> set (head # xs @ e # ys) \<longrightarrow> h' q = h q)"
proof -
  obtain h1 where h1: "del_around e h = Some h1" "list_at h1 head (xs @ ys)" "\<forall>q. q \<notin> set (head # xs @ ys) \<longrightarrow> h1 q = h q"
      "h1 e \<noteq> None"
    using del_around_ok [OF assms] by auto
  have e: "e \<notin> set (head # xs @ ys)" using assms by (auto simp: list_at_def)
  obtain n where n: "h1 e = Some n" using h1(4) by blast
  let ?h' = "h1(e \<mapsto> n\<lparr>lh_next := 0, lh_prev := 0\<rparr>)"
  have "list_del e h = Some ?h'" using h1(1) n by (simp add: list_del_def set_next_def set_prev_def)
  moreover have "list_at ?h' head (xs @ ys)" by (rule list_at_frame [OF h1(2)]) (use e in auto)
  ultimately show ?thesis using h1(3) by auto
qed

lemma list_del_init_ok:
  assumes "list_at h head (xs @ e # ys)"
  shows "\<exists>h'. list_del_init e h = Some h' \<and> list_at h' head (xs @ ys) \<and> list_at h' e []"
proof -
  obtain h1 where h1: "del_around e h = Some h1" "list_at h1 head (xs @ ys)" "h1 e \<noteq> None"
    using del_around_ok [OF assms] by auto
  then obtain h2 where h2: "INIT_LIST_HEAD e h1 = Some h2" "list_at h2 e []" "\<forall>q. q \<noteq> e \<longrightarrow> h2 q = h1 q"
    using init_ok by blast
  have "e \<notin> set (head # xs @ ys)" using assms by (auto simp: list_at_def)
  then have "list_at h2 head (xs @ ys)" using list_at_frame [OF h1(2)] h2(3) by metis
  then show ?thesis using h1(1) h2 by (simp add: list_del_init_def)
qed

text \<open>Moving an element to the front or the end of its list, or of another.\<close>

lemma list_move_ok:
  assumes "list_at h head (xs @ e # ys)"
  shows "\<exists>h'. list_move e head h = Some h' \<and> list_at h' head (e # xs @ ys)"
    "\<exists>h'. list_move_tail e head h = Some h' \<and> list_at h' head (xs @ ys @ [e])"
proof -
  obtain h1 where h1: "del_around e h = Some h1" "list_at h1 head (xs @ ys)" "h1 e \<noteq> None"
    using del_around_ok [OF assms] by auto
  have e: "e \<notin> set (head # xs @ ys)" using assms by (auto simp: list_at_def)
  show "\<exists>h'. list_move e head h = Some h' \<and> list_at h' head (e # xs @ ys)"
    using list_add_ok [OF h1(2,3) e] h1(1) by (auto simp: list_move_def)
  show "\<exists>h'. list_move_tail e head h = Some h' \<and> list_at h' head (xs @ ys @ [e])"
    using list_add_tail_ok [OF h1(2,3) e] h1(1) by (auto simp: list_move_tail_def)
qed

lemma list_moved_over:
  assumes "list_at h head (xs @ e # ys)" "list_at h dst zs" "set (head # xs @ e # ys) \<inter> set (dst # zs) = {}"
  shows "\<exists>h'. list_move_tail e dst h = Some h' \<and> list_at h' head (xs @ ys) \<and> list_at h' dst (zs @ [e])"
proof -
  obtain h1 where h1: "del_around e h = Some h1" "list_at h1 head (xs @ ys)" "\<forall>q. q \<notin> set (head # xs @ ys) \<longrightarrow> h1 q = h q"
      "h1 e \<noteq> None"
    using del_around_ok [OF assms(1)] by auto
  have "list_at h1 dst zs" by (rule list_at_frame [OF assms(2)]) (use h1(3) assms(3) in auto)
  then obtain h2 where h2: "list_add_tail e dst h1 = Some h2" "list_at h2 dst (zs @ [e])" "\<forall>q. q \<notin> set (dst # e # zs) \<longrightarrow> h2 q = h1 q"
    using list_add_tail_ok [of h1 dst zs e] h1(4) assms(3) by auto
  have "e \<notin> set (head # xs @ ys)" using assms(1) by (auto simp: list_at_def)
  then have "list_at h2 head (xs @ ys)" using h2(3) assms(3) by (intro list_at_frame [OF h1(2)]) auto
  then show ?thesis using h1(1) h2 by (simp add: list_move_tail_def)
qed

lemma list_replace_ok:
  assumes "list_at h head (xs @ old # ys)" "h new \<noteq> None" "new \<notin> set (head # xs @ old # ys)"
  shows "\<exists>h'. list_replace old new h = Some h' \<and> list_at h' head (xs @ new # ys)"
proof -
  let ?a = "last (head # xs)" and ?b = "hd (ys @ [head])"
  have ring: "distinct (head # xs @ old # ys)" "chain h (head # xs)" "linked h ?a old" "linked h old ?b" "chain h (ys @ [head])"
    using assms(1) [unfolded list_at_gap] chain_append [of "[old]" "ys @ [head]" h] by auto
  have n: "old \<noteq> ?a" "old \<noteq> ?b" "new \<noteq> ?a" "new \<noteq> ?b" "new \<noteq> old"
    using ring(1) assms(3) gap_ends [where head = head and xs = xs and ys = ys] by auto
  have "\<exists>h'. list_replace old new h = Some h' \<and>
    (\<forall>q. get_next q h' = (if q = ?a then Some new else if q = new then Some ?b else get_next q h)) \<and>
    (\<forall>q. get_prev q h' = (if q = ?b then Some new else if q = new then Some ?a else get_prev q h))"
    using ring(3,4) assms(2) n by (auto simp: list_replace_def node_defs linked_def)
  then obtain h' where h': "list_replace old new h = Some h'"
      "\<forall>q. get_next q h' = (if q = ?a then Some new else if q = new then Some ?b else get_next q h)"
      "\<forall>q. get_prev q h' = (if q = ?b then Some new else if q = new then Some ?a else get_prev q h)" by blast
  have "chain h' (head # xs) = chain h (head # xs)" "chain h' (ys @ [head]) = chain h (ys @ [head])"
    using chains_kept [of head xs ys new h' h] ring(1) assms(3) h'(2,3) by simp_all
  moreover have "linked h' ?a new" "linked h' new ?b" using h'(2,3) n by (simp_all add: linked_def)
  ultimately have "list_at h' head (xs @ new # ys)"
    using ring assms(3) unfolding list_at_gap by (cases "ys @ [head]") auto
  then show ?thesis using h'(1) by blast
qed

lemma list_empty_ok: "list_at h head xs \<Longrightarrow> list_empty head h = Some (xs = [])"
  using list_at_gap [of h head "[]" xs] by (cases xs) (auto simp: list_empty_def linked_def)

lemma list_at_next: "list_at h head (xs @ e # ys) \<Longrightarrow> get_next e h = Some (hd (ys @ [head]))"
  using list_at_gap [of h head "xs @ [e]" ys] by (simp add: linked_def)

lemma list_at_first: "list_at h head xs \<Longrightarrow> get_next head h = Some (hd (xs @ [head]))"
  using list_at_gap [of h head "[]" xs] by (simp add: linked_def)

lemma list_splice_ok:
  assumes "list_at h l xs" "list_at h head ys" "set (l # xs) \<inter> set (head # ys) = {}"
  shows "\<exists>h'. list_splice l head h = Some h' \<and> list_at h' head (xs @ ys)"
proof (cases "xs = []")
  case True
  then show ?thesis using assms list_empty_ok [OF assms(1)] by (simp add: list_splice_def)
next
  case False
  let ?f = "hd xs" and ?z = "last xs" and ?b = "hd (ys @ [head])"
  have l: "linked h l ?f" "linked h ?z l" "chain h xs"
    using assms(1) list_at_gap [of h l "[]" xs] list_at_gap [of h l xs "[]"] False chain_append [of xs "[l]" h] by simp_all
  have b: "linked h head ?b" "chain h (ys @ [head])" using assms(2) list_at_gap [of h head "[]" ys] by simp_all
  have m: "?f \<in> set xs" "?z \<in> set xs" "?b \<in> set (head # ys)" using False by (simp_all, cases ys) auto
  then have n: "?f \<noteq> head" "?z \<noteq> head" "?f \<noteq> ?b" "?z \<noteq> ?b" using assms(3) by auto
  have "\<exists>h'. splice_behind l head h = Some h' \<and>
    (\<forall>q. get_next q h' = (if q = head then Some ?f else if q = ?z then Some ?b else get_next q h)) \<and>
    (\<forall>q. get_prev q h' = (if q = ?f then Some head else if q = ?b then Some ?z else get_prev q h))"
    using l b n by (auto simp: splice_behind_def node_defs linked_def)
  then obtain h' where h': "splice_behind l head h = Some h'"
      "\<forall>q. get_next q h' = (if q = head then Some ?f else if q = ?z then Some ?b else get_next q h)"
      "\<forall>q. get_prev q h' = (if q = ?f then Some head else if q = ?b then Some ?z else get_prev q h)" by blast
  have d: "distinct xs" "distinct (head # ys)" using assms(1,2) by (simp_all add: list_at_def)
  have "chain h' xs = chain h xs"
  proof (rule chain_cong)
    have "?z \<notin> set (butlast xs)" using d(1) False by (metis append_butlast_last_id distinct_butlast not_distinct_conv_prefix)
    then show "\<forall>p\<in>set (butlast xs). get_next p h' = get_next p h" using h'(2) assms(3) by (auto dest: in_set_butlastD)
    have "?f \<notin> set (tl xs)" using d(1) False by (cases xs) auto
    then show "\<forall>p\<in>set (tl xs). get_prev p h' = get_prev p h" using h'(3) assms(3) m(3) by (metis disjoint_iff list.set_intros(2) list.set_sel(2) False)
  qed
  moreover have "chain h' (ys @ [head]) = chain h (ys @ [head])"
  proof (rule chain_cong)
    show "\<forall>p\<in>set (butlast (ys @ [head])). get_next p h' = get_next p h" using h'(2) assms(3) d(2) m(2) by auto
    have "?b \<notin> set (tl (ys @ [head]))" using d(2) by (cases ys) auto
    moreover have "?f \<notin> set (tl (ys @ [head]))" using m(1) assms(3) by (cases ys) auto
    ultimately show "\<forall>p\<in>set (tl (ys @ [head])). get_prev p h' = get_prev p h" using h'(3) by metis
  qed
  moreover have "linked h' head ?f" "linked h' ?z ?b" using h'(2,3) n by (auto simp: linked_def)
  ultimately have "chain h' ([head] @ xs @ ys @ [head])"
    using l(3) b(2) False by (simp add: chain_append del: append_Cons chain.simps) simp
  then have "list_at h' head (xs @ ys)" using d assms(3) by (auto simp: list_at_def)
  then show ?thesis using h'(1) list_empty_ok [OF assms(1)] False by (simp add: list_splice_def)
qed

section \<open>What the loops do\<close>

text \<open>The loop visits the elements in their order, and so does the one that may remove the element it is at.\<close>

lemma each_loop_ok:
  assumes "list_at h head (done @ rest)"
  shows "each_loop (\<lambda>e s h. Some (f e s, h)) head (hd (rest @ [head])) s h = Some (fold f rest s, h)"
  using assms
proof (induction rest arbitrary: "done" s)
  case Nil
  then show ?case by (simp add: each_loop.simps)
next
  case (Cons e es)
  have "e \<noteq> head" using Cons.prems by (auto simp: list_at_def)
  then show ?case using list_at_next [OF Cons.prems] Cons.IH [of "done @ [e]"] Cons.prems
    by (subst each_loop.simps) simp
qed

lemma list_for_each_ok:
  assumes "list_at h head xs"
  shows "list_for_each (\<lambda>e s h. Some (f e s, h)) head s h = Some (fold f xs s, h)"
  using each_loop_ok [of h head "[]" xs f s] list_at_first [OF assms] assms by (simp add: list_for_each_def)

definition remove_if :: "(ptr \<Rightarrow> bool) \<Rightarrow> ptr \<Rightarrow> ptr list \<Rightarrow> nodes \<Rightarrow> (ptr list \<times> nodes) option" where
  "remove_if P e seen h = (if P e then map_option (\<lambda>h. (seen @ [e], h)) (list_del e h) else Some (seen @ [e], h))"

lemma safe_loop_removes:
  assumes "list_at h head (kept @ rest)" "rest \<noteq> [] \<longrightarrow> n = hd (tl rest @ [head])"
  shows "\<exists>h'. safe_loop (remove_if P) head (hd (rest @ [head])) n seen h = Some (seen @ rest, h') \<and>
    list_at h' head (kept @ filter (\<lambda>e. \<not> P e) rest) \<and> (\<forall>q. q \<notin> set (head # kept @ rest) \<longrightarrow> h' q = h q)"
  using assms
proof (induction rest arbitrary: kept n seen h)
  case Nil
  then show ?case by (simp add: safe_loop.simps)
next
  case (Cons e es)
  have e: "e \<noteq> head" using Cons.prems(1) by (auto simp: list_at_def)
  define kept' where "kept' = (if P e then kept else kept @ [e])"
  have "\<exists>h1. remove_if P e seen h = Some (seen @ [e], h1) \<and> list_at h1 head (kept' @ es) \<and>
      (\<forall>q. q \<notin> set (head # kept @ e # es) \<longrightarrow> h1 q = h q)"
  proof (cases "P e")
    case True
    then show ?thesis using list_del_ok [OF Cons.prems(1)] by (auto simp: remove_if_def kept'_def)
  next
    case False
    then show ?thesis using Cons.prems(1) by (simp add: remove_if_def kept'_def)
  qed
  then obtain h1 where h1: "remove_if P e seen h = Some (seen @ [e], h1)" "list_at h1 head (kept' @ es)"
      "\<forall>q. q \<notin> set (head # kept @ e # es) \<longrightarrow> h1 q = h q" by blast
  have n: "n = hd (es @ [head])" using Cons.prems(2) by simp
  have "\<exists>n'. get_next n h1 = Some n' \<and> (es \<noteq> [] \<longrightarrow> n' = hd (tl es @ [head]))"
  proof (cases es)
    case Nil
    then show ?thesis using list_at_first [OF h1(2)] n by simp
  next
    case (Cons x xs)
    then show ?thesis using list_at_next [of h1 head kept' x xs] h1(2) n by simp
  qed
  then obtain n' where n': "get_next n h1 = Some n'" "es \<noteq> [] \<longrightarrow> n' = hd (tl es @ [head])" by blast
  obtain h' where h': "safe_loop (remove_if P) head (hd (es @ [head])) n' (seen @ [e]) h1 = Some ((seen @ [e]) @ es, h')"
      "list_at h' head (kept' @ filter (\<lambda>e. \<not> P e) es)" "\<forall>q. q \<notin> set (head # kept' @ es) \<longrightarrow> h' q = h1 q"
    using Cons.IH [OF h1(2) n'(2), of "seen @ [e]"] by blast
  have "safe_loop (remove_if P) head (hd ((e # es) @ [head])) n seen h = Some (seen @ e # es, h')"
    using e h1(1) n'(1) n h'(1) by (subst safe_loop.simps) simp
  moreover have "list_at h' head (kept @ filter (\<lambda>e. \<not> P e) (e # es))" using h'(2) by (simp add: kept'_def split: if_splits)
  moreover have "\<forall>q. q \<notin> set (head # kept @ e # es) \<longrightarrow> h' q = h q" using h'(3) h1(3) by (auto simp: kept'_def)
  ultimately show ?case by blast
qed

lemma safe_removal_ok:
  assumes "list_at h head xs"
  shows "\<exists>h'. list_for_each_safe (remove_if P) head [] h = Some (xs, h') \<and> list_at h' head (filter (\<lambda>e. \<not> P e) xs) \<and>
    (\<forall>q. q \<notin> set (head # xs) \<longrightarrow> h' q = h q)"
proof -
  have "\<exists>n. get_next (hd (xs @ [head])) h = Some n \<and> (xs \<noteq> [] \<longrightarrow> n = hd (tl xs @ [head]))"
    using list_at_first [OF assms] list_at_next [of h head "[]" "hd xs" "tl xs"] assms by (cases xs) auto
  then obtain n where n: "get_next (hd (xs @ [head])) h = Some n" "xs \<noteq> [] \<longrightarrow> n = hd (tl xs @ [head])" by blast
  then show ?thesis using safe_loop_removes [of h head "[]" xs n P "[]"] list_at_first [OF assms] assms
    by (auto simp: list_for_each_safe_def)
qed

section \<open>The interface\<close>

text \<open>What the users of the lists rely on, whatever the nodes are.\<close>

fun add_all :: "('p \<Rightarrow> 'h \<Rightarrow> 'h option) \<Rightarrow> 'p list \<Rightarrow> 'h \<Rightarrow> 'h option" where
  "add_all add [] h = Some h"
| "add_all add (p # ps) h = do { h \<leftarrow> add p h; add_all add ps h }"

locale list_interface =
  fixes holds :: "'h \<Rightarrow> 'p \<Rightarrow> 'p list \<Rightarrow> bool"
    and node :: "'h \<Rightarrow> 'p \<Rightarrow> bool"
    and add :: "'p \<Rightarrow> 'p \<Rightarrow> 'h \<Rightarrow> 'h option"
    and del :: "'p \<Rightarrow> 'h \<Rightarrow> 'h option"
  assumes holds_nodes: "holds h head xs \<Longrightarrow> distinct (head # xs) \<and> (\<forall>p\<in>set (head # xs). node h p)"
    and add_law: "holds h head xs \<Longrightarrow> node h new \<Longrightarrow> new \<notin> set (head # xs) \<Longrightarrow>
      \<exists>h'. add new head h = Some h' \<and> holds h' head (xs @ [new]) \<and> (\<forall>p. node h p \<longrightarrow> node h' p)"
    and del_law: "holds h head (xs @ e # ys) \<Longrightarrow>
      \<exists>h'. del e h = Some h' \<and> holds h' head (xs @ ys) \<and> (\<forall>p. node h p \<longrightarrow> node h' p)"
begin

lemma add_all_ok:
  assumes "holds h head xs" "distinct ps" "set ps \<inter> set (head # xs) = {}" "\<forall>p\<in>set ps. node h p"
  shows "\<exists>h'. add_all (\<lambda>p. add p head) ps h = Some h' \<and> holds h' head (xs @ ps)"
  using assms
proof (induction ps arbitrary: h xs)
  case (Cons p ps)
  then obtain h1 where h1: "add p head h = Some h1" "holds h1 head (xs @ [p])" "\<forall>p. node h p \<longrightarrow> node h1 p"
    using add_law [of h head xs p] by auto
  then show ?case using Cons.IH [OF h1(2)] Cons.prems by auto
qed simp

text \<open>An element that is removed and added again is the last.\<close>

lemma requeue_ok:
  assumes "holds h head (xs @ e # ys)"
  shows "\<exists>h1 h2. del e h = Some h1 \<and> add e head h1 = Some h2 \<and> holds h2 head (xs @ ys @ [e])"
proof -
  obtain h1 where h1: "del e h = Some h1" "holds h1 head (xs @ ys)" "\<forall>p. node h p \<longrightarrow> node h1 p"
    using del_law [OF assms] by blast
  then have "node h1 e" "e \<notin> set (head # xs @ ys)" using holds_nodes [OF assms] by auto
  then show ?thesis using add_law [OF h1(2)] h1(1) by auto
qed

end

lemma list_at_nodes: "list_at h head xs \<Longrightarrow> p \<in> set (head # xs) \<Longrightarrow> h p \<noteq> None"
proof -
  assume l: "list_at h head xs" and p: "p \<in> set (head # xs)"
  show "h p \<noteq> None"
  proof (cases "p = head")
    case True
    then show ?thesis using list_at_first [OF l] get_ex by metis
  next
    case False
    then obtain us vs where "xs = us @ p # vs" using p by (auto dest: split_list)
    then show ?thesis using list_at_next l get_ex by metis
  qed
qed

interpretation dlist: list_interface list_at "\<lambda>h p. h p \<noteq> None" list_add_tail list_del
proof
  show "distinct (head # xs) \<and> (\<forall>p\<in>set (head # xs). h p \<noteq> None)" if "list_at h head xs" for h head xs
    using that list_at_nodes by (auto simp: list_at_def)
  show "\<exists>h'. list_add_tail new head h = Some h' \<and> list_at h' head (xs @ [new]) \<and> (\<forall>p. h p \<noteq> None \<longrightarrow> h' p \<noteq> None)"
    if "list_at h head xs" "h new \<noteq> None" "new \<notin> set (head # xs)" for h head xs new
  proof -
    note a = that
    obtain h' where h': "list_add_tail new head h = Some h'" "list_at h' head (xs @ [new])" "\<forall>q. q \<notin> set (head # new # xs) \<longrightarrow> h' q = h q"
      using list_add_tail_ok [OF a] by blast
    have "h' p \<noteq> None" if "h p \<noteq> None" for p
      using h'(3) list_at_nodes [OF h'(2)] that by (cases "p \<in> set (head # new # xs)") auto
    then show ?thesis using h'(1,2) by blast
  qed
  show "\<exists>h'. list_del e h = Some h' \<and> list_at h' head (xs @ ys) \<and> (\<forall>p. h p \<noteq> None \<longrightarrow> h' p \<noteq> None)"
    if "list_at h head (xs @ e # ys)" for h head xs e ys
  proof -
    note a = that
    obtain h' where h': "list_del e h = Some h'" "list_at h' head (xs @ ys)" "h' e \<noteq> None" "\<forall>q. q \<notin> set (head # xs @ e # ys) \<longrightarrow> h' q = h q"
      using list_del_ok [OF a] by auto
    have "h' p \<noteq> None" if "h p \<noteq> None" for p
      using h'(3,4) list_at_nodes [OF h'(2)] that by (cases "p \<in> set (head # xs @ e # ys)") auto
    then show ?thesis using h'(1,2) by blast
  qed
qed

text \<open>A list from its initialisation on: filled, some of its elements removed while it is visited, and visited.\<close>

lemma list_run:
  assumes "h head \<noteq> None" "distinct (head # ps)" "\<forall>p\<in>set ps. h p \<noteq> None"
  shows "\<exists>h1 h2 h3. INIT_LIST_HEAD head h = Some h1 \<and> add_all (\<lambda>p. list_add_tail p head) ps h1 = Some h2 \<and>
    list_for_each_safe (remove_if P) head [] h2 = Some (ps, h3) \<and>
    list_for_each (\<lambda>e s h. Some (s @ [e], h)) head [] h3 = Some (filter (\<lambda>e. \<not> P e) ps, h3) \<and>
    list_at h3 head (filter (\<lambda>e. \<not> P e) ps)"
proof -
  obtain h1 where h1: "INIT_LIST_HEAD head h = Some h1" "list_at h1 head []" "\<forall>q. q \<noteq> head \<longrightarrow> h1 q = h q"
    using init_ok assms(1) by blast
  have "set ps \<inter> set [head] = {}" "distinct ps" "\<forall>p\<in>set ps. h1 p \<noteq> None" using assms(2,3) h1(3) by auto
  then obtain h2 where h2: "add_all (\<lambda>p. list_add_tail p head) ps h1 = Some h2" "list_at h2 head ps"
    using dlist.add_all_ok [OF h1(2)] by auto
  obtain h3 where h3: "list_for_each_safe (remove_if P) head [] h2 = Some (ps, h3)" "list_at h3 head (filter (\<lambda>e. \<not> P e) ps)"
    using safe_removal_ok [OF h2(2)] by blast
  have "fold (\<lambda>e s. s @ [e]) xs ys = ys @ xs" for xs ys :: "ptr list" by (induction xs arbitrary: ys) auto
  then show ?thesis using h1(1) h2(1) h3 list_for_each_ok [OF h3(2), of "\<lambda>e s. s @ [e]" "[]"] by auto
qed

end
