(* ===== verification/Spec2Isabelle.thy ===== *)
theory Spec2Isabelle
  imports Ustor_Dmruns Ustor_Comlib Ustor_Ring
begin

text \<open>
  uHost, the program on a portable storage device that serves the files of its disks to a phone on
  the USB bus: an iPhone, over a multiplexed TCP-like protocol, or an Android phone in accessory
  mode; and the disk manager of the device, the program that finds, probes and mounts those disks. Both
  are modelled from their C sources as functions on the state that the code keeps, and this theory
  states what makes them correct.

  \<^bold>\<open>The program and its parts.\<close> The main thread (\<open>usStorage.c\<close>) waits for a phone, finds and connects
  it, receives requests, dispatches them to their handlers and sends the answers; after each round
  it announces a pending disk change. A second thread (\<open>usEvent.c\<close>) reads the kernel's messages and
  those of a local socket, and calls back with phones and disks that come and go. Requests are
  decoded by \<open>usDecode.c\<close>, which reads and writes files through \<open>usDisk.c\<close>, asks the disk manager, a
  separate program, through the socket client \<open>diskipc.c\<close>, and leaves the device's firmware and
  information block to \<open>usFirmware.c\<close>. Everything that goes to the phone passes \<open>usProtocol.c\<close>, which
  chooses between the two transports, and \<open>usUsb.c\<close>, the layer over libusb. The disk manager (\<open>diskm\<close>)
  keeps the list of disks with their partitions: it reads its configuration and the kernel's
  partitions, probes each volume for its file system and label, mounts it where the disk's tag says,
  follows the kernel's actions on disks, and answers with its lists.

  \<^bold>\<open>The environment.\<close> What the program asks of libusb, the kernel, the C library and the disk manager
  is a call (\<open>Ustor_Env\<close>); the answers are a parameter, a function from the trace of all that happened
  and the call to an answer, so that a theorem holds for whatever they answer. Where the code relies
  on an answer's form, such as a transfer that succeeds having taken a byte (\<open>bulk_progress\<close>) or a file
  that yields its content (\<open>serves\<close>), that is a hypothesis. The trace also records the bad memory
  accesses of the code (\<open>Fault\<close>): a theorem that says \<open>clean\<close> says there are none.

  \<^bold>\<open>Theories\<close>, each over those before it:
  \<^item> \<open>Ustor_Base\<close>: machine integers, byte order, C strings and buffers.
  \<^item> \<open>Ustor_Env\<close>: calls, answers, the trace and what can be read off it: bytes sent to an endpoint,
    read from and written to a descriptor.
  \<^item> \<open>Ustor_Proto\<close>: \<open>protocol.h\<close>, the packed structs with encoder and decoder; the locale \<open>packed_struct\<close> of \<open>Ustor_Base\<close> states what
    such a pair promises and each struct interprets it.
  \<^item> \<open>Ustor_Usb\<close>: \<open>usUsb.c\<close>. \<open>Ustor_Itunes\<close>: the \<open>itunes_\<close> functions of \<open>usProtocol.c\<close>; \<open>Ustor_Mux\<close> proves
    them: the packets they send and the stream that a receiver decodes. \<open>Ustor_Phone\<close>: the \<open>aoa_\<close>
    functions, detection and the interface \<open>usProtocol_\<close>; the locale \<open>transport\<close> is what the rest of
    the program relies on.
  \<^item> \<open>Ustor_Diskipc\<close>, \<open>Ustor_Disk\<close>: \<open>diskipc.c\<close> and \<open>usDisk.c\<close>.
  \<^item> \<open>Ustor_Digest\<close>, \<open>Ustor_Firmware\<close>: CRC-32 and MD5 against the mathematical definitions, then the upgrade
    and information of \<open>usFirmware.c\<close>.
  \<^item> \<open>Ustor_Decode\<close>, \<open>Ustor_List\<close>: the handlers of \<open>usDecode.c\<close>; the directory listing and its parts.
  \<^item> \<open>Ustor_Event\<close>: \<open>usEvent.c\<close>; the locale \<open>event_client\<close> carries an invariant of the callbacks through a round
    of the thread.
  \<^item> \<open>Ustor_Daemon\<close>, \<open>Ustor_Storage\<close>, \<open>Ustor_Main\<close>: \<open>usStorage.c\<close>: going into the background, receiving, dispatch, notification and the main loop as a step
    relation that interleaves with the event thread, with the invariant of its reachable states.
  \<^item> \<open>Ustor_Clib\<close>: the conversions of text that \<open>diskm\<close> uses, and reading files by lines. \<open>Ustor_Blkid\<close>, \<open>Ustor_Fat\<close>,
    \<open>Ustor_Fs\<close>, \<open>Ustor_Volume\<close>: \<open>libblkid-tiny.c\<close> with the probes of \<open>vfat.c\<close>, \<open>ntfs.c\<close>, \<open>exfat.c\<close> and \<open>hfs.c\<close>, and the
    partition tables; \<open>Ustor_Labels\<close> proves what the labels are.
  \<^item> \<open>Ustor_Registry\<close>, \<open>Ustor_Mount\<close>, \<open>Ustor_Manager\<close>: \<open>disk_manager.c\<close> and \<open>sg_io.c\<close>: configuration and the list of
    disks, mounting, actions and answers. \<open>Ustor_Reach\<close> states the manager's runs as a relation, with the
    invariant of the states it reaches; \<open>Ustor_Answers\<close> relates its lists to those of the client.
    \<open>Ustor_Ring\<close>: \<open>list.h\<close>, whose rings of nodes refine the lists of the model; the locale \<open>list_interface\<close> is
    what their users rely on. \<open>Ustor_Comlib\<close>: \<open>comlib.c\<close>.
  \<^item> \<open>Ustor_Runs\<close>, \<open>Ustor_Dmruns\<close>: the concrete environments, devices and messages at which the properties are applied.

  \<^bold>\<open>State.\<close> The globals and statics of the files are the fields of \<open>uHost\<close>, and those of the disk manager of
  \<open>manager\<close>; pointers into the program's
  buffer are offsets; a caller's buffer is a byte list that a function gets and returns; an output
  parameter that a path leaves unset is \<open>None\<close>. C integers are words of their width where they wrap,
  and integers where the code compares them as signed.

  \<^bold>\<open>Loops.\<close> A loop that the environment can keep going is a \<open>partial_function\<close>, whose result is \<open>None\<close> when
  it does not end; no fuel is used, but for the bounds that the code has itself: 100 clusters in the FAT32
  search, 600 looks at a child. Where a loop ends, that is proved (USB sends, file reads and writes,
  disk lists, the loops of \<open>list.h\<close>), and where it does not, that is too.

  \<^bold>\<open>Properties.\<close> They follow the theories: bytes on the bus; packets, handshake and connection state of
  the transports; the disk manager's socket, with the disk list that never returns; files;
  checksums; firmware; file requests; listings; events; and the whole program, whose
  invariant holds in every interleaving and which refines the automaton of its connection. Of the disk
  manager: its invariant, safe removal, its answers, its list against that of the client, its mount options,
  its linked lists and the labels of volumes.

  \<^bold>\<open>Not modelled.\<close> Logging (\<open>usSys.c\<close>, the dump routines of \<open>usUsb.c\<close> and all \<open>DEBUG\<close> output); data races
  below the granularity of the steps. Under \<open>diskm\<close>: the third-party macros of \<open>c.h\<close> and \<open>bitops.h\<close>, the
  singly linked list of \<open>list.h\<close>, \<open>parse_mac\<close> of \<open>comlib.c\<close> and the functions of \<open>libblkid-tiny.c\<close> that nothing
  calls; the bytes of the SCSI commands. The manager's socket server is not in the repository: the
  client's peer is a parameter, and the property that relates the two lists assumes that the answer
  arrives as the manager made it.
\<close>

section \<open>The USB layer\<close>

text \<open>
  C36. A packet send over USB writes a prefix of the packet on the device's OUT endpoint and
  nothing else, the whole packet when it reports success; it reads nothing and makes no bad
  memory access.
\<close>

theorem usb_send_delivers:
  assumes "usUsb_BlukPacketSend E d data t tr = Some (r, tr')"
  shows "clean tr tr' \<and> (\<forall>h ep. got h ep tr' = got h ep tr) \<and>
    (\<exists>n \<le> length data. sent (ui_osPriv d) (ui_ep_out d) tr' = sent (ui_osPriv d) (ui_ep_out d) tr @ take n data \<and>
      (r = EUSTOR_OK \<longrightarrow> n = length data))"
  using send_delivers [OF assms] by (auto simp: delivers_def wrote_def)

theorem usb_send_delivers_witness:
  "\<exists>tr'. usUsb_BlukPacketSend accepting usb1 [1, 2, 3] 1000 [] = Some (EUSTOR_OK, tr') \<and> sent 1 2 tr' = [1, 2, 3]"
proof -
  have run: "usUsb_BlukPacketSend accepting usb1 [1, 2, 3] 1000 [] =
    Some (EUSTOR_OK, [] @ [Did (Usb (BulkOut 1 2 [1, 2, 3] 1000)) (answer0\<lparr>a_num := 64\<rparr>)])"
    by (rule accepting_send) simp
  from usb_send_delivers [OF run] run show ?thesis by auto
qed

text \<open>
  A packet send returns, whatever the packet, the device and the result of each transfer,
  provided libusb makes progress: a successful transfer of a non-empty buffer accepts a byte.
\<close>

theorem usb_send_returns:
  assumes "bulk_progress E"
  shows "\<exists>r tr'. usUsb_BlukPacketSend E d data t tr = Some (r, tr')"
  by (rule send_total [OF assms])

theorem usb_send_returns_witness:
  "\<exists>r tr'. usUsb_BlukPacketSend accepting usb1 [7, 7] 3000 [] = Some (r, tr')"
  by (rule usb_send_returns [OF accepting_progress])

section \<open>The transports\<close>

text \<open>
  C37. Sending a message to an Android accessory writes the message on its OUT endpoint, byte
  for byte, when it reports success, a prefix of it otherwise; and it returns when libusb makes
  progress. So cutting the message to keep clear of zero-length packets loses and repeats nothing.
\<close>

theorem accessory_send:
  assumes "bulk_progress E"
  shows "\<exists>r tr'. aoa_SendProPackage E d data tr = Some (r, tr') \<and> clean tr tr' \<and>
    (\<exists>n \<le> length data. sent (ui_osPriv d) (ui_ep_out d) tr' = sent (ui_osPriv d) (ui_ep_out d) tr @ take n data \<and>
      (r = EUSTOR_OK \<longrightarrow> n = length data))"
proof -
  obtain r tr' where run: "aoa_SendProPackage E d data tr = Some (r, tr')"
    using aoa_send_total [OF assms] by blast
  from aoa_send_delivers [OF run] run show ?thesis by (auto simp: delivers_def wrote_def)
qed

theorem accessory_send_witness:
  "\<exists>r tr'. aoa_SendProPackage accepting usb1 (zeros 512) [] = Some (r, tr') \<and> clean [] tr'"
  using accessory_send [OF accepting_progress, of usb1 "zeros 512" "[]"] by blast

text \<open>
  C4. A message sent over the mux protocol of the iPhone reaches the peer whole: what is written on
  the wire is a sequence of frames, each with its mux header's length, and nothing behind them; all are
  acknowledgement segments in sequence from the connection's \<open>tx_seq\<close>, whose payloads concatenate to the
  message. The caller's first 24 bytes survive the headers written in place before each part, whether
  the send succeeds or not. This holds on a connection with its invariant, for a message in a buffer that
  has the 36 reserved bytes before it.
\<close>

theorem itunes_send_carries:
  assumes "itunes_SendProPackage E dev mem off n tr = Some (r, dev', mem', tr')"
    and "mux_inv dev" "36 \<le> off" "off + n \<le> length mem"
  shows "peek mem' off 24 = peek mem off 24 \<and>
    (r = EUSTOR_OK \<longrightarrow> mx_tx_seq dev' = mx_tx_seq dev + of_nat n \<and>
      (\<exists>bs. wrote (ui_osPriv (mx_usbIOS dev)) (ui_ep_out (mx_usbIOS dev)) tr tr' bs \<and>
         concat (map snd (demux (mx_version dev) bs)) = peek mem off n \<and>
         in_sequence (mx_tx_seq dev) (demux (mx_version dev) bs) \<and>
         list_all (\<lambda>(th, p). th_flags th = TH_ACK) (demux (mx_version dev) bs) \<and>
         length bs = sum_list (map (\<lambda>(th, p). mux_header_size (mx_version dev) + tcphdr_size + length p)
           (demux (mx_version dev) bs))))"
  using send_pro_contract [OF assms] by (auto simp: carries_def)

theorem itunes_send_carries_witness:
  "\<exists>dev' mem' tr'. itunes_SendProPackage accepting (ios1 (zeros IOS_INTERBUF_SIZE)) (zeros 60) 36 24 [] =
     Some (EUSTOR_OK, dev', mem', tr') \<and> mx_tx_seq dev' = 25"
proof -
  have run: "\<exists>dev' mem' tr'. itunes_SendProPackage accepting (ios1 (zeros IOS_INTERBUF_SIZE)) (zeros 60) 36 24 [] =
     Some (EUSTOR_OK, dev', mem', tr')"
    by (simp add: eval_mem eval_call eval_usb eval_mux ios1_def mux_itunes0_def Let_def)
  have inv: "mux_inv (ios1 (zeros IOS_INTERBUF_SIZE))" by (simp add: mux_inv_def ios1_def mux_itunes0_def)
  from run itunes_send_carries [OF _ inv] show ?thesis by (fastforce simp: ios1_def mux_itunes0_def zeros_def)
qed

text \<open>
  C3. Receiving over the mux protocol is the inverse of sending: when the input consumed is a frame of the peer
  whose payload fits the caller's buffer, on a connection with its invariant,
  its payload is stored in the caller's buffer and nowhere else, its size is reported, the
  sequence numbers are taken from the segment, and what is written on the wire is nothing for an empty
  payload, and otherwise a prefix of one frame without payload: the acknowledgement segment with the
  connection's ports, window, sequence number and, as the code sends it before it counts the payload,
  the acknowledgement number from before. It is only a prefix because the result of that send is ignored.
\<close>

theorem itunes_receive_demux:
  assumes "itunes_RecvProPackage E dev mem off tsize tr = Some (EUSTOR_OK, dev', mem', n, tr')"
    and "mux_inv dev"
    and "got (ui_osPriv (mx_usbIOS dev)) (ui_ep_in (mx_usbIOS dev)) tr' =
      got (ui_osPriv (mx_usbIOS dev)) (ui_ep_in (mx_usbIOS dev)) tr @ g"
    and "demux (mx_version dev) g = (th, p) # rest" "off + length p \<le> length mem"
  shows "th_flags th = TH_ACK \<and> n = Some (of_nat (length p)) \<and> mem' = poke mem off p \<and>
    mx_tx_ack dev' = mx_tx_ack dev + of_nat (length p) \<and>
    mx_rx_seq dev' = ntohl (th_seq th) \<and> mx_rx_ack dev' = ntohl (th_ack th) \<and>
    (\<exists>i k. wrote (ui_osPriv (mx_usbIOS dev)) (ui_ep_out (mx_usbIOS dev)) tr tr'
       (if p = [] then [] else take k (tcp_frame (dev\<lparr>mx_irx_seq := i\<rparr>) TH_ACK [])))"
  using recv_ok [OF assms(1) mux_inv_buf [OF assms(2)] assms(3-5)] by blast

theorem itunes_receive_demux_witness:
  "\<exists>dev' tr'. itunes_RecvProPackage (replay [answer0\<lparr>a_data := frame1\<rparr>, answer0\<lparr>a_num := 64\<rparr>])
     (ios1 (zeros IOS_INTERBUF_SIZE)) (zeros 8) 1 7 [] = Some (EUSTOR_OK, dev', poke (zeros 8) 1 [1, 2, 3, 4], Some 4, tr')"
proof -
  let ?E = "replay [answer0\<lparr>a_data := frame1\<rparr>, answer0\<lparr>a_num := 64\<rparr>]" and ?d = "ios1 (zeros IOS_INTERBUF_SIZE)"
  have run: "\<exists>d m k t. itunes_RecvProPackage ?E (ios1 buf) (zeros 8) 1 7 [] = Some (EUSTOR_OK, d, m, k, t) \<and>
      got 1 0x81 t = frame1" if "length buf = IOS_INTERBUF_SIZE" for buf
    using that by (simp add: eval_mem eval_call eval_usb eval_mux ios1_def mux_itunes0_def frame1_def Let_def)
  obtain d m k t where r: "itunes_RecvProPackage ?E ?d (zeros 8) 1 7 [] = Some (EUSTOR_OK, d, m, k, t)" "got 1 0x81 t = frame1"
    using run [of "zeros IOS_INTERBUF_SIZE"] by auto
  have f: "demux (mx_version ?d) frame1 = [(dec_tcphdr (drop 16 frame1), [1, 2, 3, 4])]"
    by (simp add: demux.simps dec_mux_header_def eval_mem mux_header_size_def frame1_def ios1_def Let_def)
  have inv: "mux_inv ?d" by (simp add: mux_inv_def ios1_def mux_itunes0_def)
  from itunes_receive_demux [OF r(1) inv _ f] r show ?thesis
    by (simp add: ios1_def)
qed

text \<open>
  C20. A receive that fails leaves the caller's buffer as it was and reports no size; when the peer
  reset the connection the sequence numbers are cleared, so that the next connection starts from
  zero.
\<close>

theorem itunes_receive_refused:
  assumes "itunes_RecvProPackage E dev mem off tsize tr = Some (r, dev', mem', n, tr')"
    and "mux_inv dev" "r \<noteq> EUSTOR_OK"
  shows "mem' = mem \<and> n = None \<and>
    (r = EUSTOR_PRO_REFUSE \<longrightarrow> mx_tx_seq dev' = 0 \<and> mx_tx_ack dev' = 0 \<and> mx_rx_ack dev' = 0 \<and> mx_rx_win dev' = 0)"
  by (rule recv_refused [OF assms(1) mux_inv_buf [OF assms(2)] assms(3)])

theorem itunes_receive_refused_witness:
  "\<exists>dev' tr'. itunes_RecvProPackage (replay [answer0\<lparr>a_data := frame1[29 := 4]\<rparr>, answer0\<lparr>a_ret := -7\<rparr>])
     (ios1 (zeros IOS_INTERBUF_SIZE)) (zeros 8) 1 7 [] = Some (EUSTOR_PRO_REFUSE, dev', zeros 8, None, tr') \<and>
     mx_tx_seq dev' = 0"
proof -
  let ?E = "replay [answer0\<lparr>a_data := frame1[29 := 4]\<rparr>, answer0\<lparr>a_ret := -7\<rparr>]" and ?d = "ios1 (zeros IOS_INTERBUF_SIZE)"
  have run: "\<exists>d m k t. itunes_RecvProPackage ?E (ios1 buf) (zeros 8) 1 7 [] = Some (EUSTOR_PRO_REFUSE, d, m, k, t)"
    if "length buf = IOS_INTERBUF_SIZE" for buf
    using that by (simp add: eval_mem eval_call eval_usb eval_mux itunes_ResetReceive_def reset_receive_loop.simps
        ios1_def mux_itunes0_def frame1_def Let_def)
  obtain d m k t where r: "itunes_RecvProPackage ?E ?d (zeros 8) 1 7 [] = Some (EUSTOR_PRO_REFUSE, d, m, k, t)"
    using run [of "zeros IOS_INTERBUF_SIZE"] by auto
  have inv: "mux_inv ?d" by (simp add: mux_inv_def ios1_def mux_itunes0_def)
  from itunes_receive_refused [OF r inv] r show ?thesis by simp
qed

text \<open>
  C18. Connecting to the iPhone is the three-way handshake: a successful connect agreed on version 1
  or 2, wrote exactly a SYN and then an acknowledgement, whose sequence numbers are one apart, and
  leaves the connection expecting the numbers that follow. A connection without a version starts
  from zero.
\<close>

theorem connect_handshake:
  assumes "LINUX_ConnectIOSPhone E tcport iport dev tr = Some (EUSTOR_OK, tcport', dev', tr')" "mux_inv dev"
  shows "mx_version dev' \<in> {1, 2} \<and> (\<exists>tr1 syn ack. clean tr tr1 \<and>
     wrote (ui_osPriv (mx_usbIOS dev)) (ui_ep_out (mx_usbIOS dev)) tr1 tr'
       (tcp_frame syn TH_SYN [] @ tcp_frame ack TH_ACK []) \<and>
     (mx_version dev \<in> {1, 2} \<and> tr1 = tr \<and> mx_tx_seq syn = mx_tx_seq dev \<or>
      mx_version dev \<notin> {1, 2} \<and> mx_tx_seq syn = 0) \<and>
     mx_tx_seq ack = mx_tx_seq syn + 1 \<and> mx_tx_ack ack = mx_tx_ack syn + 1 \<and>
     mx_tx_seq dev' = mx_tx_seq ack \<and> mx_tx_ack dev' = mx_tx_ack ack)"
  using connect_ok [OF assms(1) mux_inv_buf [OF assms(2)]] unfolding handshake_def by (fastforce split: if_splits)

theorem connect_handshake_witness:
  "\<exists>port dev' tr'. LINUX_ConnectIOSPhone peer_accepts 1 5 (mux_itunes0\<lparr>mx_usbIOS := usb1\<rparr>) [] = Some (EUSTOR_OK, port, dev', tr') \<and>
     mx_version dev' \<in> {1, 2} \<and> mx_tx_seq dev' = 1"
proof -
  have run: "\<exists>port dev' tr'. LINUX_ConnectIOSPhone peer_accepts 1 5 (mux_itunes0\<lparr>mx_usbIOS := usb1, mx_interBuf := buf\<rparr>) [] =
      Some (EUSTOR_OK, port, dev', tr') \<and> mx_tx_seq dev' = 1 \<and> mx_version dev' \<in> {1, 2}" if "length buf = IOS_INTERBUF_SIZE" for buf
    using that by (simp add: LINUX_ConnectIOSPhone_def itunes_getIOSProVersion_def fresh_conn_def find_sport_def version_reply_def
        connect_reply_def itunes_InterMemSendPacket_def send_whole_def reset_seqs_def
        eval_mem eval_call eval_usb eval_mux mux_itunes0_def peer_accepts_def Let_def)
  let ?d = "mux_itunes0\<lparr>mx_usbIOS := usb1\<rparr>"
  have "?d = mux_itunes0\<lparr>mx_usbIOS := usb1, mx_interBuf := zeros IOS_INTERBUF_SIZE\<rparr>" by (simp add: mux_itunes0_def)
  then obtain port dev' tr' where r: "LINUX_ConnectIOSPhone peer_accepts 1 5 ?d [] = Some (EUSTOR_OK, port, dev', tr')"
      "mx_tx_seq dev' = 1" using run [of "zeros IOS_INTERBUF_SIZE"] by auto
  have "mux_inv ?d" by (simp add: mux_inv_def mux_itunes0_def)
  from connect_handshake [OF r(1) this] r show ?thesis by blast
qed

text \<open>
  C19. The state of a mux connection keeps its invariant (the packet buffer has its size, the peer's
  window is a multiple of 256) under every operation that uses it, whatever the peer sends, and the
  caller's buffer keeps its length.
\<close>

theorem mux_invariant:
  assumes "mux_inv dev"
  shows "(\<forall>r dev' mem' tr'. itunes_SendProPackage E dev mem off n tr = Some (r, dev', mem', tr') \<longrightarrow>
      mux_inv dev' \<and> mx_usbIOS dev' = mx_usbIOS dev \<and> length mem' = length mem) \<and>
    (\<forall>r dev' mem' k tr'. itunes_RecvProPackage E dev mem off n tr = Some (r, dev', mem', k, tr') \<longrightarrow>
      mux_inv dev' \<and> mx_usbIOS dev' = mx_usbIOS dev \<and> length mem' = length mem) \<and>
    (\<forall>r port port' dev' tr'. LINUX_ConnectIOSPhone E port iport dev tr = Some (r, port', dev', tr') \<longrightarrow>
      mux_inv dev' \<and> mx_usbIOS dev' = mx_usbIOS dev)"
  using assms by (auto dest: send_pro_inv recv_pro_inv connect_inv)

theorem mux_invariant_witness:
  "\<exists>r dev' mem' tr'. itunes_SendProPackage accepting (ios1 (zeros IOS_INTERBUF_SIZE)) (zeros 60) 36 24 [] =
     Some (r, dev', mem', tr') \<and> mux_inv dev' \<and> length mem' = 60"
proof -
  have inv: "mux_inv (ios1 (zeros IOS_INTERBUF_SIZE))" by (simp add: mux_inv_def ios1_def mux_itunes0_def)
  have "\<exists>r dev' mem' tr'. itunes_SendProPackage accepting (ios1 (zeros IOS_INTERBUF_SIZE)) (zeros 60) 36 24 [] =
     Some (r, dev', mem', tr')"
    by (simp add: eval_mem eval_call eval_usb eval_mux ios1_def mux_itunes0_def Let_def)
  with mux_invariant [OF inv, of accepting "zeros 60" 36 24 "[]"] show ?thesis by fastforce
qed

text \<open>
  C39. Over either transport, a response that is sent with success reaches the phone as its header
  followed by the payload that lies behind it in the buffer; whether it succeeds or not, the phone
  can be used on and the buffer has its length and the response's header.
\<close>

theorem response_reaches_phone:
  assumes "usProtocol_SendPackage E p (poke mem off (enc_fsOnDev h)) off n tr = Some (r, p', mem', tr')"
    and "phone_ready p" "36 \<le> off" "24 \<le> n" "off + n \<le> length mem"
  shows "phone_kept p p' \<and> length mem' = length mem \<and> hdr_at mem' off = h \<and>
    (r = EUSTOR_OK \<longrightarrow> phone_carried p tr tr' (enc_fsOnDev h @ peek mem (off + 24) (n - 24)))"
proof -
  have l: "length (poke mem off (enc_fsOnDev h)) = length mem" using assms by (simp add: length_poke)
  have "hdr_at mem' off = h"
    using phone_tp.header_kept [OF assms(1,2,3)] assms l
    by (simp add: hdr_at_def fs_on_dev.dec_poke)
  then show ?thesis
    using send_kept [OF assms(1,2)] phone_tp.response_carried [of E p mem off h n tr p' mem' tr'] assms l by auto
qed

theorem response_reaches_phone_witness:
  "\<exists>p' mem' tr'. usProtocol_SendPackage accepting android1 (poke (zeros 64) 36 (enc_fsOnDev (hdr_at (zeros 24) 0))) 36 28 [] =
     Some (EUSTOR_OK, p', mem', tr') \<and> phone_kept android1 p'"
proof -
  let ?m = "poke (zeros 64) 36 (enc_fsOnDev (hdr_at (zeros 24) 0))"
  have "length ?m = 64" by (simp add: length_poke zeros_def)
  then have "\<exists>p' mem' tr'. usProtocol_SendPackage accepting android1 ?m 36 28 [] = Some (EUSTOR_OK, p', mem', tr')"
    by (auto simp: usProtocol_SendPackage_def android1_def aoa_SendProPackage_def aoa_send_loop.simps accepting_send fault_if_def Let_def
        usPhoneinfo0_def mux_itunes0_def peek_def)
  with response_reaches_phone [OF _ android1_ready, of accepting "zeros 64" 36 "hdr_at (zeros 24) 0" 28 "[]"]
  show ?thesis by (fastforce simp: zeros_def)
qed

text \<open>
  C38. Detecting a phone when none is held: on success the phone is an iPhone or an Android accessory whose interface has an
  OUT and an IN endpoint, and but for its type and its USB device the state of the phone is the
  initial one, whatever an earlier phone left in it: zero sequence numbers, no version, no ports, a
  zeroed buffer. Its device handle is the only libusb resource left open. On failure there is no phone and
  every handle, descriptor and list that was opened on the way has been given back.
\<close>

theorem phone_detected:
  assumes "usProtocol_PhoneDetect E conf phone tr = (r, phone', tr')" "phoneType phone = 0"
  shows "if r = EUSTOR_OK
    then \<exists>d. usable (phoneType phone') d \<and> holds tr {#ui_osPriv d#} 0 tr' \<and>
      phone' = (if phoneType phone' = PRO_ANDROID then usPhoneinfo0\<lparr>phoneType := PRO_ANDROID, phoneAndroid := d\<rparr>
        else usPhoneinfo0\<lparr>phoneType := PRO_IOS, phoneIOS := mux_itunes0\<lparr>mx_usbIOS := d\<rparr>\<rparr>)
    else r \<in> {EUSTOR_PRO_LIST, EUSTOR_PRO_NODEVICE} \<and> phone' = usPhoneinfo0 \<and> holds tr {#} 0 tr'"
  by (rule detect_result [OF assms])

theorem phone_detected_witness:
  "\<exists>p tr. usProtocol_PhoneDetect accessory_bus globalConf0 usPhoneinfo0 [] = (EUSTOR_OK, p, tr) \<and>
     phoneType p = PRO_ANDROID \<and> handles tr = {#5#} \<and> descs tr = 0"
proof -
  have n: "phoneType usPhoneinfo0 = 0" by simp
  have "fst (usProtocol_PhoneDetect accessory_bus globalConf0 usPhoneinfo0 []) = EUSTOR_OK \<and>
      phoneType (fst (snd (usProtocol_PhoneDetect accessory_bus globalConf0 usPhoneinfo0 []))) = PRO_ANDROID \<and>
      ui_osPriv (phoneAndroid (fst (snd (usProtocol_PhoneDetect accessory_bus globalConf0 usPhoneinfo0 [])))) = 5"
    by (simp add: usProtocol_PhoneDetect_def usProtocol_PhoneRelease_def try_device_def claim_phone_def phone_type_def
        set_config_def is_out_def endpoint_def LINUX_USBPowerControl_def eval_call accessory_bus_def usPhoneinfo0_def Let_def)
  then obtain p t where r: "usProtocol_PhoneDetect accessory_bus globalConf0 usPhoneinfo0 [] = (EUSTOR_OK, p, t)"
    "phoneType p = PRO_ANDROID" "ui_osPriv (phoneAndroid p) = 5"
    by (metis fst_conv snd_conv surj_pair)
  from phone_detected [OF r(1) n] r(2) obtain d where d: "holds [] {#ui_osPriv d#} 0 t"
      "p = usPhoneinfo0\<lparr>phoneType := PRO_ANDROID, phoneAndroid := d\<rparr>" by auto
  then have "ui_osPriv d = 5" using r(3) by simp
  then show ?thesis using r(1,2) d(1) by (auto simp: holds_def handles_def descs_def)
qed

section \<open>The disk manager's socket\<close>

text \<open>
  C33. An exchange with the disk manager that yields a reply wrote exactly the request on one
  socket and read exactly the reply from it, whose length is the header's 12 bytes and what the
  header announces, and closed the socket last; no bad memory access was made.
\<close>

theorem exchange_ok:
  assumes "stor_ipc_double_duplex E req tr = (r, Some (p, bs), tr')"
  shows "\<exists>fd. clean tr tr' \<and> written fd tr' = written fd tr @ req \<and> read_in fd tr' = read_in fd tr @ bs \<and>
    r = 0 \<and> int (length bs) = 12 + sint (ih_len (dec_ipc_header bs)) \<and> last (calls tr') = File (CloseFd fd)"
  by (rule double_duplex_ok [OF assms])

theorem exchange_ok_witness:
  "\<exists>p tr'. stor_ipc_double_duplex (serving (enc_ipc_header \<lparr>ih_msg = 5, ih_len = 2, ih_direction = 0\<rparr> @ [8, 9]) []) [1] [] =
     (0, Some (p, enc_ipc_header \<lparr>ih_msg = 5, ih_len = 2, ih_direction = 0\<rparr> @ [8, 9]), tr') \<and> faults tr' = []"
proof -
  obtain p tr' where r: "stor_ipc_double_duplex (serving (enc_ipc_header \<lparr>ih_msg = 5, ih_len = 2, ih_direction = 0\<rparr> @ [8, 9]) []) [1] [] =
     (0, Some (p, enc_ipc_header \<lparr>ih_msg = 5, ih_len = 2, ih_direction = 0\<rparr> @ [8, 9]), tr')"
    using manager_exchange [OF refl, of "\<lparr>ih_msg = 5, ih_len = 2, ih_direction = 0\<rparr>" "[8, 9]" "[1]" "[]"] by auto
  from exchange_ok [OF this] r show ?thesis by (auto simp: clean_def)
qed

text \<open>
  C21. The disk list the phone asks for: when the disk manager's reply lists mounted disks that the
  buffer has room for, the buffer's count is raised by their number and the nodes behind it decode
  to those disks in their order; the size reported is that of the count and the nodes.
\<close>

theorem disk_lun_listed:
  assumes "disk_request E MSG_DISK_DISKLIST tr = (Some (p, enc_ipc_header h @ concat (map enc_disklist ds)), t1)"
    and "ih_direction h \<noteq> 1" "sint (ih_len h) = int (disklist_size * length ds)"
    and "\<forall>d\<in>set ds. wf_disklist d \<and> dl_status d = DISK_MOUNTED"
    and "2 + 18 * int (length ds) \<le> bsize" "off + nat bsize \<le> length mem"
  shows "\<exists>mem' tr'. disk_getdisk_lun E mem off bsize tr =
      Some (DISK_SUCCESS, mem', Some (2 + 18 * int (length ds)), tr') \<and>
    length mem' = length mem \<and> get16 mem' off = get16 mem off + of_nat (length ds) \<and>
    dec_array dec_diskPlugNode 18 (length ds) (drop (off + 2) mem') = map plug_node ds"
  by (rule disk_lun_ok [OF assms])

theorem disk_lun_listed_witness:
  "\<exists>E mem' tr'. disk_getdisk_lun E (zeros 40) 0 40 [] = Some (DISK_SUCCESS, mem', Some 20, tr') \<and> get16 mem' 0 = 1"
proof -
  have s: "sint (ih_len (lun_header 1)) = int (disklist_size * length [disk1])" by (simp add: lun_header_def)
  have "length (concat (map enc_disklist [disk1])) = disklist_size" using disk1_wf by (simp add: disklist_st.length_enc)
  then obtain p t where q: "disk_request (serving (enc_ipc_header (lun_header 1) @ concat (map enc_disklist [disk1])) []) MSG_DISK_DISKLIST [] =
      (Some (p, enc_ipc_header (lun_header 1) @ concat (map enc_disklist [disk1])), t)"
    using manager_request [of "lun_header 1" "concat (map enc_disklist [disk1])" MSG_DISK_DISKLIST] s by auto
  have d: "ih_direction (lun_header 1) \<noteq> 1" by (simp add: lun_header_def)
  have "get16 (zeros 40) 0 = 0" by (simp add: eval_mem)
  with disk_lun_listed [OF q d s, of 40 0 "zeros 40"] disk1_wf show ?thesis by auto
qed

text \<open>
  C22. One disk that is not mounted makes the same operation hang: after any number of mounted
  disks that fit the buffer, a disk with another status is looked at for ever, and \<open>disk_getdisk_lun\<close>
  does not return.
\<close>

theorem disk_lun_hangs:
  assumes "disk_request E MSG_DISK_DISKLIST tr = (Some (p, enc_ipc_header h @ concat (map enc_disklist ds) @ enc_disklist d @ rest), t1)"
    and "ih_direction h \<noteq> 1" "int (disklist_size * length ds) < sint (ih_len h)"
    and "\<forall>d\<in>set ds. wf_disklist d \<and> dl_status d = DISK_MOUNTED" "wf_disklist d" "dl_status d \<noteq> DISK_MOUNTED"
    and "2 + 18 * int (length ds) \<le> bsize"
  shows "disk_getdisk_lun E mem off bsize tr = None"
proof -
  let ?reply = "(p, enc_ipc_header h @ concat (map enc_disklist ds) @ enc_disklist d @ rest)"
  have "disk_lun_loop E ?reply mem off bsize 0 0 (bsize - 2) t1 = None"
    by (rule lun_loop_none [where d = d and ds = ds and rest = rest])
      (use assms in \<open>simp_all add: ipc_hd.length_enc ipc_hd.dec_enc_append\<close>)
  then show ?thesis using assms by (simp add: disk_getdisk_lun_def ipc_hd.dec_enc_append)
qed

theorem disk_lun_hangs_witness: "\<exists>E. disk_getdisk_lun E (zeros 40) 0 40 [] = None"
proof -
  let ?d = "disk1\<lparr>dl_status := 2\<rparr>"
  have w: "wf_disklist ?d" "dl_status ?d \<noteq> DISK_MOUNTED" using disk1_wf by (simp_all add: wf_disklist_def)
  then have "sint (ih_len (lun_header 1)) = int (length (concat (map enc_disklist []) @ enc_disklist ?d @ []))"
    by (simp add: lun_header_def disklist_st.length_enc)
  from manager_request [OF this, of MSG_DISK_DISKLIST] obtain p t where
    q: "disk_request (serving (enc_ipc_header (lun_header 1) @ concat (map enc_disklist []) @ enc_disklist ?d @ []) []) MSG_DISK_DISKLIST [] =
      (Some (p, enc_ipc_header (lun_header 1) @ concat (map enc_disklist []) @ enc_disklist ?d @ []), t)" by auto
  have "disk_getdisk_lun (serving (enc_ipc_header (lun_header 1) @ concat (map enc_disklist []) @ enc_disklist ?d @ []) [])
      (zeros 40) 0 40 [] = None"
    by (rule disk_lun_hangs [OF q]) (use w in \<open>simp_all add: lun_header_def\<close>)
  then show ?thesis by blast
qed

section \<open>Files\<close>

text \<open>
  C23. Reading part of a file: when the file behind the descriptor holds \<open>content\<close> from the offset on
  and reads are not interrupted, the read returns, and a success means that the caller got the
  first \<open>n\<close> bytes of it, or all of it when it is shorter and the caller asked for the true
  count, however short the single reads were.
\<close>

theorem disk_read_returns_content:
  assumes "serves E (fst (disk_opened E filename O_RDONLY offset tr)) content (snd (disk_opened E filename O_RDONLY offset tr))"
    and "0 < n" "n < 2 ^ 31" "no_retry E"
  shows "\<exists>r data t tr'. usDisk_diskRead E filename offset n trueRead tr = Some (r, data, t, tr') \<and>
    r \<in> {EUSTOR_OK, EUSTOR_ARG, EUSTOR_DISK_OPEN, EUSTOR_DISK_SEEK, EUSTOR_DISK_READ} \<and>
    (r = EUSTOR_OK \<longrightarrow> data = take (nat n) content \<and> t = (if trueRead then Some (int (length data)) else None) \<and>
      (\<not> trueRead \<longrightarrow> int (length data) = n))"
proof -
  obtain r data t tr' where run: "usDisk_diskRead E filename offset n trueRead tr = Some (r, data, t, tr')"
    using disk_read_total [OF assms(4)] assms(2) by (metis less_imp_le prod_cases4)
  from disk_read_ok [OF run assms(1-3)] run show ?thesis by blast
qed

theorem disk_read_returns_content_witness:
  "\<exists>r data t tr'. usDisk_diskRead (serving [1, 2, 3, 4, 5] []) (str ''/f'') 0 3 True [] = Some (r, data, t, tr') \<and>
     (r = EUSTOR_OK \<longrightarrow> data = [1, 2, 3])"
proof -
  have "serves (serving [1, 2, 3, 4, 5] []) 3 [1, 2, 3, 4, 5] (snd (disk_opened (serving [1, 2, 3, 4, 5] []) (str ''/f'') O_RDONLY 0 []))"
    by (rule serving_serves) (simp add: serving_opened)
  then show ?thesis
    using disk_read_returns_content [of "serving [1, 2, 3, 4, 5] []" "str ''/f''" 0 "[]" "[1, 2, 3, 4, 5]" 3 True] serving_no_retry
    by (fastforce simp: serving_opened)
qed

text \<open>
  C24. Writing part of a file: when writes are not interrupted and take something, the write returns;
  a success means that the bytes of the buffer were written in order to the opened descriptor, all
  \<open>n\<close> of them unless the caller asked for the true count, and then as many as it was told. The
  buffer is not read outside its bounds.
\<close>

theorem disk_write_writes:
  assumes "0 < n" "n < 2 ^ 31" "off + nat n \<le> length mem" "write_progress E"
  shows "\<exists>r t tr'. usDisk_diskWrite E filename mem off offset n trueWrite tr = Some (r, t, tr') \<and> clean tr tr' \<and>
    (r = EUSTOR_OK \<longrightarrow> (let (fd, tr1) = disk_opened E filename O_RDWR offset tr; k = (case t of Some k \<Rightarrow> k | None \<Rightarrow> n) in
      k \<le> n \<and> trueWrite = (t \<noteq> None) \<and> written fd tr' = written fd tr1 @ peek mem off (nat k)))"
proof -
  obtain r t tr' where run: "usDisk_diskWrite E filename mem off offset n trueWrite tr = Some (r, t, tr')"
    using disk_write_total [OF assms(4) _ assms(2,3)] assms(1) by (metis less_imp_le prod_cases3)
  from disk_write_ok [OF run assms(1-3)] run show ?thesis by blast
qed

theorem disk_write_writes_witness:
  "\<exists>r t tr'. usDisk_diskWrite (serving [] []) (str ''/f'') [7, 8, 9] 1 0 2 False [] = Some (r, t, tr') \<and> clean [] tr'"
  using disk_write_writes [of 2 1 "[7, 8, 9]" "serving [] []" "str ''/f''" 0 False "[]"] serving_progress by fastforce

section \<open>Disk changes\<close>

text \<open>
  A disk change that the event thread reports is kept in the notification slot until it is
  taken, with the device's name and the direction, and it is taken once: a second look finds
  nothing.
\<close>

theorem change_notified_once:
  assumes "length (cstr dev) < 16" "notify_wf s"
  shows "\<exists>v s' tr''. usDisk_getNotifyInfo E (fst (usDisk_PlugCallBack E action dev s tr)) tr' = (EUSTOR_OK, Some v, s', tr'') \<and>
    cstr (nf_dev v) = cstr dev \<and> nf_event v = (if action = 4 then DISK_PLUGIN else DISK_PLUGOUT) \<and>
    fst (snd (usDisk_getNotifyInfo E s' tr'')) = None"
proof -
  let ?g = "usDisk_getNotifyInfo E (fst (usDisk_PlugCallBack E action dev s tr)) tr'"
  obtain r v s' tr'' where g: "?g = (r, Some v, s', tr'')"
    "cstr (nf_dev v) = cstr dev" "nf_event v = (if action = 4 then DISK_PLUGIN else DISK_PLUGOUT)"
    using notify_plug [OF assms(1), of s E E action tr tr'] assms(2) unfolding notify_wf_def by (metis fst_conv snd_conv surj_pair)
  moreover have "r = EUSTOR_OK" using g(1) by (auto simp: usDisk_getNotifyInfo_def Let_def case_prod_beta)
  ultimately show ?thesis using notify_once [OF g(1)] by auto
qed

theorem change_notified_once_witness:
  "\<exists>v s' tr''. usDisk_getNotifyInfo accepting (fst (usDisk_PlugCallBack accepting 4 (str ''sda'') notify0 [])) [] =
     (EUSTOR_OK, Some v, s', tr'') \<and> cstr (nf_dev v) = str ''sda''"
  using change_notified_once [of "str ''sda''" notify0 accepting 4 "[]" "[]"] by (fastforce simp: str_def cstr_def)

section \<open>Checksums\<close>

text \<open>
  C32. The table-driven CRC of the license block is the bitwise CRC-32 with the reflected polynomial
  0xEDB88320, from any start value.
\<close>

theorem crc_is_bitwise: "crc32 v s = fold (\<lambda>b v. crc_byte v b) s v"
  by (rule crc32_bitwise)

text \<open>
  C8. The MD5 routines compute the digest of the reference, the block function over the padded
  message with its length in bits, of everything that was fed to them, however it was cut.
\<close>

theorem md5_of_chunks:
  assumes "length (md_buffer ctx) = 64" "\<forall>c\<in>set chunks. length c < 2 ^ 32"
  shows "snd (MD5Final (fold (\<lambda>c ctx. MD5Update ctx c) chunks (MD5Init ctx))) = md5 (concat chunks)"
proof -
  have "md5_rep (fold (\<lambda>c ctx. MD5Update ctx c) cs c0) (m @ concat cs)"
    if "md5_rep c0 m" "\<forall>c\<in>set cs. length c < 2 ^ 32" for c0 m cs
    using that
  proof (induction cs arbitrary: c0 m)
    case (Cons c cs)
    then show ?case using md5_update_rep [of c0 m c] Cons.IH [of "MD5Update c0 c" "m @ c"] by simp
  qed simp
  from md5_final [OF this [OF md5_init_rep [OF assms(1)] assms(2)]] show ?thesis by simp
qed

theorem md5_of_chunks_witness:
  "snd (MD5Final (fold (\<lambda>c ctx. MD5Update ctx c) [] (MD5Init ctx0))) =
     [0xd4, 0x1d, 0x8c, 0xd9, 0x8f, 0x00, 0xb2, 0x04, 0xe9, 0x80, 0x09, 0x98, 0xec, 0xf8, 0x42, 0x7e]"
  using md5_of_chunks [of ctx0 "[]"] md5_empty by (simp add: ctx0_def zeros_def)

text \<open>
  C31. The checksum of a file is that of the content behind the descriptor: when \<open>compute_md5\<close> succeeds,
  the string it yields is the digest of \<open>content\<close> in lower-case hexadecimal.
\<close>

theorem file_checksum:
  assumes "compute_md5 E c filename offset tr = Some (0, md5str, tr')" "length (md_buffer c) = 64"
    and "serves E (fst (md5_opened E filename offset tr)) content (snd (md5_opened E filename offset tr))"
  shows "md5str = hex (md5 content) \<and> length md5str = 32"
proof -
  have "length (hex bs) = 2 * length bs" for bs by (induction bs) (simp_all add: hex_def)
  moreover have "length (md5 content) = 16" by (simp add: md5_def MD5Encode_def state_words_def split: prod.split)
  ultimately show ?thesis using compute_md5_ok [OF assms] by simp
qed

theorem file_checksum_witness:
  "\<exists>t s. compute_md5 (serving [] []) ctx0 (str ''/f'') 0 [] = Some (0, s, t) \<and> s = hex (md5 []) \<and> length s = 32"
proof -
  obtain t where r: "compute_md5 (serving [] []) ctx0 (str ''/f'') 0 [] = Some (0, str ''d41d8cd98f00b204e9800998ecf8427e'', t)"
    using empty_checksum [of "[]"] by (simp, blast)
  have l: "length (md_buffer ctx0) = 64" by (simp add: ctx0_def zeros_def)
  have "serves (serving [] []) (fst (md5_opened (serving [] []) (str ''/f'') 0 [])) [] (snd (md5_opened (serving [] []) (str ''/f'') 0 []))"
    by (simp add: md5_opened_serving serving_serves)
  from file_checksum [OF r l this] have "str ''d41d8cd98f00b204e9800998ecf8427e'' = hex (md5 []) \<and>
      length (str ''d41d8cd98f00b204e9800998ecf8427e'') = 32" .
  with r show ?thesis by blast
qed

section \<open>Firmware\<close>

text \<open>
  C9. The upgrade script is started only for an image whose checksum is the one it declares: when the
  upgrade reports success, the last that it did was to open the image, to read at most ten lines of
  its head up to the first that starts with MD5=, to close it, and to start the script on the image;
  no command was run before, and the value of the last line it read is the digest of the image
  from its offset on, in whatever case. Otherwise no command was run. The digest is that of \<open>content\<close>, which
  the descriptor of the image is assumed to yield to the reads of the checksum.
\<close>

theorem upgrade_only_checked:
  assumes "upgradeFirmware E c firmware tr = Some (r, tr')" "length (md_buffer c) = 64"
    and "serves E (fst (md5_opened E firmware SYS_FIRM_SKIP tr)) content (snd (md5_opened E firmware SYS_FIRM_SKIP tr))"
  shows "\<exists>es. tr' = tr @ es \<and>
    (if r = 0 then \<exists>es0 f as l x y. es = es0 @ upgrade_events firmware f (as @ [l]) x y \<and> no_system es0 \<and>
        length as < 10 \<and> (\<forall>a\<in>set as. \<not> starts_with MD5_FLAG (line_of a)) \<and>
        starts_with MD5_FLAG (line_of l) \<and> strcaseeq (hex (md5 content)) (md5cmp_of (line_of l))
     else r = -1 \<and> no_system es)"
  by (rule upgrade_checked [OF assms])

theorem upgrade_only_checked_witness:
  "\<exists>tr' es0 f as l x y. upgradeFirmware (serving [] (str ''MD5=D41D8CD98F00B204E9800998ECF8427E'' @ [10])) ctx0 (str ''/f'') [] =
     Some (0, tr') \<and> tr' = es0 @ upgrade_events (str ''/f'') f (as @ [l]) x y \<and> starts_with MD5_FLAG (line_of l)"
proof -
  let ?E = "serving [] (str ''MD5=D41D8CD98F00B204E9800998ECF8427E'' @ [10])"
  obtain t where "compute_md5 ?E ctx0 (str ''/f'') SYS_FIRM_SKIP [] = Some (0, str ''d41d8cd98f00b204e9800998ecf8427e'', t)"
    using empty_checksum [of "[]"] by (simp, blast)
  moreover have "starts_with MD5_FLAG (poke (replicate 512 0) 0 (take 510 (str ''MD5=D41D8CD98F00B204E9800998ECF8427E'' @ [10]) @ [0]))"
    by code_simp
  moreover have "strcaseeq (str ''d41d8cd98f00b204e9800998ecf8427e'')
      (md5cmp_of (poke (replicate 512 0) 0 (take 510 (str ''MD5=D41D8CD98F00B204E9800998ECF8427E'' @ [10]) @ [0])))"
    by code_simp
  ultimately have "\<exists>tr'. upgradeFirmware ?E ctx0 (str ''/f'') [] = Some (0, tr')"
    by (simp add: upgradeFirmware_def eval_call Let_def find_md5_line.simps numeral_eq_Suc del: take_append append_take_drop_id)
  then obtain tr' where r: "upgradeFirmware ?E ctx0 (str ''/f'') [] = Some (0, tr')" by blast
  have "\<exists>es. tr' = [] @ es \<and> (if (0::int) = 0 then \<exists>es0 f as l x y. es = es0 @ upgrade_events (str ''/f'') f (as @ [l]) x y \<and>
        no_system es0 \<and> length as < 10 \<and> (\<forall>a\<in>set as. \<not> starts_with MD5_FLAG (line_of a)) \<and>
        starts_with MD5_FLAG (line_of l) \<and> strcaseeq (hex (md5 [])) (md5cmp_of (line_of l))
      else (0::int) = -1 \<and> no_system es)"
    by (rule upgrade_only_checked [OF r]) (simp_all add: ctx0_def zeros_def md5_opened_serving serving_serves)
  then obtain es0 f as l x y where "tr' = es0 @ upgrade_events (str ''/f'') f (as @ [l]) x y" "starts_with MD5_FLAG (line_of l)"
    by (simp only: simp_thms if_True append_Nil) (elim exE conjE, rule that, simp)
  with r show ?thesis by blast
qed

text \<open>
  C29. A firmware image sent in pieces arrives whole: when every piece was accepted, what was written to
  the open image file is the pieces in their order, and the descriptor is still the same.
\<close>

theorem firmware_arrives:
  assumes "firmware_pieces E c fd ps tr = Some (EUSTOR_OK, fd', tr')" "\<forall>p\<in>set ps. length p < 2 ^ 32"
  shows "fd' = fd \<and> written fd tr' = written fd tr @ concat ps"
  using assms
proof (induction ps arbitrary: fd tr)
  case (Cons p ps)
  then obtain fd1 t where r: "usFirmware_FirmwareUP E c fd p 0 (of_nat (length p)) USTOR_FSONDEV_UPDATE_DATA tr = Some (EUSTOR_OK, fd1, t)"
    and rest: "firmware_pieces E c fd1 ps t = Some (EUSTOR_OK, fd', tr')"
    by (auto simp: bind_eq_Some_conv split: if_splits)
  have "unat (of_nat (length p) :: u32) = length p" using Cons.prems(2) by (simp add: unat_of_nat_small)
  with firmware_data_ok [OF r] Cons.IH [OF rest] Cons.prems(2) show ?case by (simp add: peek_def)
qed simp

theorem firmware_arrives_witness:
  "\<exists>tr'. firmware_pieces (serving [] []) ctx0 3 [[1, 2], [3]] [] = Some (EUSTOR_OK, 3, tr') \<and> written 3 tr' = [1, 2, 3]"
proof -
  have "\<exists>tr'. firmware_pieces (serving [] []) ctx0 3 [[1, 2], [3]] [] = Some (EUSTOR_OK, 3, tr')"
    by (simp add: usFirmware_FirmwareUP_def writeFirmware_def firmware_write_loop.simps eval_call Let_def)
  then obtain tr' where r: "firmware_pieces (serving [] []) ctx0 3 [[1, 2], [3]] [] = Some (EUSTOR_OK, 3, tr')" by blast
  from firmware_arrives [OF r] r show ?thesis by simp
qed

text \<open>
  C30. The information block that is put into the buffer: 256 bytes with the card's id, and with the serial
  number and license, cut to their fields, of the block that the last calls read from the flash
  at the license's offset when the CRC behind that block is right; with zeros in their place when it
  is wrong, or the flash could not be opened or read. This holds when no value of the configuration
  file overran its field and the buffer has the size that the caller says.
\<close>

theorem device_info_block:
  assumes "usFirmware_GetInfo E mem off bsize tr = Some (EUSTOR_OK, mem', used, tr')"
    and "faults tr' = faults tr" "off + nat bsize \<le> length mem"
  shows "used = Some 256 \<and> (\<exists>d. length d = 256 \<and> mem' = poke mem off d \<and> cstr (peek d 128 8) = str ''1234567'' \<and>
    (\<exists>es fl blk. tr' = tr @ es @ fl \<and> license_read fl blk \<and> (case blk of
       None \<Rightarrow> peek d 64 32 = replicate 32 0 \<and> peek d 136 120 = replicate 120 0
     | Some info \<Rightarrow> if license_ok info
         then peek d 64 31 = strncpy (peek info 0 32) 31 \<and> peek d 136 119 = strncpy (peek info 32 256) 119
         else peek d 64 32 = replicate 32 0 \<and> peek d 136 120 = replicate 120 0)))"
  by (rule getinfo_ok [OF assms])

theorem device_info_block_witness:
  "\<exists>mem' tr'. usFirmware_GetInfo (serving [] []) (zeros 300) 10 256 [] = Some (EUSTOR_OK, mem', Some 256, tr') \<and> length mem' = 300"
proof -
  have "\<exists>mem' u tr'. usFirmware_GetInfo (serving [] []) (zeros 300) 10 256 [] = Some (EUSTOR_OK, mem', u, tr') \<and> faults tr' = []"
    by (simp add: usFirmware_GetInfo_def firm_lines.simps showSnLicense_def eval_call Let_def length_poke str_def strcpy_def cstr_def)
  then obtain mem' u tr' where r: "usFirmware_GetInfo (serving [] []) (zeros 300) 10 256 [] = Some (EUSTOR_OK, mem', u, tr')"
    "faults tr' = []" by blast
  from device_info_block [OF r(1)] r show ?thesis by (auto simp: length_poke faults_def)
qed

section \<open>Requests for files\<close>

text \<open>
  C5. A read request is answered: the handler returns, and the header in the buffer is the request's
  with either the error code and no payload, or a payload of the first bytes of the file from the
  offset on, which lie in the buffer, as many as were asked for or as the file has.
\<close>

theorem read_request:
  assumes "fs_version (hdr_at mem hp) = PRO_FSONDEV_VER1" "hp + 24 \<le> pp"
    and "info = dec_operation_rw (drop pp mem)" "0 < sint (rw_size info)" "pp + nat (sint (rw_size info)) \<le> length mem"
    and "0 \<le> sint (rw_pathlen info)" "sint (rw_pathlen info) < 4096"
    and "name = take (nat (sint (rw_pathlen info))) (drop (pp + 14) mem)"
    and "disk_opened E name O_RDONLY (sint (rw_offset info)) tr = (fd, t1)" "serves E fd content t1" "no_retry E"
  shows "\<exists>mem' tr'. usDecode_ReadHandle E mem hp pp buffSize tr = Some (EUSTOR_OK, mem', tr') \<and>
    (hdr_at mem' hp = (hdr_at mem hp)\<lparr>fs_len := 0, fs_relag := USTOR_EERR\<rparr> \<or>
     (let data = take (nat (sint (rw_size info))) content in
       hdr_at mem' hp = (hdr_at mem hp)\<lparr>fs_len := of_nat (length data)\<rparr> \<and> peek mem' pp (length data) = data))"
proof -
  obtain path where path: "path_arg mem (pp + 14) (sint (rw_pathlen info)) tr = (path, tr)" "cstr path = cstr name"
    using path_arg_ok [OF assms(6,7), of mem "pp + 14" tr] assms(8) by auto
  have o: "disk_opened E path O_RDONLY (sint (rw_offset info)) tr = (fd, t1)"
    using assms(9) path(2) by (simp add: disk_opened_def)
  have "\<exists>y. usDisk_diskRead E path (sint (rw_offset info)) (sint (rw_size info)) True t = Some y" for t
    using disk_read_total [OF assms(11)] assms(4) by simp
  then have "\<exists>y. usDecode_ReadHandle E mem hp pp buffSize tr = Some y"
    using path(1) assms(1,3) by (auto simp: usDecode_ReadHandle_def Let_def case_prod_beta bind_eq_Some_conv)
  then obtain r mem' tr' where run: "usDecode_ReadHandle E mem hp pp buffSize tr = Some (r, mem', tr')"
    by (metis prod_cases3)
  have l: "hp + 24 \<le> length mem" using assms(2,5) by simp
  from read_handle_ok [OF run assms(1-5) path(1) o assms(10)] run l show ?thesis by (auto simp: fail_hdr_def)
qed

theorem read_request_witness:
  "\<exists>mem' tr'. usDecode_ReadHandle (serving [1, 2, 3, 4, 5] []) read_msg 0 24 4096 [] = Some (EUSTOR_OK, mem', tr') \<and>
     (fs_relag (hdr_at mem' 0) = USTOR_EERR \<or> peek mem' 24 3 = [1, 2, 3])"
proof -
  have s: "serves (serving [1, 2, 3, 4, 5] []) 3 [1, 2, 3, 4, 5] (snd (disk_opened (serving [1, 2, 3, 4, 5] []) name O_RDONLY 0 []))" for name
    by (rule serving_serves) (simp add: serving_opened)
  let ?P = "\<lambda>mem'. hdr_at mem' 0 = (hdr_at read_msg 0)\<lparr>fs_len := 0, fs_relag := USTOR_EERR\<rparr> \<or>
     (let data = take (nat (sint (rw_size (dec_operation_rw (drop 24 read_msg))))) [1, 2, 3, 4, 5] in
       hdr_at mem' 0 = (hdr_at read_msg 0)\<lparr>fs_len := of_nat (length data)\<rparr> \<and> peek mem' 24 (length data) = data)"
  have "\<exists>mem' tr'. usDecode_ReadHandle (serving [1, 2, 3, 4, 5] []) read_msg 0 24 4096 [] = Some (EUSTOR_OK, mem', tr') \<and> ?P mem'"
    by (rule read_request [OF _ _ refl _ _ _ _ refl surjective_pairing])
      (use s in \<open>simp_all add: serving_opened serving_no_retry\<close>)
  moreover have "?P m \<Longrightarrow> fs_relag (hdr_at m 0) = USTOR_EERR \<or> peek m 24 3 = [1, 2, 3]" for m
    by (simp add: Let_def numeral_3_eq_3) (erule disjE; simp)
  ultimately show ?thesis by blast
qed

text \<open>
  C6. A write request is answered, and a success means that the data that follows the path in the
  request was written at its place, all of it.
\<close>

theorem write_request:
  assumes "fs_version (hdr_at mem hp) = PRO_FSONDEV_VER1" "hp + 24 \<le> length mem"
    and "info = dec_operation_rw (drop pp mem)" "0 < sint (rw_size info)"
    and "0 \<le> sint (rw_pathlen info)" "sint (rw_pathlen info) < 4096"
    and "pp + 14 + nat (sint (rw_pathlen info)) + nat (sint (rw_size info)) \<le> length mem"
    and "name = take (nat (sint (rw_pathlen info))) (drop (pp + 14) mem)"
    and "disk_opened E name O_RDWR (sint (rw_offset info)) tr = (fd, t1)" "write_progress E"
  shows "\<exists>r mem' tr'. usDecode_WriteHandle E mem hp pp n tr = Some (r, mem', tr') \<and>
    (hdr_at mem' hp = (hdr_at mem hp)\<lparr>fs_len := 0, fs_relag := USTOR_EERR\<rparr> \<or>
     hdr_at mem' hp = (hdr_at mem hp)\<lparr>fs_len := 0\<rparr> \<and> written fd tr' = written fd t1 @
       peek mem (pp + 14 + nat (sint (rw_pathlen info))) (nat (sint (rw_size info))))"
proof -
  obtain path where path: "path_arg mem (pp + 14) (sint (rw_pathlen info)) tr = (path, tr)" "cstr path = cstr name"
    using path_arg_ok [OF assms(5,6), of mem "pp + 14" tr] assms(8) by auto
  have o: "disk_opened E path O_RDWR (sint (rw_offset info)) tr = (fd, t1)"
    using assms(9) path(2) by (simp add: disk_opened_def)
  have sz: "sint (rw_size info) < 2 ^ 31" using sint_lt [of "rw_size info"] by simp
  have "nat (int pp + 14 + sint (rw_pathlen info)) = pp + 14 + nat (sint (rw_pathlen info))" using assms(5) by linarith
  then have "\<exists>y. usDisk_diskWrite E path mem (nat (int pp + 14 + sint (rw_pathlen info))) (sint (rw_offset info)) (sint (rw_size info)) False tr = Some y"
    using disk_write_total [OF assms(10) _ sz] assms(4,7) by simp
  then have "\<exists>y. usDecode_WriteHandle E mem hp pp n tr = Some y"
    using path(1) assms(1,3) by (auto simp: usDecode_WriteHandle_def Let_def case_prod_beta bind_eq_Some_conv)
  then obtain r mem' tr' where run: "usDecode_WriteHandle E mem hp pp n tr = Some (r, mem', tr')"
    by (metis prod_cases3)
  from write_handle_ok [OF run assms(1,3-5,7) path(1) o] run assms(2) show ?thesis
    by (fastforce simp: fail_hdr_def len_hdr_def)
qed

theorem write_request_witness:
  "\<exists>r mem' tr'. usDecode_WriteHandle (serving [] []) read_msg 0 24 19 [] = Some (r, mem', tr') \<and>
     (fs_relag (hdr_at mem' 0) = USTOR_EERR \<or> written 3 tr' = zeros 3)"
proof -
  have "peek read_msg 40 3 = zeros 3"
    by (simp add: read_msg_def peek_def fs_on_dev.length_enc op_rw.length_enc str_def zeros_def)
  moreover have "\<exists>r mem' tr'. usDecode_WriteHandle (serving [] []) read_msg 0 24 19 [] = Some (r, mem', tr') \<and>
    (hdr_at mem' 0 = (hdr_at read_msg 0)\<lparr>fs_len := 0, fs_relag := USTOR_EERR\<rparr> \<or>
     hdr_at mem' 0 = (hdr_at read_msg 0)\<lparr>fs_len := 0\<rparr> \<and> written 3 tr' =
       written 3 (snd (disk_opened (serving [] []) (take (nat (sint (rw_pathlen (dec_operation_rw (drop 24 read_msg))))) (drop (24 + 14) read_msg)) O_RDWR 0 [])) @
       peek read_msg (24 + 14 + nat (sint (rw_pathlen (dec_operation_rw (drop 24 read_msg))))) (nat (sint (rw_size (dec_operation_rw (drop 24 read_msg))))))"
    by (rule write_request [OF _ _ refl _ _ _ _ refl]) (simp_all add: serving_opened serving_progress)
  ultimately show ?thesis by (fastforce simp: serving_opened)
qed

text \<open>
  C34. The path of a read or write request is copied to a local array of 4096 bytes: a length from 0
  to 4095 yields the path that was sent and is safe; any other length than these and 4096 writes
  over the array's end.
\<close>

theorem path_copy_bounds:
  "if 0 \<le> n \<and> n < 4096 then \<exists>abspath. path_arg mem off n tr = (abspath, tr) \<and> cstr abspath = cstr (take (nat n) (drop off mem))
   else if n \<noteq> 4096 then snd (path_arg mem off n tr) = tr @ [Fault OutOfBounds] else True"
proof (cases "0 \<le> n \<and> n < 4096")
  case True
  then show ?thesis using path_arg_ok by simp
next
  case False
  then show ?thesis by (auto simp: path_arg_def fault_if_def Let_def)
qed

text \<open>
  C35. What a delete request makes the system do: a file is removed, and when that worked, as for every
  directory, the shell is run on a command with the path the phone sent between double quotes.
  The answer has the error code exactly when the removal of the file failed.
\<close>

theorem delete_request_calls:
  assumes "usDecode_DeleteHandle E mem hp pp tr = (r, mem', tr')"
    and "fs_version (hdr_at mem hp) = PRO_FSONDEV_VER1" "0 \<in> set (drop (pp + 9) mem)"
  shows "let path = cstr (drop (pp + 9) mem); isdir = nd_isdir (dec_operation_newdel (drop pp mem));
      removed = (isdir = 0 \<longrightarrow> a_ret (E tr (File (Remove path))) = 0)
    in calls tr' = calls tr @ (if isdir = 0 then [File (Remove path)] else []) @
         (if removed then [Sys (System (rm_command path))] else []) \<and>
       mem' = len_hdr 0 (if removed then mem else relag_hdr mem hp) hp"
  by (rule delete_calls [OF assms])

theorem delete_request_calls_witness:
  "\<exists>mem' tr'. usDecode_DeleteHandle accepting delete_msg 0 24 [] = (EUSTOR_OK, mem', tr') \<and>
     calls tr' = [File (Remove (str ''/f'')), Sys (System (str ''rm -rf '' @ [34] @ str ''/f'' @ [34]))]"
proof -
  obtain r mem' tr' where run: "usDecode_DeleteHandle accepting delete_msg 0 24 [] = (r, mem', tr')" by (metis prod_cases3)
  have v: "fs_version (hdr_at delete_msg 0) = 1" by (simp add: delete_msg_def hdr_at_def fs_on_dev.dec_enc_append)
  have d: "drop 33 delete_msg = str ''/f'' @ zeros 8" by (simp add: delete_msg_def fs_on_dev.length_enc zeros_def)
  have i: "nd_isdir (dec_operation_newdel (drop 24 delete_msg)) = 0"
    by (simp add: delete_msg_def fs_on_dev.length_enc zeros_def dec_operation_newdel_def get8_def nth_append)
  have c: "cstr (str ''/f'' @ zeros 8) = str ''/f''" by (simp add: cstr_def str_def zeros_def)
  have "r = EUSTOR_OK" using run by (simp add: usDecode_DeleteHandle_def Let_def case_prod_beta v)
  moreover have "calls tr' = [File (Remove (str ''/f'')), Sys (System (rm_command (str ''/f'')))]"
    using delete_request_calls [OF run v] d i c by (simp add: Let_def zeros_def calls_def)
  ultimately show ?thesis using run by (simp add: rm_command_def str_def)
qed

section \<open>Directory listings\<close>

text \<open>
  C25. A part of a listing that has room for another entry gets it: the entries that a reader decodes
  from the buffer are those before and, last, the file's name without its directories, its type,
  times and size; nothing is written outside the buffer. This holds for names of less than 256
  characters. The size is the one that stat reports, also for a directory: there the code departs
  from the comment of the field in protocol.h, which says that it is 0 for a directory.
\<close>

theorem listing_appends:
  assumes "list_inv len pp h p s" "273 \<le> unat (lc_size s) - unat (lc_usedsize s)"
    and "length (cstr (after_last 47 (cstr nm))) < 256"
  shows "\<exists>s'. list_entry nm st s tr = (s', tr) \<and> list_inv len pp h p s' \<and>
    listed s' = listed s @ [(cstr (after_last 47 (cstr nm)), if st_isdir st then 1 else 0, st_atime st, st_mtime st, st_size st)]"
  using list_entry_inv [OF assms(1,2), of nm st tr] assms(3) by auto

theorem listing_appends_witness:
  "\<exists>s'. list_entry (str ''/d/f.txt'') \<lparr>st_isdir = False, st_size = 9, st_atime = 1, st_mtime = 2\<rparr> empty_list [] = (s', []) \<and>
     listed s' = [(str ''f.txt'', 0, 1, 2, 9)]"
proof -
  have n: "cstr (after_last 47 (cstr (str ''/d/f.txt''))) = str ''f.txt''" by code_simp
  have "273 \<le> unat (lc_size empty_list) - unat (lc_usedsize empty_list)" by (simp add: empty_list_def)
  from listing_appends [OF empty_list_inv this, of "str ''/d/f.txt''" "\<lparr>st_isdir = False, st_size = 9, st_atime = 1, st_mtime = 2\<rparr>" "[]"]
  have "length (str ''f.txt'') < 256 \<Longrightarrow> ?thesis" unfolding n by (auto simp: listed_empty)
  then show ?thesis by (simp add: str_def)
qed

text \<open>
  C26. A part of a listing that was sent with success reached the phone as a header of the same request,
  whose length is that of the part, followed by the part: nothing when no entry was stored, and
  otherwise the number of entries and the flag that says whether it is the last part, five
  bytes, and the entries as they lie in the buffer, 273 bytes each; what the phone reads in them is
  the list that was stored. The buffer is in the state that every step of a listing keeps.
\<close>

theorem listing_part_sent:
  assumes "send_list E flag s tr = Some (EUSTOR_OK, s', tr')" "list_inv len pp h p s"
  shows "\<exists>hdr part. phone_carried (lc_phone s) tr tr' (enc_fsOnDev hdr @ part) \<and> same_request h hdr \<and>
    unat (fs_len hdr) = length part \<and> length part = unat (lc_usedsize s) \<and>
    (part \<noteq> [] \<longrightarrow> length part = 5 + 273 * unat (fileNum s) \<and>
      dec_listResponse part = \<lparr>lr_fileNum = fileNum s, lr_finish = word_of_int flag\<rparr> \<and>
      drop 5 part = peek (lc_mem s) (lc_buffer s + 5) (273 * unat (fileNum s)) \<and> entries_of part = listed s)"
  using send_list_inv [OF assms] unfolding part_of_def by blast

theorem listing_part_sent_witness:
  "\<exists>s' tr'. send_list accepting 1 empty_list [] = Some (EUSTOR_OK, s', tr') \<and>
     (\<exists>hdr. phone_carried android1 [] tr' (enc_fsOnDev hdr) \<and> fs_len hdr = 0)"
proof -
  have "\<exists>s' tr'. send_list accepting 1 empty_list [] = Some (EUSTOR_OK, s', tr')"
    by (simp add: send_list_def Let_def empty_list_def android1_def usPhoneinfo0_def usProtocol_SendPackage_def
        aoa_SendProPackage_def aoa_send_loop.simps accepting_send fault_if_def set_listhdr_def len_hdr_def length_poke
        list_resp.length_enc zeros_def peek_def)
  then obtain s' tr' where r: "send_list accepting 1 empty_list [] = Some (EUSTOR_OK, s', tr')" by blast
  from listing_part_sent [OF r empty_list_inv] r show ?thesis by (fastforce simp: empty_list_def word_unat_eq_iff)
qed

section \<open>Events\<close>

text \<open>
  C27. Decoding a kernel message: of up to 30 NUL-terminated KEY=value strings the message gets, for each
  key it knows, the value of the last string with that key, its numbers in decimal, and the strings
  themselves in order; a message without action or path is dropped.
\<close>

theorem message_decoded:
  assumes "\<forall>k\<in>set keys. 0 \<notin> set k" "length keys \<le> 30" "\<forall>t n. a_num (E t (Sys (Calloc n))) \<noteq> 0"
  shows "map_option snd (fst (get_msg_from_envbuf E (packed keys) tr)) =
    (if value_of ''DEVPATH='' keys = None \<or> value_of ''ACTION='' keys = None then None
     else Some ((msg_of keys)\<lparr>um_devt := makedev (number_of ''MAJOR='' keys) (number_of ''MINOR='' keys),
       um_envp := keys @ [str ''UDEVD_EVENT=1'']\<rparr>))"
  using assms(2) assms(3) [rule_format, of tr "uevent_msg_size + length (packed keys)"] env_loop_packed [OF assms(1), of 30 "(msg0, 0, 0)"]
  by (simp add: get_msg_from_envbuf_def fold_env do_call_eq Let_def case_prod_beta) (auto simp: msg_of_def)

theorem message_decoded_witness:
  "\<exists>p msg. fst (get_msg_from_envbuf accepting (packed add_keys) []) = Some (p, msg) \<and> um_action msg = Some (str ''add'')"
proof -
  have "map_option snd (fst (get_msg_from_envbuf accepting (packed add_keys) [])) =
      Some ((msg_of add_keys)\<lparr>um_devt := makedev (number_of ''MAJOR='' add_keys) (number_of ''MINOR='' add_keys),
       um_envp := add_keys @ [str ''UDEVD_EVENT=1'']\<rparr>)"
    using message_decoded [OF add_keys_nonul, of accepting "[]"] by (simp add: add_keys_values) (simp add: add_keys_def)
  then show ?thesis by (auto simp: msg_of_def add_keys_values)
qed

text \<open>
  C28. A message of the kernel changes the program's state exactly when it says that a USB device was added
  to or removed from the phone's place on the bus, and then by the phone callback with that news.
\<close>

theorem kernel_message_handled:
  assumes "kernel_message keys header (E tr (Sys (RecvMsg sock 4096)))"
    and "\<forall>t n. a_num (E t (Sys (Calloc n))) \<noteq> 0"
  shows "\<exists>t. fst (snd (handlePlug E conf sock s tr)) =
    (case phone_change keys of None \<Rightarrow> s | Some n \<Rightarrow> fst (phone_callback conf n s t))"
  by (rule plug_message [OF assms])

theorem kernel_message_handled_witness:
  "fst (snd (handlePlug kernel_adds \<lparr>eventDiskCall = None, eventPhoneCall = Some (\<lambda>n s t. (n, t))\<rparr> 3 (0::int) [])) = 1"
proof -
  have "kernel_message add_keys (str ''add@/usb1/1-1/1-1.1'') (kernel_adds [] (Sys (RecvMsg 3 4096)))"
  proof -
    have "length add_msg < 4096 \<and> 0 \<notin> set (str ''add@/usb1/1-1/1-1.1'') \<and> length add_keys \<le> 30" by code_simp
    moreover have "64 \<notin> set (str ''add'')" "str ''add@/usb1/1-1/1-1.1'' = str ''add'' @ 64 # str ''/usb1/1-1/1-1.1''" by code_simp+
    ultimately show ?thesis using add_keys_nonul
      by (auto simp: kernel_message_def kernel_adds_def add_msg_def add_keys_values)
  qed
  from kernel_message_handled [where E = kernel_adds and s = 0 and conf = "\<lparr>eventDiskCall = None, eventPhoneCall = Some (\<lambda>n s t. (n, t))\<rparr>", OF this] show ?thesis
    by (auto simp: add_keys_values phone_callback_def kernel_adds_def)
qed

section \<open>The program\<close>

text \<open>
  Receiving a request, whether it arrives or not, keeps the phone's identity (its type, its device
  and endpoints and what the connection needs) and the buffer's length: the next request can be
  received.
\<close>

theorem receive_keeps_phone:
  assumes "usStorage_RecvPackage E p mem off bufSize tr = Some (r, p', mem', n, tr')" "phone_ready p"
  shows "phone_ready p' \<and> phoneType p' = phoneType p \<and> phone_usb p' = phone_usb p \<and> length mem' = length mem"
  using recv_package_kept [OF assms] by (simp add: phone_kept_def)

theorem receive_keeps_phone_witness:
  "\<exists>r p' mem' n tr'. usStorage_RecvPackage accepting android1 (zeros 100) 0 100 [] = Some (r, p', mem', n, tr') \<and>
     phone_usb p' = usb1 \<and> length mem' = 100"
proof -
  have "\<exists>r p' mem' n tr'. usStorage_RecvPackage accepting android1 (zeros 100) 0 100 [] = Some (r, p', mem', n, tr')"
    by (simp add: usStorage_RecvPackage_def usProtocol_RecvPackage_def android1_def usPhoneinfo0_def
       aoa_RecvProPackage_def usUsb_BlukPacketReceive_def eval_call bulk_error_def Let_def)
  then obtain r p' mem' n tr' where run: "usStorage_RecvPackage accepting android1 (zeros 100) 0 100 [] = Some (r, p', mem', n, tr')"
    by blast
  have "phone_usb android1 = usb1" by (simp add: phone_usb_def android1_def usPhoneinfo0_def)
  then show ?thesis using run receive_keeps_phone [OF run android1_ready] by (auto simp: zeros_def)
qed

text \<open>
  C2. Every request but the listing, which sends its own parts, is answered: when handling it reports
  success, the phone got one message. To a probe for the device, by either of its two magic numbers, it is
  the probe itself with the result cleared and the protocol's magic number and version filled in, or with
  the result set, 24 bytes. To any other request it repeats the request's magic number, version, tag and
  command, followed by exactly the payload that its header announces. Handling a safe removal never
  reports success: the code sends it an empty packet, which either transport refuses. The
  answer to the three requests of an upgrade keeps the length of the request, which must fit the
  buffer: receiving checks that, but for the lengths whose sum with the header wraps around. The rest of the
  hypotheses hold in every state the program reaches: the phone can be used, and the buffer has 4096 bytes
  or more, with 36 reserved before them.
\<close>

theorem request_answered:
  assumes "usStorage_ProtocolHandle E c hp buffsize paylength d tr = Some (EUSTOR_OK, d', tr')"
    and "h = hdr_at (dv_mem d) hp" "fs_ctrid h = USTOR_FSONDEV_LIST \<longrightarrow> probes h"
    and "fs_ctrid h \<in> {USTOR_FSONDEV_UPDATE_START, USTOR_FSONDEV_UPDATE_DATA, USTOR_FSONDEV_UPDATE_END} \<longrightarrow>
      24 + unat (fs_len h) \<le> unat buffsize"
    and "phone_ready (dv_phone d)" and "36 \<le> hp" "hp + unat buffsize \<le> length (dv_mem d)"
      "4096 \<le> unat buffsize" "unat buffsize < 2147483648"
  shows "\<exists>t msg. phone_carried (dv_phone d) t tr' msg \<and>
    (if probes h then probe_answer (dv_mem d) hp msg
     else fs_ctrid h \<noteq> USTOR_FSONDEV_SAFEREMOVE \<and> reply_to h msg)"
proof -
  have "fs_ctrid (hdr_at (dv_mem d) hp) = USTOR_FSONDEV_LIST \<Longrightarrow> probes (hdr_at (dv_mem d) hp)"
    "upgrades (hdr_at (dv_mem d) hp) \<Longrightarrow> fits (unat buffsize) (dv_mem d) hp"
    using assms(2-4) by (simp_all add: upgrades_def fits_def)
  from handle_answers [OF assms(1) this assms(5-9)] show ?thesis
    by (simp only: answered_def Let_def assms(2))
qed

theorem request_answered_witness:
  "\<exists>d' t tr' msg. usStorage_ProtocolHandle accepting ctx0 36 4096 24 delete_device [] = Some (EUSTOR_OK, d', tr') \<and>
     phone_carried android1 t tr' msg \<and> fs_wtag (dec_fsOnDev msg) = 7"
proof -
  obtain d' tr' where run: "usStorage_ProtocolHandle accepting ctx0 36 4096 24 delete_device [] = Some (EUSTOR_OK, d', tr')"
    using delete_device_runs by blast
  have np: "\<not> probes (hdr_at (dv_mem delete_device) 36)" by (simp add: delete_device_simps probes_def)
  have "\<exists>t msg. phone_carried (dv_phone delete_device) t tr' msg \<and>
      (if probes (hdr_at (dv_mem delete_device) 36) then probe_answer (dv_mem delete_device) 36 msg
       else fs_ctrid (hdr_at (dv_mem delete_device) 36) \<noteq> USTOR_FSONDEV_SAFEREMOVE \<and> reply_to (hdr_at (dv_mem delete_device) 36) msg)"
    by (rule request_answered [OF run refl]) (simp_all add: delete_device_simps android1_ready)
  then show ?thesis using run np by (auto simp: delete_device_simps reply_to_def same_request_def)
qed

text \<open>
  Handling a request, successful or not, keeps the phone's identity and the buffer's length, and
  leaves the notification slot as it was or emptied.
\<close>

theorem handling_keeps_state:
  assumes "usStorage_ProtocolHandle E c hp buffsize paylength d tr = Some (r, d', tr')"
    and "phone_ready (dv_phone d)" and "36 \<le> hp" "hp + unat buffsize \<le> length (dv_mem d)"
      "4096 \<le> unat buffsize" "unat buffsize < 2147483648"
  shows "phone_kept (dv_phone d) (dv_phone d') \<and> length (dv_mem d') = length (dv_mem d) \<and>
    dv_notify d' \<in> {dv_notify d, notify0}"
  by (rule handle_kept [OF assms])

theorem handling_keeps_state_witness:
  "\<exists>r d' tr'. usStorage_ProtocolHandle accepting ctx0 36 4096 24 delete_device [] = Some (r, d', tr') \<and>
     phone_kept android1 (dv_phone d') \<and> length (dv_mem d') = 4175"
proof -
  obtain d' tr' where run: "usStorage_ProtocolHandle accepting ctx0 36 4096 24 delete_device [] = Some (EUSTOR_OK, d', tr')"
    using delete_device_runs by blast
  from handling_keeps_state [OF run] run show ?thesis
    by (simp add: delete_device_simps android1_ready)
qed

text \<open>
  C1. In every state that the program reaches, whatever the interleaving of its threads and the answers
  of the system: the buffer has its length, the notification slot holds a terminated name, the
  connection to the phone is sound; there is a phone, with an OUT and an IN endpoint, exactly when
  the program is past detection; and it receives, handles and notifies only while connected.
\<close>

theorem program_invariant:
  assumes "uHost_reach E s"
  shows "uHost_inv (fst s)"
  by (rule uHost_reach_inv [OF assms])

theorem program_invariant_witness:
  "\<exists>u tr tr'. main_init accepting [] = Some (u, tr) \<and> uHost_reach accepting (u, tr') \<and> tr' \<noteq> tr \<and> uHost_inv u"
proof -
  obtain u tr where i: "main_init accepting [] = Some (u, tr)" and u: "uh_at u = Loop_top" "uh_phonePlugin u = 0"
    using accepting_starts by blast
  have r: "uHost_reach accepting (u, tr @ [Did (Sys (Usleep 500000)) (answer0\<lparr>a_num := 64\<rparr>)])"
    using main_foreground [OF i] idle_step [OF u] uHost_reach.Step by blast
  from program_invariant [OF r] r i show ?thesis by auto
qed

text \<open>
  C7. The program refines the connection automaton. It starts with no connection. Each step of the main thread
  takes the transition of the automaton for what happened in it, and no other: a phone is found only by a
  detection that succeeded, the connection opened only by a connect that succeeded, and it is given up for a
  new connect only when the peer refused a request, for a new detection only when another error than a
  timeout occurred or the phone was unplugged, which also drops the phone. The event thread never moves it, nor
  touches the phone or the place in the main loop; and requests are received and handled, and changes
  announced, only on an open connection.
\<close>

theorem program_refines_link:
  assumes "uHost_reach E (u, tr)"
  shows "(\<forall>argc u0 tr0. main_entry E argc [] = Some (u0, tr0) \<longrightarrow> uh_conState u0 = CON_INIT) \<and>
    (\<forall>c tmpbuf u' tr'. main_step E c tmpbuf u tr = Some (u', tr') \<longrightarrow>
      link_next (uh_conState u) (step_event E c u tr) = Some (uh_conState u') \<and>
      (step_event E c u tr = Phone_lost \<longrightarrow> us_phone (uh_context u') = usPhoneinfo0)) \<and>
    (\<forall>socks u' tr'. event_round E (eventarg E) (uh_socks u) u tr = (socks, u', tr') \<longrightarrow>
      uh_conState u' = uh_conState u \<and> uh_context u' = uh_context u \<and> uh_at u' = uh_at u) \<and>
    (uh_at u \<in> {Loop_receive, Loop_notify} \<union> range Loop_handle \<longrightarrow> uh_conState u = CON_CNTED)"
proof (intro conjI allI impI)
  note inv = uHost_reach_inv [OF assms, simplified]
  show "uh_conState u0 = CON_INIT" if "main_entry E argc [] = Some (u0, tr0)" for argc u0 tr0
    by (rule main_entry_state [OF that])
  show "link_next (uh_conState u) (step_event E c u tr) = Some (uh_conState u')"
    "step_event E c u tr = Phone_lost \<Longrightarrow> us_phone (uh_context u') = usPhoneinfo0"
    if "main_step E c tmpbuf u tr = Some (u', tr')" for c tmpbuf u' tr'
    using main_link [OF that inv] by (simp_all add: follows_def)
  show "uh_conState u' = uh_conState u" "uh_context u' = uh_context u" "uh_at u' = uh_at u"
    if "event_round E (eventarg E) (uh_socks u) u tr = (socks, u', tr')" for socks u' tr'
    using event_link [OF that] by simp_all
  show "uh_conState u = CON_CNTED" if "uh_at u \<in> {Loop_receive, Loop_notify} \<union> range Loop_handle"
    by (rule served_connected [OF inv that])
qed

theorem program_refines_link_witness:
  "\<exists>u tr u' tr'. main_step accepting ctx0 (zeros 1024) u tr = Some (u', tr') \<and> uh_at u = Loop_top \<and>
     link_next (uh_conState u) No_event = Some (uh_conState u')"
proof -
  obtain u tr where i: "main_init accepting [] = Some (u, tr)" and u: "uh_at u = Loop_top" "uh_phonePlugin u = 0"
    using accepting_starts by blast
  have s: "\<exists>tr'. main_step accepting ctx0 (zeros 1024) u tr = Some (u, tr')" using u by (simp add: main_step_def)
  have "step_event accepting ctx0 u tr = No_event" using u by (simp add: step_event_def)
  with program_refines_link [OF main_foreground [OF i]] s u show ?thesis by metis
qed

text \<open>
  C40. A pending disk change is taken out of the slot and announced once: the message is a header of the
  notification protocol with the next tag that carries the command for the disk list and no
  payload; when the send succeeds the phone got exactly that.
\<close>

theorem change_announced:
  assumes "usStorage_notifyPlug E tmpbuf p nf w tr = Some (p', nf', w', tr')"
    and "usDisk_getNotifyInfo E nf tr = (q, Some ev, nf1, t1)"
    and "phone_ready p" "length tmpbuf = 1024"
  shows "nf' = nf1 \<and> nf_valid nf1 = 0 \<and> w' = w + 1 \<and> (\<exists>r msg. (r = EUSTOR_OK \<longrightarrow> phone_carried p t1 tr' msg) \<and>
    (\<exists>m m'. usProtocol_SendPackage E p m 36 24 t1 = Some (r, p', m', tr') \<and> msg = peek m 36 24) \<and>
    fs_head (dec_fsOnDev msg) = PRO_REVER_MAGIC \<and> fs_wtag (dec_fsOnDev msg) = w \<and>
    fs_ctrid (dec_fsOnDev msg) = USTOR_FSONDEV_DISKLUN \<and> fs_len (dec_fsOnDev msg) = 0)"
proof -
  have "nf_valid nf1 = 0" using assms(2) by (auto simp: usDisk_getNotifyInfo_def Let_def split: if_splits)
  then show ?thesis using notify_message [OF assms] by blast
qed

theorem change_announced_witness:
  "\<exists>p' nf' w' tr' m m' r t. usStorage_notifyPlug accepting (zeros 1024) android1 (notify0\<lparr>nf_valid := 1\<rparr>) 4 [] = Some (p', nf', w', tr') \<and>
     w' = 5 \<and> nf_valid nf' = 0 \<and> usProtocol_SendPackage accepting android1 m 36 24 t = Some (r, p', m', tr') \<and>
     fs_wtag (dec_fsOnDev (peek m 36 24)) = 4"
proof -
  let ?nf = "notify0\<lparr>nf_valid := 1\<rparr>"
  obtain q nf1 t1 where g: "usDisk_getNotifyInfo accepting ?nf [] = (q, Some ?nf, nf1, t1)"
    by (simp add: usDisk_getNotifyInfo_def Let_def)
  have "length (set_hdr f (zeros 1024) 36) = 1024" for f
    by (simp add: zeros_def)
  then have "\<exists>p' nf' w' tr'. usStorage_notifyPlug accepting (zeros 1024) android1 ?nf 4 [] = Some (p', nf', w', tr')"
    by (simp add: usStorage_notifyPlug_def g android1_def usPhoneinfo0_def usProtocol_SendPackage_def
        aoa_SendProPackage_def aoa_send_loop.simps accepting_send length_peek peek_def Let_def)
  then obtain p' nf' w' tr' where run: "usStorage_notifyPlug accepting (zeros 1024) android1 ?nf 4 [] = Some (p', nf', w', tr')"
    by blast
  from change_announced [OF run g android1_ready] run show ?thesis by (simp add: zeros_def) blast
qed

section \<open>The disk manager\<close>

text \<open>
  C10. In every state that the disk manager reaches, after it started and whatever actions it performed
  and requests it answered since: no disk is in its list twice, each has the number of partitions
  that it says and one of three states, and a disk that was removed safely has no partition mounted.
\<close>

theorem manager_invariant:
  assumes "dm_reach E s tr"
  shows "dm_ready s \<and> distinct (map mi_devname (di_list (dm_disk s))) \<and> int (length (di_list (dm_disk s))) \<le> di_disk_num (dm_disk s) \<and>
    (\<forall>d\<in>set (di_list (dm_disk s)). mi_partnum d = int (length (mi_partlist d)) \<and>
      mi_status d \<in> {0, sint DISK_MOUNTED, DISK_SFREMOVE} \<and>
      (mi_status d = DISK_SFREMOVE \<longrightarrow> (\<forall>p\<in>set (mi_partlist d). pt_mounted p = 0)))"
  using reach_ok [OF assms] by (auto simp: registry_ok_def disks_ok_def disk_ok_def)

theorem manager_invariant_witness:
  "\<exists>s tr. dm_reach one_disk s tr \<and> dm_ready s \<and> map mi_devname (di_list (dm_disk s)) = [str ''sda''] \<and> 1 \<le> di_disk_num (dm_disk s)"
proof -
  obtain s tr where s: "dm_init one_disk manager0 [] = Some (DISK_SUCCESS, s, tr)" "map mi_devname (di_list (dm_disk s)) = [str ''sda'']"
    using one_disk_starts by (elim exE conjE)
  then have r: "dm_reach one_disk s tr" using dm_reach.start by blast
  have "length (di_list (dm_disk s)) = 1" using s(2) by (metis length_map length_Cons list.size(3) One_nat_def)
  with manager_invariant [OF r] r s show ?thesis by auto
qed

text \<open>
  C13. Safe removal of a disk by the manager: every partition of the disk that is mounted is unmounted,
  in their order, and nothing else is asked of the system; the disk then counts as removed with
  nothing mounted, whatever the unmounts answer, the other disks are as before, and no bad access is
  made. The hypotheses on the
  manager hold whenever it is reached.
\<close>

theorem safe_removal:
  assumes "dm_ready s" "registry_ok (dm_disk s)" "d \<in> set (di_list (dm_disk s))"
    and "mi_devname d = ua_dev act" "ua_major act = 0xFFFF" "ua_action act = DISK_SFREMOVE" "mi_status d \<noteq> DISK_SFREMOVE"
  shows "\<exists>s' tr'. dm_aciton_func E act s tr = Some (DISK_SUCCESS, s', tr') \<and>
    di_list (dm_disk s') = map (\<lambda>e. if mi_devname e = ua_dev act then safely_removed e else e) (di_list (dm_disk s)) \<and>
    calls tr' = calls tr @ umounts (mi_partlist d) \<and> faults tr' = faults tr"
  by (rule safe_remove [OF assms])

theorem safe_removal_witness:
  "\<exists>s tr. dm_aciton_func accepting \<lparr>ua_major = 0xFFFF, ua_action = DISK_SFREMOVE, ua_dev = str ''sda''\<rparr> manager1 [] = Some (DISK_SUCCESS, s, tr) \<and>
     di_list (dm_disk s) = [safely_removed mounted1] \<and> calls tr = [File (Umount (str ''/data/UsbDisk1'') True)]"
proof -
  let ?act = "\<lparr>ua_major = 0xFFFF, ua_action = DISK_SFREMOVE, ua_dev = str ''sda''\<rparr>"
  have "\<exists>s tr. dm_aciton_func accepting ?act manager1 [] = Some (DISK_SUCCESS, s, tr) \<and>
    di_list (dm_disk s) = map (\<lambda>e. if mi_devname e = ua_dev ?act then safely_removed e else e) (di_list (dm_disk manager1)) \<and>
    calls tr = calls [] @ umounts (mi_partlist mounted1) \<and> faults tr = faults []"
    by (rule safe_removal) (simp_all add: manager1_simps)
  then show ?thesis by (auto simp: manager1_simps calls_def)
qed

text \<open>
  C11. The disk list in the program and the one that the manager itself fills in agree: when all disks of
  the manager are mounted and fit the buffer, the nodes that the socket client makes of the manager's
  answer are those of \<open>dm_getdisk_lun\<close>, same disks in the same order and the same size, but for the
  plug count, which the client leaves zero.
\<close>

theorem disk_lists_agree:
  assumes "protocol_disk_disklist E1 s t1 = (DISK_SUCCESS, Some (q, reply), t2)"
    and "disk_request E2 MSG_DISK_DISKLIST t3 = (Some (p, enc_ipc_header h @ reply), t4)"
    and "ih_direction h \<noteq> 1" "sint (ih_len h) = int (length reply)"
    and "\<forall>d\<in>set (di_list (dm_disk s)). mi_status d = sint DISK_MOUNTED" "dm_ready s"
    and "n = length (di_list (dm_disk s))" "2 + 18 * int n \<le> bsize" "bsize < 2 ^ 31" "off + nat bsize \<le> length mem"
    and "get16 mem off = 0"
  shows "\<exists>m1 t5 m2. disk_getdisk_lun E2 mem off bsize t3 = Some (DISK_SUCCESS, m1, Some (2 + 18 * int n), t5) \<and>
    dm_getdisk_lun s mem off bsize t = (DISK_SUCCESS, m2, Some (2 + 18 * int n), t) \<and>
    get16 m1 off = of_nat n \<and> get16 m2 off = of_nat n \<and>
    dec_array dec_diskPlugNode 18 n (drop (off + 2) m2) = map lun_node (di_list (dm_disk s)) \<and>
    dec_array dec_diskPlugNode 18 n (drop (off + 2) m1) = map (\<lambda>d. (lun_node d)\<lparr>pn_seqnum := 0\<rparr>) (di_list (dm_disk s))"
  by (rule lists_agree [OF assms])

theorem disk_lists_agree_witness:
  "\<exists>E m1 t1 m2. disk_getdisk_lun E (zeros 40) 0 40 [] = Some (DISK_SUCCESS, m1, Some 20, t1) \<and>
     dm_getdisk_lun manager1 (zeros 40) 0 40 [] = (DISK_SUCCESS, m2, Some 20, []) \<and> get16 m1 0 = 1 \<and> get16 m2 0 = 1"
proof -
  let ?body = "enc_disklist (disklist_of mounted1)"
  obtain q t2 where a: "protocol_disk_disklist (serving [] []) manager1 [] = (DISK_SUCCESS, Some (q, ?body), t2)"
    using manager1_answer by blast
  have l: "sint (ih_len (lun_header 1)) = int (length ?body)" by (simp add: lun_header_def disklist_st.length_enc)
  obtain p t4 where r: "disk_request (serving (enc_ipc_header (lun_header 1) @ ?body) []) MSG_DISK_DISKLIST [] =
      (Some (p, enc_ipc_header (lun_header 1) @ ?body), t4)"
    using manager_request [OF l] by blast
  have "get16 (zeros 40) 0 = 0" by (simp add: eval_mem)
  with disk_lists_agree [OF a r _ l, of 1 40 0 "zeros 40" "[]"] show ?thesis
    by (auto simp: lun_header_def manager1_simps)
qed

text \<open>
  C15. The lists of disks and of directories that the manager answers with are sequences of whole records:
  as many disks of 784 bytes as it has, which decode to what it holds of them, and one directory of
  5000 bytes for each mounted partition of a mounted disk, in their order.
\<close>

theorem answers_are_records:
  assumes "protocol_disk_disklist E1 s t1 = (DISK_SUCCESS, Some (q1, disks), t2)"
    and "protocol_disk_dirlist E2 s t3 = (DISK_SUCCESS, Some (q2, dirs), t4)"
  shows "length disks = disklist_size * length (di_list (dm_disk s)) \<and>
    dec_array dec_disklist disklist_size (length (di_list (dm_disk s))) disks = map disklist_of (di_list (dm_disk s)) \<and>
    length dirs = dirlist_size * length (mounted_parts (di_list (dm_disk s))) \<and>
    (\<forall>i < length (mounted_parts (di_list (dm_disk s))). peek dirs (dirlist_size * i) dirlist_size =
      (case mounted_parts (di_list (dm_disk s)) ! i of (d, p) \<Rightarrow> enc_dirlist (dm_prefix s) d p))"
proof -
  let ?ps = "mounted_parts (di_list (dm_disk s))" and ?f = "\<lambda>(d, p). enc_dirlist (dm_prefix s) d p"
  have l: "\<forall>x\<in>set ?ps. length (?f x) = dirlist_size" by (simp add: length_enc_dirlist split: prod.split)
  show ?thesis using disklist_decoded [OF assms(1)] dirlist_answer [OF assms(2)] length_concat_records [OF l] peek_concat [OF l]
    by simp
qed

theorem answers_are_records_witness:
  "\<exists>q1 disks t1 q2 dirs t2. protocol_disk_disklist accepting manager1 [] = (DISK_SUCCESS, Some (q1, disks), t1) \<and>
     protocol_disk_dirlist accepting manager1 [] = (DISK_SUCCESS, Some (q2, dirs), t2) \<and> length disks = 784 \<and> length dirs = 5000"
proof -
  have "\<exists>q1 disks t1. protocol_disk_disklist accepting manager1 [] = (DISK_SUCCESS, Some (q1, disks), t1)"
    "\<exists>q2 dirs t2. protocol_disk_dirlist accepting manager1 [] = (DISK_SUCCESS, Some (q2, dirs), t2)"
    by (simp_all add: protocol_disk_disklist_def protocol_disk_dirlist_def manager1_simps mounted1_def maininfo0_def
        eval_call Let_def)
  then obtain q1 disks t1 q2 dirs t2 where
    r: "protocol_disk_disklist accepting manager1 [] = (DISK_SUCCESS, Some (q1, disks), t1)"
      "protocol_disk_dirlist accepting manager1 [] = (DISK_SUCCESS, Some (q2, dirs), t2)" by blast
  have "length (mounted_parts [mounted1]) = 1"
    by (simp add: mounted_parts_def mounted1_def maininfo0_def partinfo0_def)
  with answers_are_records [OF r] r show ?thesis by (simp add: manager1_simps)
qed

text \<open>
  C16. The options of a line of mount parameters are read from left to right into the parameters: a single
  option is read, but of several the last one is lost.
\<close>

theorem mount_options:
  assumes "\<forall>x\<in>set xs. good_option x" "xs \<noteq> []"
  shows "option_loop (option_line xs) 0 p tr =
    (if length xs = 1 then (1, with_option (hd xs) p, tr) else (length xs - 1, fold with_option (butlast xs) p, tr))"
  using options_read [OF assms, of p tr] assms(2) by (cases xs) auto

theorem mount_options_witness:
  "\<forall>p. option_loop (str ''readahead=64,rw=1'') 0 p [] = (1, with_option (str ''readahead'', str ''64'') p, [])"
proof -
  have o: "option_line [(str ''readahead'', str ''64''), (str ''rw'', str ''1'')] = str ''readahead=64,rw=1''" by code_simp
  have "\<forall>x\<in>set [(str ''readahead'', str ''64''), (str ''rw'', str ''1'')]. good_option x"
    by (simp add: good_option_def known_options_def str_def)
  from mount_options [OF this, unfolded o] show ?thesis by simp
qed

text \<open>
  C17. The linked lists that the manager keeps its disks and partitions in are the lists of its model: a list
  that is initialised and gets nodes appended is visited in the order of their insertion, a loop that
  removes nodes while it runs visits all of them and leaves exactly those it did not remove, in their
  order, and no bad pointer is followed.
\<close>

theorem lists_are_lists:
  assumes "h head \<noteq> None" "distinct (head # ps)" "\<forall>p\<in>set ps. h p \<noteq> None"
  shows "\<exists>h1 h2 h3. INIT_LIST_HEAD head h = Some h1 \<and> add_all (\<lambda>p. list_add_tail p head) ps h1 = Some h2 \<and>
    list_for_each_safe (remove_if P) head [] h2 = Some (ps, h3) \<and>
    list_for_each (\<lambda>e s h. Some (s @ [e], h)) head [] h3 = Some (filter (\<lambda>e. \<not> P e) ps, h3) \<and>
    list_at h3 head (filter (\<lambda>e. \<not> P e) ps)"
  by (rule list_run [where P = P, OF assms])

theorem lists_are_lists_witness:
  "\<exists>h1 h2 h3. add_all (\<lambda>p. list_add_tail p 1) [2, 3, 4] h1 = Some h2 \<and>
     list_for_each_safe (remove_if even) 1 [] h2 = Some ([2, 3, 4], h3) \<and>
     list_for_each (\<lambda>e s h. Some (s @ [e], h)) 1 [] h3 = Some ([3], h3)"
proof -
  have "\<exists>h1 h2 h3. INIT_LIST_HEAD 1 (\<lambda>p. Some \<lparr>lh_next = 0, lh_prev = 0\<rparr>) = Some h1 \<and>
    add_all (\<lambda>p. list_add_tail p 1) [2, 3, 4] h1 = Some h2 \<and> list_for_each_safe (remove_if even) 1 [] h2 = Some ([2, 3, 4], h3) \<and>
    list_for_each (\<lambda>e s h. Some (s @ [e], h)) 1 [] h3 = Some (filter (\<lambda>e. \<not> even e) [2, 3, 4], h3) \<and>
    list_at h3 1 (filter (\<lambda>e. \<not> even e) [2, 3, 4])"
    by (rule lists_are_lists) simp_all
  then show ?thesis by (simp cong: conj_cong) blast
qed

section \<open>Volumes\<close>

text \<open>
  C14. Reading back the UTF-8 that a label in UTF-16 is turned into gives the label up to its first zero, as
  far as its UTF-8 fits the destination with a NUL: always a prefix of the label, whole characters only,
  and all of it when three bytes for each unit fit.
\<close>

theorem label_round_trip:
  assumes "0 < len"
  shows "length (fst (blkid_encode_to_utf8 enc len src off n [] tr)) < len \<and>
    utf8_read (fst (blkid_encode_to_utf8 enc len src off n [] tr)) = fitting len (units enc src off n) \<and>
    (\<exists>k. fitting len (units enc src off n) = take k (units enc src off n)) \<and>
    (3 * (n div 2) < len \<longrightarrow> utf8_read (fst (blkid_encode_to_utf8 enc len src off n [] tr)) = units enc src off n)"
  using encode_fitting [of "[]" len enc src off n tr] assms fitting_length fitting_prefix fitting_units
  by (simp add: utf8_read_units)

theorem label_round_trip_witness:
  "utf8_read (fst (blkid_encode_to_utf8 BLKID_ENC_UTF16LE 64 [0x41, 0, 0xE9, 0, 0xAC, 0x20, 0, 0, 0x42, 0] 0 10 [] [])) =
     [0x41, 0xE9, 0x20AC]"
proof -
  have "units BLKID_ENC_UTF16LE [0x41, 0, 0xE9, 0, 0xAC, 0x20, 0, 0, 0x42, 0] 0 10 = [0x41, 0xE9, 0x20AC]" by code_simp
  moreover have "3 * (10 div 2) < (64 :: nat) \<longrightarrow> utf8_read (fst (blkid_encode_to_utf8 BLKID_ENC_UTF16LE 64
      [0x41, 0, 0xE9, 0, 0xAC, 0x20, 0, 0, 0x42, 0] 0 10 [] [])) = units BLKID_ENC_UTF16LE [0x41, 0, 0xE9, 0, 0xAC, 0x20, 0, 0, 0x42, 0] 0 10"
    by (intro label_round_trip [THEN conjunct2, THEN conjunct2, THEN conjunct2]) simp
  ultimately show ?thesis by (simp del: blkid_encode_to_utf8.simps)
qed

text \<open>
  C12. Probing a block device with a valid FAT12 or FAT16 volume finds its serial number and its label: that of the
  first label entry of the root directory, or else, also when that is NO NAME, that of the boot
  sector, without trailing spaces; a label NO NAME or of spaces is not stored.
\<close>

theorem fat_label_found:
  assumes "volume E (pr_fd pr) img" "can_grow E" "pb_mem b \<noteq> [] \<longrightarrow> pb_ptr b \<noteq> 0" "length (pr_label pr) = 64"
    and "mg_kboff mag = 0" "512 \<le> length img" "ms = dec_msdos (take 512 img)"
    and "fat_valid_superblock mag ms (dec_vfat (take 512 img)) = Some (clusters, fat_size)" "ms_fat_length ms \<noteq> 0"
    and "root = unat ((ucast (ms_reserved ms) + fat_size) * ucast (ms_sector_size ms) :: u32)"
    and "n = unat (ms_dir_entries ms)" "0 < n" "root + 32 * n \<le> length img"
    and "l = fat_label ms (fat_root_label img root n)"
  shows "\<exists>pr' b' tr'. probe_vfat E pr mag b tr = (0, pr', b', tr') \<and> pr_uuid pr' = serno_uuid (ms_serno ms) \<and>
    (if l = no_name \<or> get8 (without_spaces l) 0 = 0 then pr_label pr' = pr_label pr
     else peek (pr_label pr') 0 11 = without_spaces l @ zeros (11 - length (without_spaces l)))"
  by (rule probe_fat16 [OF assms(1-7) refl assms(8-10) _ assms(12-14)]) (simp add: assms(7,11) dec_msdos_def dec_vfat_def)

theorem fat_label_found_witness:
  "\<exists>pr b tr. probe_vfat (block_of fat_image) probe0 \<lparr>mg_magic = str ''FAT12   '', mg_kboff = 0, mg_sboff = 54\<rparr> \<lparr>pb_ptr = 0, pb_mem = []\<rparr> [] =
     (0, pr, b, tr) \<and> pr_uuid pr = str ''1234-5678'' \<and> peek (pr_label pr) 0 11 = str ''USBSTICK'' @ zeros 3"
proof -
  let ?ms = "dec_msdos fat_boot" let ?l = "str ''USBSTICK   ''"
  have l: "?l = fat_label ?ms (fat_root_label fat_image 1024 16)" "?l \<noteq> no_name" "get8 (without_spaces ?l) 0 \<noteq> 0"
    "without_spaces ?l @ zeros (11 - length (without_spaces ?l)) = str ''USBSTICK'' @ zeros 3"
    by (simp_all add: fat_image_label fat_label_def) code_simp+
  have u: "serno_uuid (ms_serno ?ms) = str ''1234-5678''" by (simp add: boot_eval) code_simp
  have "\<exists>pr' b' tr'. probe_vfat (block_of fat_image) probe0 \<lparr>mg_magic = str ''FAT12   '', mg_kboff = 0, mg_sboff = 54\<rparr> \<lparr>pb_ptr = 0, pb_mem = []\<rparr> [] =
      (0, pr', b', tr') \<and> pr_uuid pr' = serno_uuid (ms_serno ?ms) \<and>
    (if ?l = no_name \<or> get8 (without_spaces ?l) 0 = 0 then pr_label pr' = pr_label probe0
     else peek (pr_label pr') 0 11 = without_spaces ?l @ zeros (11 - length (without_spaces ?l)))"
    by (rule fat_label_found [where img = fat_image and clusters = 10 and fat_size = 1 and root = 1024 and n = 16])
      (use l(1) fat_boot_valid in \<open>simp_all add: block_of_volume fat_image_boot boot_eval probe0_def zeros_def\<close>)
  then show ?thesis using l u by simp
qed

end
